theory Spec2Isabelle
  imports Main "HOL-Library.Word" "HOL-Library.Multiset"
begin

unbundle bit_operations_syntax

section \<open>C integers, printf and strtol\<close>

text \<open>
  \<^verbatim>\<open>int\<close> and \<^verbatim>\<open>unsigned int\<close> are 32-bit words, \<^verbatim>\<open>ssize_t\<close> is a 64-bit word;
  \<open>sint\<close> reads a word as a signed value, \<open>+\<close> wraps around.
\<close>

type_synonym c_int = "32 word"
type_synonym c_uint = "32 word"
type_synonym c_ssize_t = "64 word"

definition digit_char :: "nat \<Rightarrow> char" where
  "digit_char d = ''0123456789'' ! d"

fun string_of_nat :: "nat \<Rightarrow> string" where
  "string_of_nat n =
     (if n < 10 then [digit_char n]
      else string_of_nat (n div 10) @ [digit_char (n mod 10)])"

declare string_of_nat.simps [simp del]

text \<open>The conversions \<^verbatim>\<open>%d\<close> and \<^verbatim>\<open>%zd\<close> of printf, on the signed value of the argument.\<close>

definition fmt_d :: "int \<Rightarrow> string" where
  "fmt_d i = (if i < 0 then CHR ''-'' # string_of_nat (nat (- i)) else string_of_nat (nat i))"

text \<open>\<^verbatim>\<open>STRPREFIX(a, b)\<close> is \<^verbatim>\<open>strncmp(a, b, strlen(b)) == 0\<close>.\<close>

definition STRPREFIX :: "string \<Rightarrow> string \<Rightarrow> bool" where
  "STRPREFIX a b = (take (length b) a = b)"

definition c_isspace :: "char \<Rightarrow> bool" where
  "c_isspace c = (of_char c \<in> {9, 10, 11, 12, 13, 32 :: nat})"

definition c_isdigit :: "char \<Rightarrow> bool" where
  "c_isdigit c = (48 \<le> (of_char c :: nat) \<and> (of_char c :: nat) \<le> 57)"

definition nat_of_digits :: "string \<Rightarrow> nat" where
  "nat_of_digits s = foldl (\<lambda>acc c. 10 * acc + (of_char c - 48)) 0 s"

text \<open>
  Modelled from the spec: \<^verbatim>\<open>virStrToLong_i\<close> (virstring.c) is not part of the sources at
  hand. The spec says the remainder after the prefix has to "parse as a base-10 integer";
  the model is strtol in base 10 with a NULL end pointer: leading white space, an optional
  sign, at least one digit, nothing after the digits, and a value that fits an \<^verbatim>\<open>int\<close>.
  \<open>None\<close> is the return value -1.
\<close>

definition virStrToLong_i :: "string \<Rightarrow> c_int option" where
  "virStrToLong_i s =
     (let s1 = dropWhile c_isspace s;
          neg = (s1 \<noteq> [] \<and> hd s1 = CHR ''-'');
          s2 = (if s1 \<noteq> [] \<and> (hd s1 = CHR ''-'' \<or> hd s1 = CHR ''+'') then tl s1 else s1);
          val = (if neg then - int (nat_of_digits s2) else int (nat_of_digits s2))
      in if s2 = [] \<or> \<not> list_all c_isdigit s2 then None
         else if val < - (2 ^ 31) \<or> 2 ^ 31 \<le> val then None
         else Some (word_of_int val))"

section \<open>The domain definition, as far as alias assignment reads it\<close>

datatype virDomainDeviceAddressType =
    VIR_DOMAIN_DEVICE_ADDRESS_TYPE_NONE
  | VIR_DOMAIN_DEVICE_ADDRESS_TYPE_PCI
  | VIR_DOMAIN_DEVICE_ADDRESS_TYPE_DRIVE
  | VIR_DOMAIN_DEVICE_ADDRESS_TYPE_VIRTIO_SERIAL
  | VIR_DOMAIN_DEVICE_ADDRESS_TYPE_CCID
  | VIR_DOMAIN_DEVICE_ADDRESS_TYPE_USB
  | VIR_DOMAIN_DEVICE_ADDRESS_TYPE_DIMM
  | VIR_DOMAIN_DEVICE_ADDRESS_TYPE_OTHER

text \<open>
  \<^verbatim>\<open>virDomainDeviceInfo\<close>: the alias (field \<open>dev_alias\<close>; \<open>None\<close> is the NULL pointer), the address type
  (\<^verbatim>\<open>info->type\<close>) and the members of the address union that the assigners read
  (\<^verbatim>\<open>addr.drive\<close> and \<^verbatim>\<open>addr.dimm.slot\<close>, all \<^verbatim>\<open>unsigned int\<close>).
\<close>

record virDomainDeviceInfo =
  dev_alias :: "string option"
  addr_type :: virDomainDeviceAddressType
  drive_controller :: c_uint
  drive_bus :: c_uint
  drive_target :: c_uint
  drive_unit :: c_uint
  dimm_slot :: c_uint

text \<open>Every device definition embeds an info; the classes below extend this record.\<close>

record virDomainDeviceDef =
  info :: virDomainDeviceInfo

type_synonym virDomainFSDef = virDomainDeviceDef
type_synonym virDomainSoundDef = virDomainDeviceDef
type_synonym virDomainVideoDef = virDomainDeviceDef
type_synonym virDomainHubDef = virDomainDeviceDef
type_synonym virDomainSmartcardDef = virDomainDeviceDef
type_synonym virDomainTPMDef = virDomainDeviceDef
type_synonym virDomainRedirdevDef = virDomainDeviceDef
type_synonym virDomainRNGDef = virDomainDeviceDef
type_synonym virDomainShmemDef = virDomainDeviceDef
type_synonym virDomainInputDef = virDomainDeviceDef
type_synonym virDomainWatchdogDef = virDomainDeviceDef
type_synonym virDomainVsockDef = virDomainDeviceDef

datatype virDomainDiskBus =
    VIR_DOMAIN_DISK_BUS_IDE
  | VIR_DOMAIN_DISK_BUS_FDC
  | VIR_DOMAIN_DISK_BUS_SCSI
  | VIR_DOMAIN_DISK_BUS_VIRTIO
  | VIR_DOMAIN_DISK_BUS_XEN
  | VIR_DOMAIN_DISK_BUS_USB
  | VIR_DOMAIN_DISK_BUS_UML
  | VIR_DOMAIN_DISK_BUS_SATA
  | VIR_DOMAIN_DISK_BUS_SD
  | VIR_DOMAIN_DISK_BUS_LAST

datatype virStorageType =
    VIR_STORAGE_TYPE_NONE
  | VIR_STORAGE_TYPE_FILE
  | VIR_STORAGE_TYPE_BLOCK
  | VIR_STORAGE_TYPE_DIR
  | VIR_STORAGE_TYPE_NETWORK
  | VIR_STORAGE_TYPE_VOLUME
  | VIR_STORAGE_TYPE_NVME
  | VIR_STORAGE_TYPE_LAST

text \<open>
  \<^verbatim>\<open>virStorageSource\<close>, as far as backup\_conf.c reads and writes it: \<^verbatim>\<open>type\<close>,
  \<^verbatim>\<open>path\<close> (\<open>None\<close> is NULL), \<^verbatim>\<open>readonly\<close>, \<^verbatim>\<open>format\<close> and \<^verbatim>\<open>id\<close>.
\<close>

record virStorageSource =
  src_type :: virStorageType
  src_path :: "string option"
  src_readonly :: bool
  src_format :: c_int
  src_id :: c_uint

text \<open>
  \<open>qomName\<close> is the field of the disk's private data (\<^verbatim>\<open>QEMU_DOMAIN_DISK_PRIVATE\<close>);
  \<open>src\<close> is read by backup\_conf.c only.
\<close>

record virDomainDiskDef = virDomainDeviceDef +
  bus :: virDomainDiskBus
  dst :: string
  qomName :: "string option"
  src :: virStorageSource

datatype virDomainNetType =
    VIR_DOMAIN_NET_TYPE_USER
  | VIR_DOMAIN_NET_TYPE_ETHERNET
  | VIR_DOMAIN_NET_TYPE_NETWORK
  | VIR_DOMAIN_NET_TYPE_BRIDGE
  | VIR_DOMAIN_NET_TYPE_DIRECT
  | VIR_DOMAIN_NET_TYPE_HOSTDEV
  | VIR_DOMAIN_NET_TYPE_OTHER

record virDomainNetDef = virDomainDeviceDef +
  net_type :: virDomainNetType

datatype virDomainControllerType =
    VIR_DOMAIN_CONTROLLER_TYPE_IDE
  | VIR_DOMAIN_CONTROLLER_TYPE_FDC
  | VIR_DOMAIN_CONTROLLER_TYPE_SCSI
  | VIR_DOMAIN_CONTROLLER_TYPE_SATA
  | VIR_DOMAIN_CONTROLLER_TYPE_VIRTIO_SERIAL
  | VIR_DOMAIN_CONTROLLER_TYPE_CCID
  | VIR_DOMAIN_CONTROLLER_TYPE_USB
  | VIR_DOMAIN_CONTROLLER_TYPE_PCI
  | VIR_DOMAIN_CONTROLLER_TYPE_XENBUS
  | VIR_DOMAIN_CONTROLLER_TYPE_ISA

text \<open>\<^verbatim>\<open>controller->type\<close>, \<^verbatim>\<open>controller->idx\<close> and \<^verbatim>\<open>controller->model\<close> (both \<^verbatim>\<open>int\<close>).\<close>

record virDomainControllerDef = virDomainDeviceDef +
  cont_type :: virDomainControllerType
  cont_idx :: c_int
  cont_model :: c_int

datatype virDomainChrDeviceType =
    VIR_DOMAIN_CHR_DEVICE_TYPE_PARALLEL
  | VIR_DOMAIN_CHR_DEVICE_TYPE_SERIAL
  | VIR_DOMAIN_CHR_DEVICE_TYPE_CONSOLE
  | VIR_DOMAIN_CHR_DEVICE_TYPE_CHANNEL
  | VIR_DOMAIN_CHR_DEVICE_TYPE_LAST

record virDomainChrDef = virDomainDeviceDef +
  deviceType :: virDomainChrDeviceType

datatype virDomainMemoryModel =
    VIR_DOMAIN_MEMORY_MODEL_NONE
  | VIR_DOMAIN_MEMORY_MODEL_DIMM
  | VIR_DOMAIN_MEMORY_MODEL_NVDIMM
  | VIR_DOMAIN_MEMORY_MODEL_VIRTIO_PMEM
  | VIR_DOMAIN_MEMORY_MODEL_LAST

record virDomainMemoryDef = virDomainDeviceDef +
  mem_model :: virDomainMemoryModel

datatype virDomainMemballoonModel =
    VIR_DOMAIN_MEMBALLOON_MODEL_VIRTIO
  | VIR_DOMAIN_MEMBALLOON_MODEL_XEN
  | VIR_DOMAIN_MEMBALLOON_MODEL_NONE
  | VIR_DOMAIN_MEMBALLOON_MODEL_OTHER

record virDomainMemballoonDef = virDomainDeviceDef +
  balloon_model :: virDomainMemballoonModel

text \<open>
  \<^verbatim>\<open>virDomainHostdevDef\<close> holds a pointer to its info. The pointer is either to an info
  of the host device's own, or to the info embedded in a network interface of the domain
  (an interface of type hostdev shares its info with the host device it stands for);
  \<open>NetInfo j\<close> is \<^verbatim>\<open>&def->nets[j]->info\<close>.
\<close>

datatype hostdev_info_ptr = OwnInfo virDomainDeviceInfo | NetInfo nat

record virDomainHostdevDef =
  info_ptr :: hostdev_info_ptr

record virDomainDef =
  disks :: "virDomainDiskDef list"
  nets :: "virDomainNetDef list"
  fss :: "virDomainFSDef list"
  sounds :: "virDomainSoundDef list"
  hostdevs :: "virDomainHostdevDef list"
  redirdevs :: "virDomainRedirdevDef list"
  videos :: "virDomainVideoDef list"
  controllers :: "virDomainControllerDef list"
  inputs :: "virDomainInputDef list"
  parallels :: "virDomainChrDef list"
  serials :: "virDomainChrDef list"
  channels :: "virDomainChrDef list"
  consoles :: "virDomainChrDef list"
  hubs :: "virDomainHubDef list"
  shmems :: "virDomainShmemDef list"
  smartcards :: "virDomainSmartcardDef list"
  watchdog :: "virDomainWatchdogDef option"
  memballoon :: "virDomainMemballoonDef option"
  rngs :: "virDomainRNGDef list"
  tpms :: "virDomainTPMDef list"
  mems :: "virDomainMemoryDef list"
  vsock :: "virDomainVsockDef option"

datatype virQEMUCapsFlags = QEMU_CAPS_BLOCKDEV | QEMU_CAPS_OTHER nat

type_synonym virQEMUCaps = "virQEMUCapsFlags set"

text \<open>
  The functions and constants that qemu\_alias.c uses and that live in other files
  (domain\_conf.c, qemu\_domain.c, qemu\_capabilities.c, virutil.c) are parameters of the
  model: every theorem below holds for any implementation of them.
\<close>

record qemu_collaborators =
  virDomainControllerTypeToString :: "virDomainControllerType \<Rightarrow> string"
  virDomainDiskBusTypeToString :: "virDomainDiskBus \<Rightarrow> string"
  virDiskNameToIndex :: "string \<Rightarrow> c_int"
  qemuDomainFindSCSIControllerModel :: "virDomainDef \<Rightarrow> virDomainDeviceInfo \<Rightarrow> c_int"
  virDomainNetResolveActualType :: "virDomainNetDef \<Rightarrow> virDomainNetType"
  qemuDomainHasBuiltinIDE :: "virDomainDef \<Rightarrow> bool"
  qemuDomainIsQ35 :: "virDomainDef \<Rightarrow> bool"
  virQEMUCapsHasPCIMultiBus :: "virQEMUCaps \<Rightarrow> virDomainDef \<Rightarrow> bool"
  virQEMUCapsGet :: "virQEMUCaps \<Rightarrow> virQEMUCapsFlags \<Rightarrow> bool"
  VIR_DOMAIN_CONTROLLER_MODEL_PCIE_ROOT :: c_int
  VIR_DOMAIN_CONTROLLER_MODEL_SCSI_NCR53C90 :: c_int
  VIR_DOMAIN_CONTROLLER_MODEL_SCSI_LSILOGIC :: c_int

datatype qemu_error =
    ErrFindSCSIControllerModel
  | ErrChrDeviceTypeLast
  | ErrEnumRange
  | ErrInvalidInfoPointer

section \<open>qemu\_alias.c\<close>

definition qemuDomainDeviceAliasIndex :: "virDomainDeviceInfo \<Rightarrow> string \<Rightarrow> c_int" where
  "qemuDomainDeviceAliasIndex dinfo prefix =
     (case dev_alias dinfo of
        None \<Rightarrow> - 1
      | Some a \<Rightarrow>
          if \<not> STRPREFIX a prefix then - 1
          else (case virStrToLong_i (drop (length prefix) a) of
                  None \<Rightarrow> - 1
                | Some idx \<Rightarrow> idx))"

text \<open>
  The body of the scanning loops that skip an alias without the prefix:
  \<^verbatim>\<open>if ((thisidx = qemuDomainDeviceAliasIndex(info, prefix)) < 0) continue;
  if (thisidx >= idx) idx = thisidx + 1;\<close>
\<close>

definition next_index_step :: "string \<Rightarrow> c_int \<Rightarrow> virDomainDeviceInfo \<Rightarrow> c_int" where
  "next_index_step prefix idx dinfo =
     (let thisidx = qemuDomainDeviceAliasIndex dinfo prefix in
      if sint thisidx < 0 then idx
      else if sint idx \<le> sint thisidx then thisidx + 1 else idx)"

text \<open>
  The body of the scanning loops that only compare:
  \<^verbatim>\<open>if ((idx = qemuDomainDeviceAliasIndex(info, prefix)) >= maxidx) maxidx = idx + 1;\<close>
\<close>

definition max_index_step :: "string \<Rightarrow> c_int \<Rightarrow> virDomainDeviceInfo \<Rightarrow> c_int" where
  "max_index_step prefix maxidx dinfo =
     (let idx = qemuDomainDeviceAliasIndex dinfo prefix in
      if sint maxidx \<le> sint idx then idx + 1 else maxidx)"

definition set_alias :: "string \<Rightarrow> 'a virDomainDeviceDef_scheme \<Rightarrow> 'a virDomainDeviceDef_scheme" where
  "set_alias a dev = dev\<lparr>info := (info dev)\<lparr>dev_alias := Some a\<rparr>\<rparr>"

definition virDomainChrGetDomainPtrs ::
  "virDomainDef \<Rightarrow> virDomainChrDeviceType \<Rightarrow> virDomainChrDef list" where
  "virDomainChrGetDomainPtrs def t =
     (case t of
        VIR_DOMAIN_CHR_DEVICE_TYPE_PARALLEL \<Rightarrow> parallels def
      | VIR_DOMAIN_CHR_DEVICE_TYPE_SERIAL \<Rightarrow> serials def
      | VIR_DOMAIN_CHR_DEVICE_TYPE_CONSOLE \<Rightarrow> consoles def
      | VIR_DOMAIN_CHR_DEVICE_TYPE_CHANNEL \<Rightarrow> channels def
      | VIR_DOMAIN_CHR_DEVICE_TYPE_LAST \<Rightarrow> [])"

text \<open>
  The loop body of \<^verbatim>\<open>qemuGetNextChrDevIndex\<close>; \<^verbatim>\<open>thisidx\<close> and \<^verbatim>\<open>idx\<close> are
  \<^verbatim>\<open>ssize_t\<close>, the \<^verbatim>\<open>int\<close> that the scanner returns is sign-extended.
\<close>

definition chr_index_step ::
  "string \<Rightarrow> string option \<Rightarrow> c_ssize_t \<Rightarrow> virDomainDeviceInfo \<Rightarrow> c_ssize_t" where
  "chr_index_step prefix prefix2 idx dinfo =
     (let thisidx = (scast (qemuDomainDeviceAliasIndex dinfo prefix) :: c_ssize_t) in
      if sint thisidx < 0 then
        (case prefix2 of
           None \<Rightarrow> if sint idx \<le> sint thisidx then thisidx + 1 else idx
         | Some p2 \<Rightarrow>
             let thisidx2 = (scast (qemuDomainDeviceAliasIndex dinfo p2) :: c_ssize_t) in
             if sint thisidx2 < 0 then idx
             else if sint idx \<le> sint thisidx2 then thisidx2 + 1 else idx)
      else if sint idx \<le> sint thisidx then thisidx + 1 else idx)"

definition qemuGetNextChrDevIndex ::
  "virDomainDef \<Rightarrow> virDomainChrDef \<Rightarrow> string \<Rightarrow> c_ssize_t" where
  "qemuGetNextChrDevIndex def chr prefix =
     (let prefix2 = (if deviceType chr = VIR_DOMAIN_CHR_DEVICE_TYPE_CONSOLE
                     then Some ''serial'' else None)
      in foldl (chr_index_step prefix prefix2) 0
           (map info (virDomainChrGetDomainPtrs def (deviceType chr))))"

definition qemuAssignDeviceChrAlias ::
  "virDomainDef \<Rightarrow> virDomainChrDef \<Rightarrow> c_ssize_t \<Rightarrow> qemu_error + virDomainChrDef" where
  "qemuAssignDeviceChrAlias def chr idx =
     (if dev_alias (info chr) \<noteq> None then Inr chr
      else
        (case (case deviceType chr of
                 VIR_DOMAIN_CHR_DEVICE_TYPE_PARALLEL \<Rightarrow> Some ''parallel''
               | VIR_DOMAIN_CHR_DEVICE_TYPE_SERIAL \<Rightarrow> Some ''serial''
               | VIR_DOMAIN_CHR_DEVICE_TYPE_CONSOLE \<Rightarrow> Some ''console''
               | VIR_DOMAIN_CHR_DEVICE_TYPE_CHANNEL \<Rightarrow> Some ''channel''
               | VIR_DOMAIN_CHR_DEVICE_TYPE_LAST \<Rightarrow> None) of
           None \<Rightarrow> Inl ErrChrDeviceTypeLast
         | Some prefix \<Rightarrow>
             let idx' = (if idx = - 1 then qemuGetNextChrDevIndex def chr prefix else idx) in
             if idx = - 1 \<and> sint idx' < 0 then Inl ErrChrDeviceTypeLast
             else Inr (set_alias (prefix @ fmt_d (sint idx')) chr)))"

definition qemuAssignDeviceControllerAlias ::
  "qemu_collaborators \<Rightarrow> virDomainDef \<Rightarrow> virQEMUCaps \<Rightarrow> virDomainControllerDef
     \<Rightarrow> qemu_error + virDomainControllerDef" where
  "qemuAssignDeviceControllerAlias X domainDef qemuCaps controller =
     (let prefix = virDomainControllerTypeToString X (cont_type controller) in
      if dev_alias (info controller) \<noteq> None then Inr controller
      else if cont_type controller = VIR_DOMAIN_CONTROLLER_TYPE_PCI then
        (if \<not> virQEMUCapsHasPCIMultiBus X qemuCaps domainDef then
           Inr (set_alias ''pci'' controller)
         else if cont_model controller = VIR_DOMAIN_CONTROLLER_MODEL_PCIE_ROOT X then
           Inr (set_alias (''pcie.'' @ fmt_d (sint (cont_idx controller))) controller)
         else Inr (set_alias (''pci.'' @ fmt_d (sint (cont_idx controller))) controller))
      else if cont_type controller = VIR_DOMAIN_CONTROLLER_TYPE_IDE
              \<and> qemuDomainHasBuiltinIDE X domainDef \<and> cont_idx controller = 0 then
        Inr (set_alias ''ide'' controller)
      else if cont_type controller = VIR_DOMAIN_CONTROLLER_TYPE_SATA
              \<and> qemuDomainIsQ35 X domainDef \<and> cont_idx controller = 0 then
        Inr (set_alias ''ide'' controller)
      else if cont_type controller = VIR_DOMAIN_CONTROLLER_TYPE_USB
              \<and> cont_idx controller = 0 then
        Inr (set_alias ''usb'' controller)
      else if cont_type controller = VIR_DOMAIN_CONTROLLER_TYPE_SCSI
              \<and> cont_model controller = VIR_DOMAIN_CONTROLLER_MODEL_SCSI_NCR53C90 X
              \<and> cont_idx controller = 0 then
        Inr (set_alias ''scsi'' controller)
      else Inr (set_alias (prefix @ fmt_d (sint (cont_idx controller))) controller))"

text \<open>The first half of \<^verbatim>\<open>qemuAssignDeviceDiskAlias\<close>: the alias, when there is none yet.\<close>

definition disk_assign_alias ::
  "qemu_collaborators \<Rightarrow> virDomainDef \<Rightarrow> virDomainDiskDef \<Rightarrow> qemu_error + virDomainDiskDef" where
  "disk_assign_alias X def disk =
     (let prefix = virDomainDiskBusTypeToString X (bus disk); i = info disk in
      if dev_alias i \<noteq> None then Inr disk
      else if addr_type i = VIR_DOMAIN_DEVICE_ADDRESS_TYPE_DRIVE then
        (let controllerModel =
               (if bus disk = VIR_DOMAIN_DISK_BUS_SCSI
                then qemuDomainFindSCSIControllerModel X def i else - 1)
         in if bus disk = VIR_DOMAIN_DISK_BUS_SCSI \<and> sint controllerModel < 0 then
              Inl ErrFindSCSIControllerModel
            else if bus disk \<noteq> VIR_DOMAIN_DISK_BUS_SCSI
                    \<or> controllerModel = VIR_DOMAIN_CONTROLLER_MODEL_SCSI_LSILOGIC X then
              Inr (set_alias (prefix @ fmt_d (sint (drive_controller i)) @ ''-''
                     @ fmt_d (sint (drive_bus i)) @ ''-''
                     @ fmt_d (sint (drive_unit i))) disk)
            else
              Inr (set_alias (prefix @ fmt_d (sint (drive_controller i)) @ ''-''
                     @ fmt_d (sint (drive_bus i)) @ ''-''
                     @ fmt_d (sint (drive_target i)) @ ''-''
                     @ fmt_d (sint (drive_unit i))) disk))
      else
        (let idx = virDiskNameToIndex X (dst disk) in
         Inr (set_alias (prefix @ ''-disk'' @ fmt_d (sint idx)) disk)))"

text \<open>
  The second half: the QOM name, cached once. \<^verbatim>\<open>g_strdup\<close> of a NULL alias is NULL;
  the second half is only reached with the alias set.
\<close>

definition disk_assign_qomName ::
  "qemu_collaborators \<Rightarrow> virQEMUCaps \<Rightarrow> virDomainDiskDef \<Rightarrow> virDomainDiskDef" where
  "disk_assign_qomName X qemuCaps disk =
     (if qomName disk = None \<and> virQEMUCapsGet X qemuCaps QEMU_CAPS_BLOCKDEV then
        (case dev_alias (info disk) of
           None \<Rightarrow> disk
         | Some a \<Rightarrow>
            (case bus disk of
               VIR_DOMAIN_DISK_BUS_FDC \<Rightarrow> disk\<lparr>qomName := Some a\<rparr>
             | VIR_DOMAIN_DISK_BUS_IDE \<Rightarrow> disk\<lparr>qomName := Some a\<rparr>
             | VIR_DOMAIN_DISK_BUS_SATA \<Rightarrow> disk\<lparr>qomName := Some a\<rparr>
             | VIR_DOMAIN_DISK_BUS_SCSI \<Rightarrow> disk\<lparr>qomName := Some a\<rparr>
             | VIR_DOMAIN_DISK_BUS_VIRTIO \<Rightarrow>
                 disk\<lparr>qomName := Some (''/machine/peripheral/'' @ a @ ''/virtio-backend'')\<rparr>
             | VIR_DOMAIN_DISK_BUS_USB \<Rightarrow>
                 disk\<lparr>qomName := Some (''/machine/peripheral/'' @ a @ ''/'' @ a
                                          @ ''.0/legacy[0]'')\<rparr>
             | VIR_DOMAIN_DISK_BUS_XEN \<Rightarrow> disk
             | VIR_DOMAIN_DISK_BUS_UML \<Rightarrow> disk
             | VIR_DOMAIN_DISK_BUS_SD \<Rightarrow> disk
             | VIR_DOMAIN_DISK_BUS_LAST \<Rightarrow> disk))
      else disk)"

definition qemuAssignDeviceDiskAlias ::
  "qemu_collaborators \<Rightarrow> virDomainDef \<Rightarrow> virDomainDiskDef \<Rightarrow> virQEMUCaps
     \<Rightarrow> qemu_error + virDomainDiskDef" where
  "qemuAssignDeviceDiskAlias X def disk qemuCaps =
     (case disk_assign_alias X def disk of
        Inl e \<Rightarrow> Inl e
      | Inr disk' \<Rightarrow> Inr (disk_assign_qomName X qemuCaps disk'))"

text \<open>
  Following \<^verbatim>\<open>def->hostdevs[i]->info\<close>. A pointer to \<^verbatim>\<open>&def->nets[j]->info\<close> with
  \<open>j\<close> past the end of \<open>nets\<close> is no state of the C program; the model reports it as
  \<open>ErrInvalidInfoPointer\<close> where the code would follow it.
\<close>

definition hostdev_info :: "virDomainDef \<Rightarrow> virDomainHostdevDef \<Rightarrow> virDomainDeviceInfo option" where
  "hostdev_info def h =
     (case info_ptr h of
        OwnInfo i \<Rightarrow> Some i
      | NetInfo j \<Rightarrow> if j < length (nets def) then Some (info (nets def ! j)) else None)"

fun hostdev_infos :: "virDomainDef \<Rightarrow> virDomainHostdevDef list \<Rightarrow> virDomainDeviceInfo list option" where
  "hostdev_infos def [] = Some []"
| "hostdev_infos def (h # hs) =
     (case hostdev_info def h of
        None \<Rightarrow> None
      | Some i \<Rightarrow> (case hostdev_infos def hs of None \<Rightarrow> None | Some is \<Rightarrow> Some (i # is)))"

text \<open>
  \<^verbatim>\<open>qemuAssignDeviceHostdevAlias(def, char **alias, idx)\<close>: the model takes the string
  that \<^verbatim>\<open>*alias\<close> holds and returns the one it holds afterwards.
\<close>

definition qemuAssignDeviceHostdevAlias ::
  "virDomainDef \<Rightarrow> string option \<Rightarrow> c_int \<Rightarrow> qemu_error + string option" where
  "qemuAssignDeviceHostdevAlias def a idx =
     (if a \<noteq> None then Inr a
      else if idx = - 1 then
        (case hostdev_infos def (hostdevs def) of
           None \<Rightarrow> Inl ErrInvalidInfoPointer
         | Some his \<Rightarrow>
             let idx1 = foldl (next_index_step ''hostdev'') 0 his;
                 idx2 = foldl (next_index_step ''hostdev'') idx1 (map info (nets def))
             in Inr (Some (''hostdev'' @ fmt_d (sint idx2))))
      else Inr (Some (''hostdev'' @ fmt_d (sint idx))))"

definition qemuAssignDeviceNetAlias ::
  "qemu_collaborators \<Rightarrow> virDomainDef \<Rightarrow> virDomainNetDef \<Rightarrow> c_int
     \<Rightarrow> qemu_error + virDomainNetDef" where
  "qemuAssignDeviceNetAlias X def net idx =
     (if dev_alias (info net) \<noteq> None then Inr net
      else if virDomainNetResolveActualType X net = VIR_DOMAIN_NET_TYPE_HOSTDEV then
        (case qemuAssignDeviceHostdevAlias def (dev_alias (info net)) (- 1) of
           Inl e \<Rightarrow> Inl e
         | Inr a \<Rightarrow> Inr (net\<lparr>info := (info net)\<lparr>dev_alias := a\<rparr>\<rparr>))
      else
        (let idx' = (if idx = - 1
                     then foldl (next_index_step ''net'') 0 (map info (nets def))
                     else idx)
         in Inr (set_alias (''net'' @ fmt_d (sint idx')) net)))"

definition qemuAssignDeviceFSAlias :: "virDomainFSDef \<Rightarrow> c_int \<Rightarrow> qemu_error + virDomainFSDef" where
  "qemuAssignDeviceFSAlias fs idx =
     (if dev_alias (info fs) \<noteq> None then Inr fs
      else Inr (set_alias (''fs'' @ fmt_d (sint idx)) fs))"

definition qemuAssignDeviceSoundAlias ::
  "virDomainSoundDef \<Rightarrow> c_int \<Rightarrow> qemu_error + virDomainSoundDef" where
  "qemuAssignDeviceSoundAlias sound idx =
     (if dev_alias (info sound) \<noteq> None then Inr sound
      else Inr (set_alias (''sound'' @ fmt_d (sint idx)) sound))"

definition qemuAssignDeviceVideoAlias ::
  "virDomainVideoDef \<Rightarrow> c_int \<Rightarrow> qemu_error + virDomainVideoDef" where
  "qemuAssignDeviceVideoAlias video idx =
     (if dev_alias (info video) \<noteq> None then Inr video
      else Inr (set_alias (''video'' @ fmt_d (sint idx)) video))"

definition qemuAssignDeviceHubAlias :: "virDomainHubDef \<Rightarrow> c_int \<Rightarrow> qemu_error + virDomainHubDef" where
  "qemuAssignDeviceHubAlias hub idx =
     (if dev_alias (info hub) \<noteq> None then Inr hub
      else Inr (set_alias (''hub'' @ fmt_d (sint idx)) hub))"

definition qemuAssignDeviceSmartcardAlias ::
  "virDomainSmartcardDef \<Rightarrow> c_int \<Rightarrow> qemu_error + virDomainSmartcardDef" where
  "qemuAssignDeviceSmartcardAlias smartcard idx =
     (if dev_alias (info smartcard) \<noteq> None then Inr smartcard
      else Inr (set_alias (''smartcard'' @ fmt_d (sint idx)) smartcard))"

definition qemuAssignDeviceMemballoonAlias ::
  "virDomainMemballoonDef \<Rightarrow> c_int \<Rightarrow> qemu_error + virDomainMemballoonDef" where
  "qemuAssignDeviceMemballoonAlias balloon idx =
     (if dev_alias (info balloon) \<noteq> None then Inr balloon
      else Inr (set_alias (''balloon'' @ fmt_d (sint idx)) balloon))"

definition qemuAssignDeviceTPMAlias :: "virDomainTPMDef \<Rightarrow> c_int \<Rightarrow> qemu_error + virDomainTPMDef" where
  "qemuAssignDeviceTPMAlias tpm idx =
     (if dev_alias (info tpm) \<noteq> None then Inr tpm
      else Inr (set_alias (''tpm'' @ fmt_d (sint idx)) tpm))"

definition qemuAssignDeviceRedirdevAlias ::
  "virDomainDef \<Rightarrow> virDomainRedirdevDef \<Rightarrow> c_int \<Rightarrow> qemu_error + virDomainRedirdevDef" where
  "qemuAssignDeviceRedirdevAlias def redirdev idx =
     (if dev_alias (info redirdev) \<noteq> None then Inr redirdev
      else
        (let idx' = (if idx = - 1
                     then foldl (next_index_step ''redir'') 0 (map info (redirdevs def))
                     else idx)
         in Inr (set_alias (''redir'' @ fmt_d (sint idx')) redirdev)))"

definition qemuAssignDeviceRNGAlias ::
  "virDomainDef \<Rightarrow> virDomainRNGDef \<Rightarrow> qemu_error + virDomainRNGDef" where
  "qemuAssignDeviceRNGAlias def rng =
     (if dev_alias (info rng) \<noteq> None then Inr rng
      else
        (let maxidx = foldl (max_index_step ''rng'') 0 (map info (rngs def))
         in Inr (set_alias (''rng'' @ fmt_d (sint maxidx)) rng)))"

text \<open>\<^verbatim>\<open>return mem->info.addr.dimm.slot\<close> converts the unsigned slot to \<^verbatim>\<open>int\<close>: the same 32 bits.\<close>

definition qemuDeviceMemoryGetAliasID ::
  "virDomainDef \<Rightarrow> virDomainMemoryDef \<Rightarrow> bool \<Rightarrow> string \<Rightarrow> c_int" where
  "qemuDeviceMemoryGetAliasID def mem oldAlias prefix =
     (if \<not> oldAlias \<and> mem_model mem \<noteq> VIR_DOMAIN_MEMORY_MODEL_VIRTIO_PMEM then
        dimm_slot (info mem)
      else foldl (max_index_step prefix) 0 (map info (mems def)))"

definition qemuAssignDeviceMemoryAlias ::
  "virDomainDef \<Rightarrow> virDomainMemoryDef \<Rightarrow> bool \<Rightarrow> qemu_error + virDomainMemoryDef" where
  "qemuAssignDeviceMemoryAlias def mem oldAlias =
     (if dev_alias (info mem) \<noteq> None then Inr mem
      else
        (case (case mem_model mem of
                 VIR_DOMAIN_MEMORY_MODEL_DIMM \<Rightarrow> Some ''dimm''
               | VIR_DOMAIN_MEMORY_MODEL_NVDIMM \<Rightarrow> Some ''nvdimm''
               | VIR_DOMAIN_MEMORY_MODEL_VIRTIO_PMEM \<Rightarrow> Some ''virtiopmem''
               | VIR_DOMAIN_MEMORY_MODEL_NONE \<Rightarrow> None
               | VIR_DOMAIN_MEMORY_MODEL_LAST \<Rightarrow> None) of
           None \<Rightarrow> Inl ErrEnumRange
         | Some prefix \<Rightarrow>
             let idx = qemuDeviceMemoryGetAliasID def mem oldAlias prefix
             in Inr (set_alias (prefix @ fmt_d (sint idx)) mem)))"

definition qemuAssignDeviceShmemAlias ::
  "virDomainDef \<Rightarrow> virDomainShmemDef \<Rightarrow> c_int \<Rightarrow> qemu_error + virDomainShmemDef" where
  "qemuAssignDeviceShmemAlias def shmem idx =
     (if dev_alias (info shmem) \<noteq> None then Inr shmem
      else
        (let idx' = (if idx = - 1
                     then foldl (next_index_step ''shmem'') 0 (map info (shmems def))
                     else idx)
         in Inr (set_alias (''shmem'' @ fmt_d (sint idx')) shmem)))"

definition qemuAssignDeviceWatchdogAlias ::
  "virDomainWatchdogDef \<Rightarrow> qemu_error + virDomainWatchdogDef" where
  "qemuAssignDeviceWatchdogAlias wd =
     (if dev_alias (info wd) \<noteq> None then Inr wd
      else Inr (set_alias ''watchdog0'' wd))"

text \<open>
  In \<^verbatim>\<open>qemuAssignDeviceInputAlias\<close> the scan starts from the \<^verbatim>\<open>idx\<close> that was passed,
  which is -1 there: the source has no \<^verbatim>\<open>idx = 0\<close> before the loop.
\<close>

definition qemuAssignDeviceInputAlias ::
  "virDomainDef \<Rightarrow> virDomainInputDef \<Rightarrow> c_int \<Rightarrow> qemu_error + virDomainInputDef" where
  "qemuAssignDeviceInputAlias def input idx =
     (if dev_alias (info input) \<noteq> None then Inr input
      else
        (let idx' = (if idx = - 1
                     then foldl (max_index_step ''input'') idx (map info (inputs def))
                     else idx)
         in Inr (set_alias (''input'' @ fmt_d (sint idx')) input)))"

definition qemuAssignDeviceVsockAlias :: "virDomainVsockDef \<Rightarrow> qemu_error + virDomainVsockDef" where
  "qemuAssignDeviceVsockAlias vs =
     (if dev_alias (info vs) \<noteq> None then Inr vs
      else Inr (set_alias ''vsock0'' vs))"

subsection \<open>The domain-wide pass\<close>

text \<open>
  \<^verbatim>\<open>for (i = start; i < start + n; i++) { if (body(i) < 0) return -1; }\<close> on a state
  that the body updates; \<open>Inl\<close> is the early return.
\<close>

primrec for_loop :: "nat \<Rightarrow> nat \<Rightarrow> (nat \<Rightarrow> 's \<Rightarrow> 'e + 's) \<Rightarrow> 's \<Rightarrow> 'e + 's" where
  "for_loop 0 i body s = Inr s"
| "for_loop (Suc n) i body s =
     (case body i s of Inl e \<Rightarrow> Inl e | Inr s' \<Rightarrow> for_loop n (Suc i) body s')"

text \<open>Statements in sequence, each of which may return early with an error.\<close>

primrec run_phases :: "('s \<Rightarrow> 'e + 's) list \<Rightarrow> 's \<Rightarrow> 'e + 's" where
  "run_phases [] s = Inr s"
| "run_phases (f # fs) s = (case f s of Inl e \<Rightarrow> Inl e | Inr s' \<Rightarrow> run_phases fs s')"

definition on_success :: "'e + 'a \<Rightarrow> ('a \<Rightarrow> 'b) \<Rightarrow> 'e + 'b" where
  "on_success r f = (case r of Inl e \<Rightarrow> Inl e | Inr x \<Rightarrow> Inr (f x))"

text \<open>
  One definition for each loop of \<^verbatim>\<open>qemuAssignDeviceAliases\<close>, in the order of the
  source. The assigner writes the alias into the device it is given, which is
  \<^verbatim>\<open>def->xs[i]\<close>: the model stores the device it returns at index \<open>i\<close>. A \<^verbatim>\<open>size_t i\<close>
  passed for an \<^verbatim>\<open>int\<close> or an \<^verbatim>\<open>ssize_t\<close> parameter is converted by \<open>of_nat\<close>.
\<close>

definition aliases_disks ::
  "qemu_collaborators \<Rightarrow> virQEMUCaps \<Rightarrow> virDomainDef \<Rightarrow> qemu_error + virDomainDef" where
  "aliases_disks X qemuCaps def =
     for_loop (length (disks def)) 0
       (\<lambda>i d. on_success (qemuAssignDeviceDiskAlias X d (disks d ! i) qemuCaps)
                (\<lambda>x. d\<lparr>disks := (disks d)[i := x]\<rparr>)) def"

definition aliases_nets :: "qemu_collaborators \<Rightarrow> virDomainDef \<Rightarrow> qemu_error + virDomainDef" where
  "aliases_nets X def =
     for_loop (length (nets def)) 0
       (\<lambda>i d. on_success (qemuAssignDeviceNetAlias X d (nets d ! i) (- 1))
                (\<lambda>x. d\<lparr>nets := (nets d)[i := x]\<rparr>)) def"

definition aliases_fss :: "virDomainDef \<Rightarrow> qemu_error + virDomainDef" where
  "aliases_fss def =
     for_loop (length (fss def)) 0
       (\<lambda>i d. on_success (qemuAssignDeviceFSAlias (fss d ! i) (of_nat i))
                (\<lambda>x. d\<lparr>fss := (fss d)[i := x]\<rparr>)) def"

definition aliases_sounds :: "virDomainDef \<Rightarrow> qemu_error + virDomainDef" where
  "aliases_sounds def =
     for_loop (length (sounds def)) 0
       (\<lambda>i d. on_success (qemuAssignDeviceSoundAlias (sounds d ! i) (of_nat i))
                (\<lambda>x. d\<lparr>sounds := (sounds d)[i := x]\<rparr>)) def"

text \<open>
  \<^verbatim>\<open>qemuAssignDeviceHostdevAlias(def, &def->hostdevs[i]->info->alias, -1)\<close>: the alias
  is read and written through the info pointer of the host device.
\<close>

definition aliases_hostdevs_body :: "nat \<Rightarrow> virDomainDef \<Rightarrow> qemu_error + virDomainDef" where
  "aliases_hostdevs_body i d =
     (case info_ptr (hostdevs d ! i) of
        OwnInfo di \<Rightarrow>
          on_success (qemuAssignDeviceHostdevAlias d (dev_alias di) (- 1))
            (\<lambda>a. d\<lparr>hostdevs := (hostdevs d)
                     [i := (hostdevs d ! i)\<lparr>info_ptr := OwnInfo (di\<lparr>dev_alias := a\<rparr>)\<rparr>]\<rparr>)
      | NetInfo j \<Rightarrow>
          if j < length (nets d) then
            on_success (qemuAssignDeviceHostdevAlias d (dev_alias (info (nets d ! j))) (- 1))
              (\<lambda>a. d\<lparr>nets := (nets d)
                       [j := (nets d ! j)\<lparr>info := (info (nets d ! j))\<lparr>dev_alias := a\<rparr>\<rparr>]\<rparr>)
          else Inl ErrInvalidInfoPointer)"

definition aliases_hostdevs :: "virDomainDef \<Rightarrow> qemu_error + virDomainDef" where
  "aliases_hostdevs def = for_loop (length (hostdevs def)) 0 aliases_hostdevs_body def"

definition aliases_redirdevs :: "virDomainDef \<Rightarrow> qemu_error + virDomainDef" where
  "aliases_redirdevs def =
     for_loop (length (redirdevs def)) 0
       (\<lambda>i d. on_success (qemuAssignDeviceRedirdevAlias d (redirdevs d ! i) (of_nat i))
                (\<lambda>x. d\<lparr>redirdevs := (redirdevs d)[i := x]\<rparr>)) def"

definition aliases_videos :: "virDomainDef \<Rightarrow> qemu_error + virDomainDef" where
  "aliases_videos def =
     for_loop (length (videos def)) 0
       (\<lambda>i d. on_success (qemuAssignDeviceVideoAlias (videos d ! i) (of_nat i))
                (\<lambda>x. d\<lparr>videos := (videos d)[i := x]\<rparr>)) def"

definition aliases_controllers ::
  "qemu_collaborators \<Rightarrow> virQEMUCaps \<Rightarrow> virDomainDef \<Rightarrow> qemu_error + virDomainDef" where
  "aliases_controllers X qemuCaps def =
     for_loop (length (controllers def)) 0
       (\<lambda>i d. on_success (qemuAssignDeviceControllerAlias X d qemuCaps (controllers d ! i))
                (\<lambda>x. d\<lparr>controllers := (controllers d)[i := x]\<rparr>)) def"

definition aliases_inputs :: "virDomainDef \<Rightarrow> qemu_error + virDomainDef" where
  "aliases_inputs def =
     for_loop (length (inputs def)) 0
       (\<lambda>i d. on_success (qemuAssignDeviceInputAlias d (inputs d ! i) (of_nat i))
                (\<lambda>x. d\<lparr>inputs := (inputs d)[i := x]\<rparr>)) def"

definition aliases_parallels :: "virDomainDef \<Rightarrow> qemu_error + virDomainDef" where
  "aliases_parallels def =
     for_loop (length (parallels def)) 0
       (\<lambda>i d. on_success (qemuAssignDeviceChrAlias d (parallels d ! i) (of_nat i))
                (\<lambda>x. d\<lparr>parallels := (parallels d)[i := x]\<rparr>)) def"

definition aliases_serials :: "virDomainDef \<Rightarrow> qemu_error + virDomainDef" where
  "aliases_serials def =
     for_loop (length (serials def)) 0
       (\<lambda>i d. on_success (qemuAssignDeviceChrAlias d (serials d ! i) (of_nat i))
                (\<lambda>x. d\<lparr>serials := (serials d)[i := x]\<rparr>)) def"

definition aliases_channels :: "virDomainDef \<Rightarrow> qemu_error + virDomainDef" where
  "aliases_channels def =
     for_loop (length (channels def)) 0
       (\<lambda>i d. on_success (qemuAssignDeviceChrAlias d (channels d ! i) (of_nat i))
                (\<lambda>x. d\<lparr>channels := (channels d)[i := x]\<rparr>)) def"

definition aliases_consoles :: "virDomainDef \<Rightarrow> qemu_error + virDomainDef" where
  "aliases_consoles def =
     for_loop (length (consoles def)) 0
       (\<lambda>i d. on_success (qemuAssignDeviceChrAlias d (consoles d ! i) (of_nat i))
                (\<lambda>x. d\<lparr>consoles := (consoles d)[i := x]\<rparr>)) def"

definition aliases_hubs :: "virDomainDef \<Rightarrow> qemu_error + virDomainDef" where
  "aliases_hubs def =
     for_loop (length (hubs def)) 0
       (\<lambda>i d. on_success (qemuAssignDeviceHubAlias (hubs d ! i) (of_nat i))
                (\<lambda>x. d\<lparr>hubs := (hubs d)[i := x]\<rparr>)) def"

definition aliases_shmems :: "virDomainDef \<Rightarrow> qemu_error + virDomainDef" where
  "aliases_shmems def =
     for_loop (length (shmems def)) 0
       (\<lambda>i d. on_success (qemuAssignDeviceShmemAlias d (shmems d ! i) (of_nat i))
                (\<lambda>x. d\<lparr>shmems := (shmems d)[i := x]\<rparr>)) def"

definition aliases_smartcards :: "virDomainDef \<Rightarrow> qemu_error + virDomainDef" where
  "aliases_smartcards def =
     for_loop (length (smartcards def)) 0
       (\<lambda>i d. on_success (qemuAssignDeviceSmartcardAlias (smartcards d ! i) (of_nat i))
                (\<lambda>x. d\<lparr>smartcards := (smartcards d)[i := x]\<rparr>)) def"

definition aliases_watchdog :: "virDomainDef \<Rightarrow> qemu_error + virDomainDef" where
  "aliases_watchdog def =
     (case watchdog def of
        None \<Rightarrow> Inr def
      | Some wd \<Rightarrow>
          on_success (qemuAssignDeviceWatchdogAlias wd) (\<lambda>x. def\<lparr>watchdog := Some x\<rparr>))"

definition aliases_memballoon :: "virDomainDef \<Rightarrow> qemu_error + virDomainDef" where
  "aliases_memballoon def =
     (case memballoon def of
        None \<Rightarrow> Inr def
      | Some balloon \<Rightarrow>
          if balloon_model balloon \<noteq> VIR_DOMAIN_MEMBALLOON_MODEL_NONE then
            on_success (qemuAssignDeviceMemballoonAlias balloon 0)
              (\<lambda>x. def\<lparr>memballoon := Some x\<rparr>)
          else Inr def)"

definition aliases_rngs :: "virDomainDef \<Rightarrow> qemu_error + virDomainDef" where
  "aliases_rngs def =
     for_loop (length (rngs def)) 0
       (\<lambda>i d. on_success (qemuAssignDeviceRNGAlias d (rngs d ! i))
                (\<lambda>x. d\<lparr>rngs := (rngs d)[i := x]\<rparr>)) def"

definition aliases_tpms :: "virDomainDef \<Rightarrow> qemu_error + virDomainDef" where
  "aliases_tpms def =
     for_loop (length (tpms def)) 0
       (\<lambda>i d. on_success (qemuAssignDeviceTPMAlias (tpms d ! i) (of_nat i))
                (\<lambda>x. d\<lparr>tpms := (tpms d)[i := x]\<rparr>)) def"

definition aliases_mems :: "virDomainDef \<Rightarrow> qemu_error + virDomainDef" where
  "aliases_mems def =
     for_loop (length (mems def)) 0
       (\<lambda>i d. on_success (qemuAssignDeviceMemoryAlias d (mems d ! i) False)
                (\<lambda>x. d\<lparr>mems := (mems d)[i := x]\<rparr>)) def"

definition aliases_vsock :: "virDomainDef \<Rightarrow> qemu_error + virDomainDef" where
  "aliases_vsock def =
     (case vsock def of
        None \<Rightarrow> Inr def
      | Some vs \<Rightarrow> on_success (qemuAssignDeviceVsockAlias vs) (\<lambda>x. def\<lparr>vsock := Some x\<rparr>))"

definition qemuAssignDeviceAliases ::
  "qemu_collaborators \<Rightarrow> virDomainDef \<Rightarrow> virQEMUCaps \<Rightarrow> qemu_error + virDomainDef" where
  "qemuAssignDeviceAliases X def qemuCaps =
     run_phases
       [aliases_disks X qemuCaps, aliases_nets X, aliases_fss, aliases_sounds,
        aliases_hostdevs, aliases_redirdevs, aliases_videos,
        aliases_controllers X qemuCaps, aliases_inputs, aliases_parallels,
        aliases_serials, aliases_channels, aliases_consoles, aliases_hubs,
        aliases_shmems, aliases_smartcards, aliases_watchdog, aliases_memballoon,
        aliases_rngs, aliases_tpms, aliases_mems, aliases_vsock] def"

section \<open>backup\_conf.c\<close>

subsection \<open>XML documents and the enum tables\<close>

text \<open>
  Modelled from the spec: libxml2 (\<^verbatim>\<open>xmlGetProp\<close>, \<^verbatim>\<open>xmlXPathEval\<close>) is outside the
  sources. The spec names the wire format "an XML document with root element domainbackup";
  the model is the element tree, and the XPath expressions that backup\_conf.c passes to
  the helpers of virxml.c are evaluated on it as XPath 1.0 defines them.
\<close>

datatype xml_node = XmlElement string "(string \<times> string) list" "xml_node list" | XmlText string

fun xml_name :: "xml_node \<Rightarrow> string" where
  "xml_name (XmlElement n as cs) = n"
| "xml_name (XmlText t) = []"

fun xml_attrs :: "xml_node \<Rightarrow> (string \<times> string) list" where
  "xml_attrs (XmlElement n as cs) = as"
| "xml_attrs (XmlText t) = []"

fun xml_children :: "xml_node \<Rightarrow> xml_node list" where
  "xml_children (XmlElement n as cs) = cs"
| "xml_children (XmlText t) = []"

fun xml_is_element :: "xml_node \<Rightarrow> bool" where
  "xml_is_element (XmlElement n as cs) = True"
| "xml_is_element (XmlText t) = False"

fun xml_string_value :: "xml_node \<Rightarrow> string" where
  "xml_string_value (XmlElement n as cs) = concat (map xml_string_value cs)"
| "xml_string_value (XmlText t) = t"

text \<open>The child elements with a given name: the XPath step \<^verbatim>\<open>./name\<close>.\<close>

definition xml_child_elements :: "string \<Rightarrow> xml_node \<Rightarrow> xml_node list" where
  "xml_child_elements name node =
     filter (\<lambda>c. xml_is_element c \<and> xml_name c = name) (xml_children node)"

definition virXMLPropString :: "xml_node \<Rightarrow> string \<Rightarrow> string option" where
  "virXMLPropString node name = map_of (xml_attrs node) name"

definition virXMLNodeNameEqual :: "xml_node \<Rightarrow> string \<Rightarrow> bool" where
  "virXMLNodeNameEqual node name = (xml_is_element node \<and> xml_name node = name)"

text \<open>\<^verbatim>\<open>virXPathString\<close> returns NULL for an empty string value.\<close>

definition nonempty_string :: "string list \<Rightarrow> string option" where
  "nonempty_string vs = (case vs of [] \<Rightarrow> None | v # _ \<Rightarrow> if v = [] then None else Some v)"

text \<open>\<^verbatim>\<open>virXPathString("string(./child)", ctxt)\<close>\<close>

definition virXPathString_child :: "string \<Rightarrow> xml_node \<Rightarrow> string option" where
  "virXPathString_child child node =
     nonempty_string (map xml_string_value (xml_child_elements child node))"

text \<open>\<^verbatim>\<open>virXPathString("string(./child/@attr)", ctxt)\<close>\<close>

definition virXPathString_child_attr :: "string \<Rightarrow> string \<Rightarrow> xml_node \<Rightarrow> string option" where
  "virXPathString_child_attr child attr node =
     nonempty_string
       (List.map_filter (\<lambda>c. virXMLPropString c attr) (xml_child_elements child node))"

text \<open>\<^verbatim>\<open>virXPathNode("./child", ctxt)\<close>: the first node of the set, or NULL.\<close>

definition virXPathNode_child :: "string \<Rightarrow> xml_node \<Rightarrow> xml_node option" where
  "virXPathNode_child child node =
     (case xml_child_elements child node of [] \<Rightarrow> None | c # _ \<Rightarrow> Some c)"

text \<open>
  \<^verbatim>\<open>virXPathNodeSet("./disks/*", ctxt, &nodes)\<close>: the expression evaluates to a node set,
  so the helper never returns -1 here.
\<close>

definition virXPathNodeSet_disks :: "xml_node \<Rightarrow> xml_node list" where
  "virXPathNodeSet_disks node =
     concat (map (\<lambda>d. filter xml_is_element (xml_children d)) (xml_child_elements ''disks'' node))"

text \<open>
  Modelled from the spec: the macro \<^verbatim>\<open>VIR_ENUM_IMPL\<close> (virenum.h) is outside the sources.
  It defines \<^verbatim>\<open>XTypeFromString\<close> as the position of the string in the table given to the
  macro, and -1 for a string that is not in the table; the spec lists the mode values
  default, push and pull in the order of the table.
\<close>

fun virEnumFromString_at :: "nat \<Rightarrow> string list \<Rightarrow> string \<Rightarrow> c_int" where
  "virEnumFromString_at i [] s = - 1"
| "virEnumFromString_at i (t # ts) s = (if t = s then of_nat i else virEnumFromString_at (Suc i) ts s)"

definition virEnumFromString :: "string list \<Rightarrow> string \<Rightarrow> c_int" where
  "virEnumFromString types s = virEnumFromString_at 0 types s"

definition virDomainBackupTypeFromString :: "string \<Rightarrow> c_int" where
  "virDomainBackupTypeFromString = virEnumFromString [''default'', ''push'', ''pull'']"

definition VIR_DOMAIN_BACKUP_TYPE_DEFAULT :: c_int where
  "VIR_DOMAIN_BACKUP_TYPE_DEFAULT = 0"

definition VIR_DOMAIN_BACKUP_TYPE_PUSH :: c_int where
  "VIR_DOMAIN_BACKUP_TYPE_PUSH = 1"

definition VIR_DOMAIN_BACKUP_TYPE_PULL :: c_int where
  "VIR_DOMAIN_BACKUP_TYPE_PULL = 2"

definition virDomainBackupDiskStateTypeFromString :: "string \<Rightarrow> c_int" where
  "virDomainBackupDiskStateTypeFromString =
     virEnumFromString [[], ''running'', ''complete'', ''failed'', ''cancelling'', ''cancelled'']"

definition virDomainBackupDiskBackupModeTypeFromString :: "string \<Rightarrow> c_int" where
  "virDomainBackupDiskBackupModeTypeFromString = virEnumFromString [[], ''full'', ''incremental'']"

definition VIR_DOMAIN_BACKUP_DISK_BACKUP_MODE_DEFAULT :: c_int where
  "VIR_DOMAIN_BACKUP_DISK_BACKUP_MODE_DEFAULT = 0"

definition VIR_DOMAIN_BACKUP_DISK_BACKUP_MODE_FULL :: c_int where
  "VIR_DOMAIN_BACKUP_DISK_BACKUP_MODE_FULL = 1"

definition VIR_DOMAIN_BACKUP_DISK_BACKUP_MODE_INCREMENTAL :: c_int where
  "VIR_DOMAIN_BACKUP_DISK_BACKUP_MODE_INCREMENTAL = 2"

text \<open>
  Modelled from the spec: the table of \<^verbatim>\<open>virTristateBool\<close> (virenum.c) is outside the
  sources; the spec gives the attribute values \<^verbatim>\<open>yes\<close> and \<^verbatim>\<open>no\<close>, and the first
  entry of the table stands for the absent value.
\<close>

definition virTristateBoolTypeFromString :: "string \<Rightarrow> c_int" where
  "virTristateBoolTypeFromString = virEnumFromString [''default'', ''yes'', ''no'']"

definition VIR_TRISTATE_BOOL_ABSENT :: c_int where
  "VIR_TRISTATE_BOOL_ABSENT = 0"

definition VIR_TRISTATE_BOOL_YES :: c_int where
  "VIR_TRISTATE_BOOL_YES = 1"

definition VIR_TRISTATE_BOOL_NO :: c_int where
  "VIR_TRISTATE_BOOL_NO = 2"

subsection \<open>The backup definition\<close>

datatype virStorageNetHostTransport =
    VIR_STORAGE_NET_HOST_TRANS_TCP
  | VIR_STORAGE_NET_HOST_TRANS_UNIX
  | VIR_STORAGE_NET_HOST_TRANS_RDMA
  | VIR_STORAGE_NET_HOST_TRANS_LAST

record virStorageNetHostDef =
  host_name :: "string option"
  host_port :: c_uint
  host_transport :: virStorageNetHostTransport
  host_socket :: "string option"

text \<open>The enum fields hold the \<^verbatim>\<open>int\<close> that the parser stores in them.\<close>

record virDomainBackupDiskDef =
  bd_name :: "string option"
  bd_backup :: c_int
  bd_backupmode :: c_int
  bd_incremental :: "string option"
  bd_exportname :: "string option"
  bd_exportbitmap :: "string option"
  bd_store :: "virStorageSource option"
  bd_state :: c_int

record virDomainBackupDef =
  backup_type :: c_int
  def_incremental :: "string option"
  server :: "virStorageNetHostDef option"
  tls :: c_int
  bdisks :: "virDomainBackupDiskDef list"
  tlsAlias :: "string option"
  tlsSecretAlias :: "string option"

text \<open>An element of an array that \<^verbatim>\<open>g_new0\<close> or \<^verbatim>\<open>VIR_EXPAND_N\<close> has zeroed.\<close>

definition zeroed_backup_disk :: virDomainBackupDiskDef where
  "zeroed_backup_disk =
     \<lparr>bd_name = None, bd_backup = 0, bd_backupmode = 0, bd_incremental = None,
      bd_exportname = None, bd_exportbitmap = None, bd_store = None, bd_state = 0\<rparr>"

text \<open>\<^verbatim>\<open>virStorageSourceNew()\<close>: a zeroed object.\<close>

definition virStorageSourceNew :: virStorageSource where
  "virStorageSourceNew =
     \<lparr>src_type = VIR_STORAGE_TYPE_NONE, src_path = None, src_readonly = False,
      src_format = 0, src_id = 0\<rparr>"

datatype backup_error =
    ErrMissingDiskName
  | ErrInvalidBackupState
  | ErrInvalidBackupMode
  | ErrDiskStateWrongOrMissing
  | ErrStorageSourceParse
  | ErrUnsupportedDiskBackupType
  | ErrUnknownBackupMode
  | ErrServerRequiresPull
  | ErrParseHost
  | ErrTransportRdma
  | ErrSocketNotAbsolute
  | ErrUnknownTls
  | ErrNotDomainbackup
  | ErrSchema
  | ErrNullPointer
  | ErrNoMedia
  | ErrRefuseToGenerateFileName
  | ErrDomainWithoutDisks
  | ErrNoDiskNamed
  | ErrDiskSpecifiedTwice
  | ErrIncrementalRequired
  | ErrAllocation

text \<open>
  The functions and constants that backup\_conf.c uses and that live in other files
  (domain\_conf.c, storage\_source.c, virfile.c) are parameters of the model.
  \<open>virDomainStorageSourceParse\<close> returns the storage source as the call leaves it, or
  \<open>None\<close> for a negative return value; \<open>schema_validates\<close> stands for finding the schema
  with \<^verbatim>\<open>virFileFindResource\<close> and \<^verbatim>\<open>virXMLValidateAgainstSchema\<close> accepting the document.
\<close>

record backup_collaborators =
  virDomainStorageNetworkParseHost :: "xml_node \<Rightarrow> virStorageNetHostDef option"
  virDomainStorageSourceParseBase ::
    "string option \<Rightarrow> string option \<Rightarrow> string option \<Rightarrow> virStorageSource option"
  virDomainStorageSourceParse :: "xml_node \<Rightarrow> virStorageSource \<Rightarrow> bool \<Rightarrow> virStorageSource option"
  schema_validates :: "xml_node \<Rightarrow> bool"
  virStorageSourceIsEmpty :: "virStorageSource \<Rightarrow> bool"
  virStorageSourceGetActualType :: "virStorageSource \<Rightarrow> virStorageType"
  VIR_DOMAIN_BACKUP_PARSE_INTERNAL :: c_uint

subsection \<open>Parsing\<close>

definition virDomainBackupDiskDefParseXML ::
  "backup_collaborators \<Rightarrow> xml_node \<Rightarrow> bool \<Rightarrow> c_uint \<Rightarrow> backup_error + virDomainBackupDiskDef" where
  "virDomainBackupDiskDefParseXML B node push flags =
     (let internal = (flags AND VIR_DOMAIN_BACKUP_PARSE_INTERNAL B \<noteq> 0) in
      case virXMLPropString node ''name'' of
        None \<Rightarrow> Inl ErrMissingDiskName
      | Some name \<Rightarrow>
      (let d0 = zeroed_backup_disk\<lparr>bd_name := Some name, bd_backup := VIR_TRISTATE_BOOL_YES\<rparr>;
           backup_attr = virXMLPropString node ''backup''
       in
       if backup_attr \<noteq> None \<and> sint (virTristateBoolTypeFromString (the backup_attr)) \<le> 0 then
         Inl ErrInvalidBackupState
       else
       (let d1 = (case backup_attr of
                    None \<Rightarrow> d0
                  | Some b \<Rightarrow> d0\<lparr>bd_backup := virTristateBoolTypeFromString b\<rparr>)
        in
        if bd_backup d1 = VIR_TRISTATE_BOOL_NO then Inr d1
        else
        (let d2 = (if \<not> push
                   then d1\<lparr>bd_exportname := virXMLPropString node ''exportname'',
                           bd_exportbitmap := virXMLPropString node ''exportbitmap''\<rparr>
                   else d1);
             backupmode = virXMLPropString node ''backupmode''
         in
         if backupmode \<noteq> None
            \<and> sint (virDomainBackupDiskBackupModeTypeFromString (the backupmode)) < 0 then
           Inl ErrInvalidBackupMode
         else
         (let d3 = (case backupmode of
                      None \<Rightarrow> d2
                    | Some m \<Rightarrow>
                        d2\<lparr>bd_backupmode := virDomainBackupDiskBackupModeTypeFromString m\<rparr>);
              d4 = d3\<lparr>bd_incremental := virXMLPropString node ''incremental''\<rparr>;
              state = virXMLPropString node ''state''
          in
          if internal \<and> (state = None
                \<or> sint (virDomainBackupDiskStateTypeFromString (the state)) < 0) then
            Inl ErrDiskStateWrongOrMissing
          else
          (let d5 = (if internal
                     then d4\<lparr>bd_state := virDomainBackupDiskStateTypeFromString (the state)\<rparr>
                     else d4);
               type = virXMLPropString node ''type'';
               format = virXPathString_child_attr ''driver'' ''type'' node;
               idx = (if internal then virXMLPropString node ''index'' else None)
           in
           case virDomainStorageSourceParseBase B type format idx of
             None \<Rightarrow> Inl ErrStorageSourceParse
           | Some store \<Rightarrow>
               if src_type store \<noteq> VIR_STORAGE_TYPE_FILE
                  \<and> src_type store \<noteq> VIR_STORAGE_TYPE_BLOCK then
                 Inl ErrUnsupportedDiskBackupType
               else
                 (case virXPathNode_child (if push then ''target'' else ''scratch'') node of
                    None \<Rightarrow> Inr (d5\<lparr>bd_store := Some store\<rparr>)
                  | Some srcNode \<Rightarrow>
                      (case virDomainStorageSourceParse B srcNode store internal of
                         None \<Rightarrow> Inl ErrStorageSourceParse
                       | Some store' \<Rightarrow> Inr (d5\<lparr>bd_store := Some store'\<rparr>)))))))))"

text \<open>
  The \<^verbatim>\<open><server>\<close> block of \<^verbatim>\<open>virDomainBackupDefParse\<close>: the server and the tls value.
  \<^verbatim>\<open>def->server->socket[0]\<close> with a NULL socket is reported as \<open>ErrNullPointer\<close>.
\<close>

definition backup_parse_server ::
  "backup_collaborators \<Rightarrow> xml_node \<Rightarrow> c_int
     \<Rightarrow> backup_error + (virStorageNetHostDef option \<times> c_int)" where
  "backup_parse_server B ctxt_node type =
     (case virXPathNode_child ''server'' ctxt_node of
        None \<Rightarrow> Inr (None, VIR_TRISTATE_BOOL_ABSENT)
      | Some node \<Rightarrow>
          if type \<noteq> VIR_DOMAIN_BACKUP_TYPE_PULL then Inl ErrServerRequiresPull
          else
            (case virDomainStorageNetworkParseHost B node of
               None \<Rightarrow> Inl ErrParseHost
             | Some srv \<Rightarrow>
                 if host_transport srv = VIR_STORAGE_NET_HOST_TRANS_RDMA then Inl ErrTransportRdma
                 else if host_transport srv = VIR_STORAGE_NET_HOST_TRANS_UNIX
                         \<and> host_socket srv = None then Inl ErrNullPointer
                 else if host_transport srv = VIR_STORAGE_NET_HOST_TRANS_UNIX
                         \<and> take 1 (the (host_socket srv)) \<noteq> ''/'' then Inl ErrSocketNotAbsolute
                 else
                   (case virXMLPropString node ''tls'' of
                      None \<Rightarrow> Inr (Some srv, VIR_TRISTATE_BOOL_ABSENT)
                    | Some t \<Rightarrow>
                        if sint (virTristateBoolTypeFromString t) \<le> 0 then Inl ErrUnknownTls
                        else Inr (Some srv, virTristateBoolTypeFromString t))))"

text \<open>The loop over the nodes of \<^verbatim>\<open>./disks/*\<close>.\<close>

fun backup_parse_disks ::
  "backup_collaborators \<Rightarrow> bool \<Rightarrow> c_uint \<Rightarrow> xml_node list
     \<Rightarrow> backup_error + virDomainBackupDiskDef list" where
  "backup_parse_disks B push flags [] = Inr []"
| "backup_parse_disks B push flags (n # ns) =
     (case virDomainBackupDiskDefParseXML B n push flags of
        Inl e \<Rightarrow> Inl e
      | Inr d \<Rightarrow>
          (case backup_parse_disks B push flags ns of
             Inl e \<Rightarrow> Inl e
           | Inr ds \<Rightarrow> Inr (d # ds)))"

text \<open>
  \<^verbatim>\<open>virDomainBackupDefParsePrivate\<close>: the two XPath strings
  \<^verbatim>\<open>./privateData/objects/secret[@type='tlskey']/@alias\<close> and
  \<^verbatim>\<open>./privateData/objects/TLSx509/@alias\<close>.
\<close>

definition backup_private_objects :: "xml_node \<Rightarrow> xml_node list" where
  "backup_private_objects node =
     concat (map (xml_child_elements ''objects'') (xml_child_elements ''privateData'' node))"

definition virDomainBackupDefParsePrivate ::
  "backup_collaborators \<Rightarrow> virDomainBackupDef \<Rightarrow> xml_node \<Rightarrow> c_uint \<Rightarrow> virDomainBackupDef" where
  "virDomainBackupDefParsePrivate B def node flags =
     (if flags AND VIR_DOMAIN_BACKUP_PARSE_INTERNAL B = 0 then def
      else def\<lparr>
        tlsSecretAlias := nonempty_string
          (List.map_filter (\<lambda>c. virXMLPropString c ''alias'')
             (filter (\<lambda>c. virXMLPropString c ''type'' = Some ''tlskey'')
                (concat (map (xml_child_elements ''secret'') (backup_private_objects node))))),
        tlsAlias := nonempty_string
          (List.map_filter (\<lambda>c. virXMLPropString c ''alias'')
             (concat (map (xml_child_elements ''TLSx509'') (backup_private_objects node))))\<rparr>)"

definition virDomainBackupDefParse ::
  "backup_collaborators \<Rightarrow> xml_node \<Rightarrow> c_uint \<Rightarrow> backup_error + virDomainBackupDef" where
  "virDomainBackupDefParse B ctxt_node flags =
     (let mode = virXMLPropString ctxt_node ''mode'' in
      if mode \<noteq> None \<and> sint (virDomainBackupTypeFromString (the mode)) \<le> 0 then
        Inl ErrUnknownBackupMode
      else
      (let type = (case mode of
                     None \<Rightarrow> VIR_DOMAIN_BACKUP_TYPE_PUSH
                   | Some m \<Rightarrow> virDomainBackupTypeFromString m);
           push = (type = VIR_DOMAIN_BACKUP_TYPE_PUSH);
           incremental = virXPathString_child ''incremental'' ctxt_node
       in
       case backup_parse_server B ctxt_node type of
         Inl e \<Rightarrow> Inl e
       | Inr (srv, tlsval) \<Rightarrow>
           (case backup_parse_disks B push flags (virXPathNodeSet_disks ctxt_node) of
              Inl e \<Rightarrow> Inl e
            | Inr ds \<Rightarrow>
                Inr (virDomainBackupDefParsePrivate B
                       \<lparr>backup_type = type, def_incremental = incremental, server = srv,
                        tls = tlsval, bdisks = ds, tlsAlias = None, tlsSecretAlias = None\<rparr>
                       ctxt_node flags))))"

definition virDomainBackupDefParseNode ::
  "backup_collaborators \<Rightarrow> xml_node \<Rightarrow> c_uint \<Rightarrow> backup_error + virDomainBackupDef" where
  "virDomainBackupDefParseNode B root flags =
     (if \<not> virXMLNodeNameEqual root ''domainbackup'' then Inl ErrNotDomainbackup
      else if flags AND VIR_DOMAIN_BACKUP_PARSE_INTERNAL B = 0 \<and> \<not> schema_validates B root then
        Inl ErrSchema
      else virDomainBackupDefParse B root flags)"

subsection \<open>Aligning the disks of a backup with the disks of the domain\<close>

text \<open>\<^verbatim>\<open>%s\<close> of printf prints a NULL string as \<^verbatim>\<open>(null)\<close>.\<close>

definition fmt_s :: "string option \<Rightarrow> string" where
  "fmt_s s = (case s of None \<Rightarrow> ''(null)'' | Some t \<Rightarrow> t)"

definition virDomainBackupDefAssignStore ::
  "backup_collaborators \<Rightarrow> virDomainBackupDiskDef \<Rightarrow> virStorageSource \<Rightarrow> string
     \<Rightarrow> backup_error + virDomainBackupDiskDef" where
  "virDomainBackupDefAssignStore B disk source suffix =
     (if virStorageSourceIsEmpty B source then
        (if bd_store disk \<noteq> None then Inl ErrNoMedia else Inr disk)
      else if bd_store disk = None then
        (if virStorageSourceGetActualType B source = VIR_STORAGE_TYPE_FILE then
           Inr (disk\<lparr>bd_store := Some (virStorageSourceNew
                  \<lparr>src_type := VIR_STORAGE_TYPE_FILE,
                   src_path := Some (fmt_s (src_path source) @ ''.'' @ suffix)\<rparr>)\<rparr>)
         else Inl ErrRefuseToGenerateFileName)
      else Inr disk)"

text \<open>
  Modelled from the spec: \<^verbatim>\<open>virDomainDiskByTarget\<close> (domain\_conf.c) is outside the
  sources; "each referenced disk must exist in the domain": the first disk of the domain
  whose target name is the given one.
\<close>

definition virDomainDiskByTarget :: "virDomainDef \<Rightarrow> string \<Rightarrow> virDomainDiskDef option" where
  "virDomainDiskByTarget domdef name = find (\<lambda>d. dst d = name) (disks domdef)"

text \<open>
  The first loop of \<^verbatim>\<open>virDomainBackupAlignDisks\<close>, over the requested disks. The state is
  the backup definition and the keys of the hash table; an error carries the definition
  as the early return leaves it. \<^verbatim>\<open>virHashAddEntry\<close> fails for a key that is in the table.
\<close>

definition align_requested_body ::
  "backup_collaborators \<Rightarrow> virDomainDef \<Rightarrow> string \<Rightarrow> nat
     \<Rightarrow> virDomainBackupDef \<times> string list
     \<Rightarrow> (backup_error \<times> virDomainBackupDef) + (virDomainBackupDef \<times> string list)" where
  "align_requested_body B domdef suffix i st =
     (let def = fst st; keys = snd st; backupdisk = bdisks def ! i in
      case bd_name backupdisk of
        None \<Rightarrow> Inl (ErrNullPointer, def)
      | Some name \<Rightarrow>
          (case virDomainDiskByTarget domdef name of
             None \<Rightarrow> Inl (ErrNoDiskNamed, def)
           | Some domdisk \<Rightarrow>
               if name \<in> set keys then Inl (ErrDiskSpecifiedTwice, def)
               else if bd_backupmode backupdisk = VIR_DOMAIN_BACKUP_DISK_BACKUP_MODE_INCREMENTAL
                       \<and> bd_incremental backupdisk = None \<and> def_incremental def = None then
                 Inl (ErrIncrementalRequired, def)
               else if bd_backup backupdisk = VIR_TRISTATE_BOOL_YES then
                 (case virDomainBackupDefAssignStore B backupdisk (src domdisk) suffix of
                    Inl e \<Rightarrow> Inl (e, def)
                  | Inr b \<Rightarrow> Inr (def\<lparr>bdisks := (bdisks def)[i := b]\<rparr>, name # keys))
               else Inr (def, name # keys)))"

text \<open>
  The second loop, over the disks of the domain. The state is the backup definition and the
  local \<^verbatim>\<open>ndisks\<close>, the index of the next directive to fill.
\<close>

definition align_backfill_body ::
  "backup_collaborators \<Rightarrow> virDomainDef \<Rightarrow> string \<Rightarrow> string list \<Rightarrow> bool \<Rightarrow> nat
     \<Rightarrow> virDomainBackupDef \<times> nat
     \<Rightarrow> (backup_error \<times> virDomainBackupDef) + (virDomainBackupDef \<times> nat)" where
  "align_backfill_body B domdef suffix keys backup_all i st =
     (let def = fst st; ndisks = snd st; domdisk = disks domdef ! i in
      if dst domdisk \<in> set keys then Inr (def, ndisks)
      else
        (let named = (bdisks def ! ndisks)\<lparr>bd_name := Some (dst domdisk)\<rparr> in
         if backup_all \<and> \<not> virStorageSourceIsEmpty B (src domdisk)
            \<and> \<not> src_readonly (src domdisk) then
           (let enabled = named\<lparr>bd_backup := VIR_TRISTATE_BOOL_YES\<rparr> in
            case virDomainBackupDefAssignStore B enabled (src domdisk) suffix of
              Inl e \<Rightarrow> Inl (e, def\<lparr>bdisks := (bdisks def)[ndisks := enabled]\<rparr>)
            | Inr b \<Rightarrow> Inr (def\<lparr>bdisks := (bdisks def)[ndisks := b]\<rparr>, Suc ndisks))
         else
           Inr (def\<lparr>bdisks := (bdisks def)[ndisks := named\<lparr>bd_backup := VIR_TRISTATE_BOOL_NO\<rparr>]\<rparr>,
                Suc ndisks)))"

text \<open>The body of the third loop: the backup mode and the checkpoint name of a directive.\<close>

definition align_backupmode :: "string option \<Rightarrow> virDomainBackupDiskDef \<Rightarrow> virDomainBackupDiskDef" where
  "align_backupmode incremental backupdisk =
     (let b1 = (if bd_backupmode backupdisk = VIR_DOMAIN_BACKUP_DISK_BACKUP_MODE_DEFAULT then
                  (if incremental \<noteq> None \<or> bd_incremental backupdisk \<noteq> None
                   then backupdisk\<lparr>bd_backupmode := VIR_DOMAIN_BACKUP_DISK_BACKUP_MODE_INCREMENTAL\<rparr>
                   else backupdisk\<lparr>bd_backupmode := VIR_DOMAIN_BACKUP_DISK_BACKUP_MODE_FULL\<rparr>)
                else backupdisk)
      in if bd_incremental b1 = None
            \<and> bd_backupmode b1 = VIR_DOMAIN_BACKUP_DISK_BACKUP_MODE_INCREMENTAL
         then b1\<lparr>bd_incremental := incremental\<rparr> else b1)"

text \<open>
  \<^verbatim>\<open>VIR_EXPAND_N(def->disks, def->ndisks, dom->ndisks - def->ndisks)\<close> appends zeroed
  elements. The first loop lets only distinct names of domain disks pass, so the
  difference of the two \<^verbatim>\<open>size_t\<close> is not negative; were it to wrap around, the
  allocation would abort, which the model reports as \<open>ErrAllocation\<close>.
\<close>

definition virDomainBackupAlignDisks ::
  "backup_collaborators \<Rightarrow> virDomainBackupDef \<Rightarrow> virDomainDef \<Rightarrow> string
     \<Rightarrow> (backup_error \<times> virDomainBackupDef) + virDomainBackupDef" where
  "virDomainBackupAlignDisks B def domdef suffix =
     (if disks domdef = [] then Inl (ErrDomainWithoutDisks, def)
      else
        (case for_loop (length (bdisks def)) 0 (align_requested_body B domdef suffix) (def, []) of
           Inl e \<Rightarrow> Inl e
         | Inr (def1, keys) \<Rightarrow>
             (let backup_all = (length (bdisks def1) = 0);
                  ndisks = length (bdisks def1)
              in
              if length (disks domdef) < length (bdisks def1) then Inl (ErrAllocation, def1)
              else
                (let def2 = def1\<lparr>bdisks := bdisks def1
                              @ replicate (length (disks domdef) - length (bdisks def1))
                                  zeroed_backup_disk\<rparr>
                 in
                 case for_loop (length (disks domdef)) 0
                        (align_backfill_body B domdef suffix keys backup_all) (def2, ndisks) of
                   Inl e \<Rightarrow> Inl e
                 | Inr (def3, n) \<Rightarrow>
                     Inr (def3\<lparr>bdisks := map (align_backupmode (def_incremental def3))
                                           (bdisks def3)\<rparr>)))))"

section \<open>The vocabulary of the properties\<close>

subsection \<open>Scavenging, in the words of the specification\<close>

text \<open>
  The numeric suffixes seen for a prefix among the aliases of a device list: the indices
  that the scanner returns and that the scanning loops do not skip.
\<close>

definition seen_indices :: "string \<Rightarrow> virDomainDeviceInfo list \<Rightarrow> int list" where
  "seen_indices prefix infos =
     filter (\<lambda>k. 0 \<le> k) (map (\<lambda>i. sint (qemuDomainDeviceAliasIndex i prefix)) infos)"

text \<open>"The maximum seen plus one", and 0 when nothing was seen.\<close>

definition highest_plus_one :: "int list \<Rightarrow> int" where
  "highest_plus_one ks = (if ks = [] then 0 else Max (set ks) + 1)"

text \<open>The largest value of an \<^verbatim>\<open>int\<close>; \<^verbatim>\<open>INT_MAX + 1\<close> overflows.\<close>

definition INT_MAX :: int where
  "INT_MAX = 2147483647"

subsection \<open>The aliases of a domain\<close>

definition has_alias :: "'a virDomainDeviceDef_scheme \<Rightarrow> bool" where
  "has_alias dev = (dev_alias (info dev) \<noteq> None)"

text \<open>The alias of a host device, read through its info pointer.\<close>

definition hostdev_alias :: "virDomainDef \<Rightarrow> virDomainHostdevDef \<Rightarrow> string option" where
  "hostdev_alias def h = (case hostdev_info def h of None \<Rightarrow> None | Some i \<Rightarrow> dev_alias i)"

definition option_list :: "'a option \<Rightarrow> 'a list" where
  "option_list x = (case x of None \<Rightarrow> [] | Some v \<Rightarrow> [v])"

definition aliases_of :: "'a virDomainDeviceDef_scheme list \<Rightarrow> string option list" where
  "aliases_of devs = map (\<lambda>dev. dev_alias (info dev)) devs"

text \<open>The alias of every device of the domain, list by list, in the order of the pass.\<close>

definition device_aliases :: "virDomainDef \<Rightarrow> string option list list" where
  "device_aliases def =
     [aliases_of (disks def), aliases_of (nets def), aliases_of (fss def),
      aliases_of (sounds def), map (hostdev_alias def) (hostdevs def),
      aliases_of (redirdevs def), aliases_of (videos def), aliases_of (controllers def),
      aliases_of (inputs def), aliases_of (parallels def), aliases_of (serials def),
      aliases_of (channels def), aliases_of (consoles def), aliases_of (hubs def),
      aliases_of (shmems def), aliases_of (smartcards def),
      aliases_of (option_list (watchdog def)), aliases_of (option_list (memballoon def)),
      aliases_of (rngs def), aliases_of (tpms def), aliases_of (mems def),
      aliases_of (option_list (vsock def))]"

text \<open>An alias that was set is still the same alias.\<close>

definition alias_kept :: "string option \<Rightarrow> string option \<Rightarrow> bool" where
  "alias_kept before after = (case before of None \<Rightarrow> True | Some a \<Rightarrow> after = Some a)"

definition aliases_kept :: "string option list list \<Rightarrow> string option list list \<Rightarrow> bool" where
  "aliases_kept before after = list_all2 (list_all2 alias_kept) before after"

text \<open>
  Every device of the domain has an alias, a memory balloon of model none apart
  (the pass does not call its assigner).
\<close>

definition all_assigned :: "virDomainDef \<Rightarrow> bool" where
  "all_assigned def =
     (list_all has_alias (disks def) \<and> list_all has_alias (nets def)
      \<and> list_all has_alias (fss def) \<and> list_all has_alias (sounds def)
      \<and> list_all (\<lambda>h. hostdev_alias def h \<noteq> None) (hostdevs def)
      \<and> list_all has_alias (redirdevs def) \<and> list_all has_alias (videos def)
      \<and> list_all has_alias (controllers def) \<and> list_all has_alias (inputs def)
      \<and> list_all has_alias (parallels def) \<and> list_all has_alias (serials def)
      \<and> list_all has_alias (channels def) \<and> list_all has_alias (consoles def)
      \<and> list_all has_alias (hubs def) \<and> list_all has_alias (shmems def)
      \<and> list_all has_alias (smartcards def)
      \<and> list_all has_alias (option_list (watchdog def))
      \<and> list_all (\<lambda>b. balloon_model b = VIR_DOMAIN_MEMBALLOON_MODEL_NONE \<or> has_alias b)
            (option_list (memballoon def))
      \<and> list_all has_alias (rngs def) \<and> list_all has_alias (tpms def)
      \<and> list_all has_alias (mems def)
      \<and> list_all has_alias (option_list (vsock def)))"

subsection \<open>What one phase of the pass does to a device\<close>

text \<open>
  An assigner that succeeds returns the device with an alias set, and the alias it had
  when it had one.
\<close>

definition alias_assigned ::
  "'a virDomainDeviceDef_scheme \<Rightarrow> 'a virDomainDeviceDef_scheme \<Rightarrow> bool" where
  "alias_assigned x y = (\<exists>a. y = set_alias a x \<and> alias_kept (dev_alias (info x)) (Some a))"

text \<open>A disk gets its alias and then, from it, its QOM name.\<close>

definition disk_assigned ::
  "qemu_collaborators \<Rightarrow> virQEMUCaps \<Rightarrow> virDomainDiskDef \<Rightarrow> virDomainDiskDef \<Rightarrow> bool" where
  "disk_assigned X qemuCaps x y =
     (\<exists>z. alias_assigned x z \<and> y = disk_assign_qomName X qemuCaps z)"

text \<open>A disk on which the disk assigner changes nothing any more.\<close>

definition disk_settled :: "qemu_collaborators \<Rightarrow> virQEMUCaps \<Rightarrow> virDomainDiskDef \<Rightarrow> bool" where
  "disk_settled X qemuCaps y = (has_alias y \<and> disk_assign_qomName X qemuCaps y = y)"

text \<open>
  The host-device phase writes through the info pointers: a network interface is left
  alone or gets an alias, a host device with its own info is left alone or gets an alias
  where it had none.
\<close>

definition alias_progress ::
  "'a virDomainDeviceDef_scheme \<Rightarrow> 'a virDomainDeviceDef_scheme \<Rightarrow> bool" where
  "alias_progress x y = (y = x \<or> alias_assigned x y)"

definition hostdev_progress :: "virDomainHostdevDef \<Rightarrow> virDomainHostdevDef \<Rightarrow> bool" where
  "hostdev_progress h h' =
     (h' = h \<or> (\<exists>i a. info_ptr h = OwnInfo i \<and> dev_alias i = None
                   \<and> h' = h\<lparr>info_ptr := OwnInfo (i\<lparr>dev_alias := Some a\<rparr>)\<rparr>))"

text \<open>The memory balloon is skipped when its model is none.\<close>

definition balloon_assigned :: "virDomainMemballoonDef \<Rightarrow> virDomainMemballoonDef \<Rightarrow> bool" where
  "balloon_assigned x y =
     (if balloon_model x = VIR_DOMAIN_MEMBALLOON_MODEL_NONE then y = x else alias_assigned x y)"

subsection \<open>The aliases that the pass generates from a prefix and a counter\<close>

text \<open>The aliases of the devices of a list that have one.\<close>

definition names_of :: "'a virDomainDeviceDef_scheme list \<Rightarrow> string list" where
  "names_of devs = List.map_filter (\<lambda>dev. dev_alias (info dev)) devs"

text \<open>
  The alias of a host device that has an info of its own; a host device whose info is the
  info of a network interface has its alias there.
\<close>

definition own_alias :: "virDomainHostdevDef \<Rightarrow> string option" where
  "own_alias h = (case info_ptr h of OwnInfo i \<Rightarrow> dev_alias i | NetInfo j \<Rightarrow> None)"

definition own_names :: "virDomainHostdevDef list \<Rightarrow> string list" where
  "own_names hs = List.map_filter own_alias hs"




text \<open>
  The prefixes from which the assigners of these devices make an alias. An alias is
  numbered when the scanner of the code, \<^verbatim>\<open>qemuDomainDeviceAliasIndex\<close>, reads it as one of
  these prefixes followed by a number.
\<close>

definition alias_prefixes :: "string list" where
  "alias_prefixes =
     [''net'', ''hostdev'', ''fs'', ''sound'', ''redir'', ''video'', ''input'', ''parallel'',
      ''serial'', ''channel'', ''console'', ''hub'', ''shmem'', ''smartcard'', ''watchdog'',
      ''balloon'', ''rng'', ''tpm'', ''vsock'']"




definition index_char :: "char \<Rightarrow> bool" where
  "index_char c = (c_isdigit c \<or> c = CHR ''-'')"


definition letters :: "string \<Rightarrow> bool" where
  "letters p = list_all (\<lambda>c. \<not> index_char c) p"

text \<open>
  The aliases that a phase gives to the devices of a list that had none: the list before
  the phase is compared with the list after it, position by position.
\<close>

definition news_by :: "('a \<Rightarrow> string option) \<Rightarrow> 'a list \<Rightarrow> 'a list \<Rightarrow> string list" where
  "news_by g xs ys =
     concat (map (\<lambda>(x, y). if g x = None then (case g y of None \<Rightarrow> [] | Some b \<Rightarrow> [b]) else [])
               (zip xs ys))"



subsection \<open>What the host-device loop does to a host device\<close>



subsection \<open>Backfilling, in the words of the specification\<close>

text \<open>
  The directive for a domain disk when the disk list of the backup is empty: disabled for a
  disk that is read-only or has no media, enabled otherwise, with the target path derived
  from the path of the disk and the suffix.
\<close>

definition backfilled_directive ::
  "backup_collaborators \<Rightarrow> string \<Rightarrow> virDomainDiskDef \<Rightarrow> virDomainBackupDiskDef" where
  "backfilled_directive B suffix domdisk =
     (if virStorageSourceIsEmpty B (src domdisk) \<or> src_readonly (src domdisk) then
        zeroed_backup_disk\<lparr>bd_name := Some (dst domdisk), bd_backup := VIR_TRISTATE_BOOL_NO\<rparr>
      else
        zeroed_backup_disk
          \<lparr>bd_name := Some (dst domdisk), bd_backup := VIR_TRISTATE_BOOL_YES,
           bd_store := Some (virStorageSourceNew
             \<lparr>src_type := VIR_STORAGE_TYPE_FILE,
              src_path := Some (fmt_s (src_path (src domdisk)) @ ''.'' @ suffix)\<rparr>)\<rparr>)"

text \<open>The state of the second loop before iteration \<open>j\<close>, when the disk list was empty.\<close>

definition backfill_state ::
  "backup_collaborators \<Rightarrow> string \<Rightarrow> virDomainBackupDef \<Rightarrow> virDomainDiskDef list \<Rightarrow> nat
     \<Rightarrow> virDomainBackupDef \<times> nat" where
  "backfill_state B suffix def ds j =
     (def\<lparr>bdisks := map (backfilled_directive B suffix) (take j ds)
                      @ replicate (length ds - j) zeroed_backup_disk\<rparr>, j)"

text \<open>A domain disk for which no file name has to be generated, or whose storage is a plain file.\<close>

definition plain_file_or_skipped :: "backup_collaborators \<Rightarrow> virDomainDiskDef \<Rightarrow> bool" where
  "plain_file_or_skipped B d =
     (virStorageSourceIsEmpty B (src d) \<or> src_readonly (src d)
      \<or> virStorageSourceGetActualType B (src d) = VIR_STORAGE_TYPE_FILE)"

subsection \<open>Example values\<close>

definition info_with :: "string option \<Rightarrow> virDomainDeviceInfo" where
  "info_with a =
     \<lparr>dev_alias = a, addr_type = VIR_DOMAIN_DEVICE_ADDRESS_TYPE_NONE,
      drive_controller = 0, drive_bus = 0, drive_target = 0, drive_unit = 0, dimm_slot = 0\<rparr>"

definition device_with :: "string option \<Rightarrow> virDomainDeviceDef" where
  "device_with a = \<lparr>info = info_with a\<rparr>"

definition net_with :: "string option \<Rightarrow> virDomainNetType \<Rightarrow> virDomainNetDef" where
  "net_with a t = \<lparr>info = info_with a, net_type = t\<rparr>"

definition memory_with :: "string option \<Rightarrow> virDomainMemoryModel \<Rightarrow> c_uint \<Rightarrow> virDomainMemoryDef" where
  "memory_with a m slot = \<lparr>info = (info_with a)\<lparr>dimm_slot := slot\<rparr>, mem_model = m\<rparr>"

definition balloon_with :: "string option \<Rightarrow> virDomainMemballoonModel \<Rightarrow> virDomainMemballoonDef" where
  "balloon_with a m = \<lparr>info = info_with a, balloon_model = m\<rparr>"

definition storage_with :: "virStorageType \<Rightarrow> string option \<Rightarrow> bool \<Rightarrow> virStorageSource" where
  "storage_with t p ro =
     \<lparr>src_type = t, src_path = p, src_readonly = ro, src_format = 0, src_id = 0\<rparr>"

definition disk_with :: "string option \<Rightarrow> string \<Rightarrow> virStorageSource \<Rightarrow> virDomainDiskDef" where
  "disk_with a target s =
     \<lparr>info = info_with a, bus = VIR_DOMAIN_DISK_BUS_VIRTIO, dst = target, qomName = None,
      src = s\<rparr>"

definition empty_def :: virDomainDef where
  "empty_def =
     \<lparr>disks = [], nets = [], fss = [], sounds = [], hostdevs = [], redirdevs = [],
      videos = [], controllers = [], inputs = [], parallels = [], serials = [],
      channels = [], consoles = [], hubs = [], shmems = [], smartcards = [],
      watchdog = None, memballoon = None, rngs = [], tpms = [], mems = [], vsock = None\<rparr>"

text \<open>
  One implementation of the collaborators, for the examples: the names of the enum tables
  of domain\_conf.c, a disk index read off the last letter of the target name, a domain
  whose SCSI controllers are all of model lsilogic, an i440fx machine with several PCI buses.
\<close>

definition example_collaborators :: qemu_collaborators where
  "example_collaborators =
     \<lparr>virDomainControllerTypeToString =
        (\<lambda>t. case t of
           VIR_DOMAIN_CONTROLLER_TYPE_IDE \<Rightarrow> ''ide''
         | VIR_DOMAIN_CONTROLLER_TYPE_FDC \<Rightarrow> ''fdc''
         | VIR_DOMAIN_CONTROLLER_TYPE_SCSI \<Rightarrow> ''scsi''
         | VIR_DOMAIN_CONTROLLER_TYPE_SATA \<Rightarrow> ''sata''
         | VIR_DOMAIN_CONTROLLER_TYPE_VIRTIO_SERIAL \<Rightarrow> ''virtio-serial''
         | VIR_DOMAIN_CONTROLLER_TYPE_CCID \<Rightarrow> ''ccid''
         | VIR_DOMAIN_CONTROLLER_TYPE_USB \<Rightarrow> ''usb''
         | VIR_DOMAIN_CONTROLLER_TYPE_PCI \<Rightarrow> ''pci''
         | VIR_DOMAIN_CONTROLLER_TYPE_XENBUS \<Rightarrow> ''xenbus''
         | VIR_DOMAIN_CONTROLLER_TYPE_ISA \<Rightarrow> ''isa''),
      virDomainDiskBusTypeToString =
        (\<lambda>b. case b of
           VIR_DOMAIN_DISK_BUS_IDE \<Rightarrow> ''ide''
         | VIR_DOMAIN_DISK_BUS_FDC \<Rightarrow> ''fdc''
         | VIR_DOMAIN_DISK_BUS_SCSI \<Rightarrow> ''scsi''
         | VIR_DOMAIN_DISK_BUS_VIRTIO \<Rightarrow> ''virtio''
         | VIR_DOMAIN_DISK_BUS_XEN \<Rightarrow> ''xen''
         | VIR_DOMAIN_DISK_BUS_USB \<Rightarrow> ''usb''
         | VIR_DOMAIN_DISK_BUS_UML \<Rightarrow> ''uml''
         | VIR_DOMAIN_DISK_BUS_SATA \<Rightarrow> ''sata''
         | VIR_DOMAIN_DISK_BUS_SD \<Rightarrow> ''sd''
         | VIR_DOMAIN_DISK_BUS_LAST \<Rightarrow> []),
      virDiskNameToIndex =
        (\<lambda>name. if name = [] then - 1 else of_nat (of_char (last name) - 97)),
      qemuDomainFindSCSIControllerModel = (\<lambda>def dinfo. 2),
      virDomainNetResolveActualType = net_type,
      qemuDomainHasBuiltinIDE = (\<lambda>def. True),
      qemuDomainIsQ35 = (\<lambda>def. False),
      virQEMUCapsHasPCIMultiBus = (\<lambda>caps def. True),
      virQEMUCapsGet = (\<lambda>caps flag. flag \<in> caps),
      VIR_DOMAIN_CONTROLLER_MODEL_PCIE_ROOT = 1,
      VIR_DOMAIN_CONTROLLER_MODEL_SCSI_NCR53C90 = 10,
      VIR_DOMAIN_CONTROLLER_MODEL_SCSI_LSILOGIC = 2\<rparr>"

text \<open>
  One implementation of the collaborators of backup\_conf.c: a host parser that reads the
  transport and the socket, storage sources that are empty without a path.
\<close>

definition example_backup_collaborators :: backup_collaborators where
  "example_backup_collaborators =
     \<lparr>virDomainStorageNetworkParseHost =
        (\<lambda>node. Some \<lparr>host_name = virXMLPropString node ''name'', host_port = 0,
                       host_transport =
                         (if virXMLPropString node ''transport'' = Some ''unix''
                          then VIR_STORAGE_NET_HOST_TRANS_UNIX
                          else if virXMLPropString node ''transport'' = Some ''rdma''
                          then VIR_STORAGE_NET_HOST_TRANS_RDMA
                          else VIR_STORAGE_NET_HOST_TRANS_TCP),
                       host_socket = virXMLPropString node ''socket''\<rparr>),
      virDomainStorageSourceParseBase =
        (\<lambda>type format idx.
           Some (virStorageSourceNew
                   \<lparr>src_type := (if type = Some ''block'' then VIR_STORAGE_TYPE_BLOCK
                                 else VIR_STORAGE_TYPE_FILE)\<rparr>)),
      virDomainStorageSourceParse =
        (\<lambda>node store status. Some (store\<lparr>src_path := virXMLPropString node ''file''\<rparr>)),
      schema_validates = (\<lambda>node. True),
      virStorageSourceIsEmpty =
        (\<lambda>s. src_type s = VIR_STORAGE_TYPE_NONE
              \<or> ((src_type s = VIR_STORAGE_TYPE_FILE \<or> src_type s = VIR_STORAGE_TYPE_BLOCK)
                  \<and> src_path s = None)),
      virStorageSourceGetActualType = src_type,
      VIR_DOMAIN_BACKUP_PARSE_INTERNAL = 1\<rparr>"

definition empty_backup_def :: virDomainBackupDef where
  "empty_backup_def =
     \<lparr>backup_type = VIR_DOMAIN_BACKUP_TYPE_PUSH, def_incremental = None, server = None,
      tls = VIR_TRISTATE_BOOL_ABSENT, bdisks = [], tlsAlias = None, tlsSecretAlias = None\<rparr>"

text \<open>
  A domain in which one network interface and one filesystem carry an alias already, and
  the domain the pass makes of it.
\<close>

definition example_domain :: virDomainDef where
  "example_domain =
     empty_def
       \<lparr>nets := [net_with (Some ''net7'') VIR_DOMAIN_NET_TYPE_USER,
                 net_with None VIR_DOMAIN_NET_TYPE_USER],
        fss := [device_with (Some ''shared''), device_with None],
        watchdog := Some (device_with None),
        memballoon := Some (balloon_with None VIR_DOMAIN_MEMBALLOON_MODEL_VIRTIO),
        vsock := Some (device_with None)\<rparr>"

definition example_domain_assigned :: virDomainDef where
  "example_domain_assigned =
     empty_def
       \<lparr>nets := [net_with (Some ''net7'') VIR_DOMAIN_NET_TYPE_USER,
                 net_with (Some ''net8'') VIR_DOMAIN_NET_TYPE_USER],
        fss := [device_with (Some ''shared''), device_with (Some ''fs1'')],
        watchdog := Some (device_with (Some ''watchdog0'')),
        memballoon := Some (balloon_with (Some ''balloon0'') VIR_DOMAIN_MEMBALLOON_MODEL_VIRTIO),
        vsock := Some (device_with (Some ''vsock0''))\<rparr>"








section \<open>Lemmas: printing and parsing an index\<close>

lemma digit_char_val: "d < 10 \<Longrightarrow> (of_char (digit_char d) :: nat) = 48 + d"
proof -
  assume "d < 10"
  then have "d \<in> {0,1,2,3,4,5,6,7,8,9}" by auto
  then show ?thesis by (auto simp: digit_char_def)
qed

lemma digit_char_isdigit: "d < 10 \<Longrightarrow> c_isdigit (digit_char d)"
  by (simp add: c_isdigit_def digit_char_val)


lemma isdigit_not_sign: "c_isdigit c \<Longrightarrow> c \<noteq> CHR ''-'' \<and> c \<noteq> CHR ''+''"
  by (auto simp: c_isdigit_def)

lemma string_of_nat_digits: "list_all c_isdigit (string_of_nat n)"
proof (induction n rule: string_of_nat.induct)
  case (1 n)
  show ?case
  proof (cases "n < 10")
    case True
    then show ?thesis by (simp add: string_of_nat.simps [of n] digit_char_isdigit)
  next
    case False
    with 1 show ?thesis by (simp add: string_of_nat.simps [of n] digit_char_isdigit)
  qed
qed

lemma string_of_nat_nonempty: "string_of_nat n \<noteq> []"
  by (subst string_of_nat.simps) simp

lemma nat_of_digits_snoc: "nat_of_digits (s @ [c]) = 10 * nat_of_digits s + (of_char c - 48)"
  by (simp add: nat_of_digits_def)

lemma nat_of_digits_string_of_nat: "nat_of_digits (string_of_nat n) = n"
proof (induction n rule: string_of_nat.induct)
  case (1 n)
  show ?case
  proof (cases "n < 10")
    case True
    then show ?thesis
      by (simp add: string_of_nat.simps [of n] nat_of_digits_def digit_char_val)
  next
    case False
    with 1 show ?thesis
      by (simp add: string_of_nat.simps [of n] nat_of_digits_snoc digit_char_val)
  qed
qed

lemma string_of_nat_hd: "c_isdigit (hd (string_of_nat n))"
  using string_of_nat_digits [of n] string_of_nat_nonempty [of n]
  by (cases "string_of_nat n") auto






lemma string_of_nat_inj: "string_of_nat m = string_of_nat n \<Longrightarrow> m = n"
  by (metis nat_of_digits_string_of_nat)

lemma fmt_d_inj: "fmt_d i = fmt_d j \<Longrightarrow> i = j"
proof -
  assume eq: "fmt_d i = fmt_d j"
  have nm: "\<And>n. string_of_nat n \<noteq> [] \<and> hd (string_of_nat n) \<noteq> CHR ''-''"
    using string_of_nat_hd isdigit_not_sign string_of_nat_nonempty by blast
  have ne: "\<And>n s. string_of_nat n \<noteq> CHR ''-'' # s"
  proof
    fix n s assume "string_of_nat n = CHR ''-'' # s"
    then have "hd (string_of_nat n) = CHR ''-''" by simp
    with nm show False by blast
  qed
  show ?thesis
  proof (cases "i < 0"; cases "j < 0")
    assume "i < 0" "j < 0"
    with eq have "nat (- i) = nat (- j)" by (auto simp: fmt_d_def dest: string_of_nat_inj)
    with \<open>i < 0\<close> \<open>j < 0\<close> show ?thesis by simp
  next
    assume "i < 0" "\<not> j < 0"
    with eq ne [of "nat j" "string_of_nat (nat (- i))"] show ?thesis
      by (simp add: fmt_d_def)
  next
    assume "\<not> i < 0" "j < 0"
    with eq ne [of "nat i" "string_of_nat (nat (- j))"] show ?thesis
      by (simp add: fmt_d_def)
  next
    assume "\<not> i < 0" "\<not> j < 0"
    with eq have "nat i = nat j" by (auto simp: fmt_d_def dest: string_of_nat_inj)
    with \<open>\<not> i < 0\<close> \<open>\<not> j < 0\<close> show ?thesis by simp
  qed
qed




lemma sint_add1: "sint (w :: c_int) < 2 ^ 31 - 1 \<Longrightarrow> sint (w + 1) = sint w + 1"
proof -
  assume a: "sint w < 2 ^ 31 - 1"
  have "- (2 ^ 31) \<le> sint w" using sint_ge [of w] by simp
  with a show ?thesis
    by (simp add: sint_word_ariths signed_take_bit_int_eq_self)
qed

lemma sint_slot: "uint (w :: c_uint) \<le> INT_MAX \<Longrightarrow> sint w = uint w"
proof -
  assume a: "uint w \<le> INT_MAX"
  have z: "0 \<le> uint w" by (rule uint_ge_0)
  from a have u: "uint w < 2 ^ 31" by (simp add: INT_MAX_def)
  have "- (2 ^ 31) \<le> (0 :: int)" by simp
  from this z have l: "- (2 ^ 31) \<le> uint w" by (rule order_trans)
  from l u have "signed_take_bit 31 (uint w) = uint w"
    by (simp add: signed_take_bit_int_eq_self)
  then show ?thesis by (simp add: sint_uint)
qed

lemma highest_plus_one_Nil: "highest_plus_one [] = 0"
  by (simp add: highest_plus_one_def)

lemma highest_plus_one_Cons:
  "\<forall>k\<in>set (k # ks). 0 \<le> k \<Longrightarrow> highest_plus_one (k # ks) = max (k + 1) (highest_plus_one ks)"
proof (cases ks)
  case Nil
  assume "\<forall>k\<in>set (k # ks). 0 \<le> k"
  with Nil show ?thesis by (simp add: highest_plus_one_def)
next
  case (Cons a as)
  then show ?thesis by (simp add: highest_plus_one_def max_def)
qed

lemma highest_plus_one_nonneg: "\<forall>k\<in>set ks. 0 \<le> k \<Longrightarrow> 0 \<le> highest_plus_one ks"
  by (induction ks) (auto simp: highest_plus_one_Nil highest_plus_one_Cons)


lemma seen_indices_nonneg: "\<forall>k\<in>set (seen_indices p infos). 0 \<le> k"
  by (simp add: seen_indices_def)

lemma seen_indices_Cons:
  "seen_indices p (x # xs) =
     (if 0 \<le> sint (qemuDomainDeviceAliasIndex x p)
      then sint (qemuDomainDeviceAliasIndex x p) # seen_indices p xs else seen_indices p xs)"
  by (simp add: seen_indices_def)

lemma seen_indices_append: "seen_indices p (xs @ ys) = seen_indices p xs @ seen_indices p ys"
  by (simp add: seen_indices_def)

lemma next_index_step_sint:
  assumes "0 \<le> sint acc" "sint (qemuDomainDeviceAliasIndex x p) < 2 ^ 31 - 1"
  shows "sint (next_index_step p acc x) =
           (if 0 \<le> sint (qemuDomainDeviceAliasIndex x p)
            then max (sint acc) (sint (qemuDomainDeviceAliasIndex x p) + 1) else sint acc)"
  using assms by (auto simp: next_index_step_def Let_def sint_add1)

lemma foldl_next_index_step:
  assumes "0 \<le> sint acc" "\<forall>k\<in>set (seen_indices p infos). k < 2 ^ 31 - 1"
  shows "sint (foldl (next_index_step p) acc infos)
           = max (sint acc) (highest_plus_one (seen_indices p infos))"
  using assms
proof (induction infos arbitrary: acc)
  case Nil
  then show ?case by (simp add: seen_indices_def highest_plus_one_Nil)
next
  case (Cons x xs)
  let ?t = "sint (qemuDomainDeviceAliasIndex x p)"
  show ?case
  proof (cases "0 \<le> ?t")
    case True
    with Cons.prems have lt: "?t < 2 ^ 31 - 1" by (simp add: seen_indices_Cons)
    have st: "sint (next_index_step p acc x) = max (sint acc) (?t + 1)"
      using next_index_step_sint [OF Cons.prems(1) lt] True by simp
    then have nn: "0 \<le> sint (next_index_step p acc x)" using Cons.prems(1) by simp
    have rest: "\<forall>k\<in>set (seen_indices p xs). k < 2 ^ 31 - 1"
      using Cons.prems(2) True by (simp add: seen_indices_Cons)
    have hc: "highest_plus_one (seen_indices p (x # xs))
               = max (?t + 1) (highest_plus_one (seen_indices p xs))"
      using True seen_indices_nonneg [of p xs]
      by (simp add: seen_indices_Cons highest_plus_one_Cons)
    show ?thesis
      using Cons.IH [OF nn rest] st hc by simp
  next
    case False
    then have lt: "?t < 2 ^ 31 - 1" by simp
    have st: "sint (next_index_step p acc x) = sint acc"
      using next_index_step_sint [OF Cons.prems(1) lt] False by simp
    have rest: "\<forall>k\<in>set (seen_indices p xs). k < 2 ^ 31 - 1"
      using Cons.prems(2) False by (simp add: seen_indices_Cons)
    show ?thesis
      using Cons.IH [of "next_index_step p acc x"] st rest Cons.prems(1) False
      by (simp add: seen_indices_Cons)
  qed
qed

lemma foldl_next_index_step_0:
  assumes "\<forall>k\<in>set (seen_indices p infos). k < 2 ^ 31 - 1"
  shows "sint (foldl (next_index_step p) 0 infos) = highest_plus_one (seen_indices p infos)"
  using foldl_next_index_step [of 0 p infos] assms
    highest_plus_one_nonneg [OF seen_indices_nonneg, of p infos]
  by simp

lemma max_index_step_eq: "0 \<le> sint acc \<Longrightarrow> max_index_step p acc x = next_index_step p acc x"
  by (auto simp: max_index_step_def next_index_step_def Let_def)

lemma foldl_max_index_step:
  assumes "0 \<le> sint acc" "\<forall>k\<in>set (seen_indices p infos). k < 2 ^ 31 - 1"
  shows "foldl (max_index_step p) acc infos = foldl (next_index_step p) acc infos"
  using assms
proof (induction infos arbitrary: acc)
  case Nil
  then show ?case by simp
next
  case (Cons x xs)
  have lt: "sint (qemuDomainDeviceAliasIndex x p) < 2 ^ 31 - 1"
  proof (cases "0 \<le> sint (qemuDomainDeviceAliasIndex x p)")
    case True
    with Cons.prems(2) show ?thesis by (simp add: seen_indices_Cons)
  qed simp
  have nn: "0 \<le> sint (next_index_step p acc x)"
    using next_index_step_sint [OF Cons.prems(1) lt] Cons.prems(1) by (simp split: if_splits)
  have rest: "\<forall>k\<in>set (seen_indices p xs). k < 2 ^ 31 - 1"
    using Cons.prems(2) by (simp add: seen_indices_Cons split: if_splits)
  show ?case
    using Cons.IH [OF nn rest] by (simp add: max_index_step_eq [OF Cons.prems(1)])
qed

section \<open>The properties of alias assignment\<close>

lemmas example_defs = info_with_def device_with_def net_with_def memory_with_def
  balloon_with_def storage_with_def disk_with_def empty_def_def example_collaborators_def

lemmas scan_defs = qemuDomainDeviceAliasIndex_def next_index_step_def max_index_step_def
  set_alias_def STRPREFIX_def virStrToLong_i_def c_isspace_def c_isdigit_def nat_of_digits_def
  fmt_d_def string_of_nat.simps digit_char_def Let_def

text \<open>
  Claim C4, as stated, fails at the upper end of \<^verbatim>\<open>int\<close>: with \<open>net2147483647\<close> present
  the highest suffix seen plus one is 2147483648, the increment \<^verbatim>\<open>thisidx + 1\<close> of the
  scanning loop wraps around, and the next network interface gets \<open>net-2147483648\<close>.
\<close>

theorem scavenged_index_wraps_at_int_max:
  "highest_plus_one (seen_indices ''net'' [info_with (Some ''net2147483647'')]) = 2147483648
   \<and> qemuAssignDeviceNetAlias example_collaborators
        (empty_def\<lparr>nets := [net_with (Some ''net2147483647'') VIR_DOMAIN_NET_TYPE_USER]\<rparr>)
        (net_with None VIR_DOMAIN_NET_TYPE_USER) (- 1)
       = Inr (net_with (Some ''net-2147483648'') VIR_DOMAIN_NET_TYPE_USER)"
  by (simp add: qemuAssignDeviceNetAlias_def seen_indices_def highest_plus_one_def
        example_defs scan_defs)

text \<open>
  Claim C4, amended. For every device list and prefix such that every numeric suffix seen
  among the matching aliases is below \<^verbatim>\<open>INT_MAX\<close>, the scavenged next index is the highest
  suffix seen plus one (0 when none matches), never the lowest unused value; a network
  interface assigned with index -1 gets \<open>net\<close> followed by that index.
\<close>

theorem scavenged_index_is_highest_plus_one:
  assumes "\<forall>k\<in>set (seen_indices prefix infos). k < INT_MAX"
  shows "sint (foldl (next_index_step prefix) 0 infos) = highest_plus_one (seen_indices prefix infos)
       \<and> sint (foldl (max_index_step prefix) 0 infos) = highest_plus_one (seen_indices prefix infos)
       \<and> (prefix = ''net'' \<and> infos = map info (nets def) \<and> dev_alias (info net) = None
               \<and> virDomainNetResolveActualType X net \<noteq> VIR_DOMAIN_NET_TYPE_HOSTDEV
             \<longrightarrow> qemuAssignDeviceNetAlias X def net (- 1)
                 = Inr (set_alias (''net'' @ fmt_d (highest_plus_one (seen_indices prefix infos))) net))"
proof -
  from assms have b: "\<forall>k\<in>set (seen_indices prefix infos). k < 2 ^ 31 - 1"
    by (simp add: INT_MAX_def)
  have n: "sint (foldl (next_index_step prefix) 0 infos) = highest_plus_one (seen_indices prefix infos)"
    by (rule foldl_next_index_step_0 [OF b])
  have m: "foldl (max_index_step prefix) 0 infos = foldl (next_index_step prefix) 0 infos"
    by (rule foldl_max_index_step [OF _ b]) simp
  show ?thesis
    using n m by (auto simp: qemuAssignDeviceNetAlias_def Let_def)
qed

text \<open>With \<open>net0\<close> and \<open>net2\<close> present the next alias is \<open>net3\<close>, not \<open>net1\<close>.\<close>

theorem scavenged_index_is_highest_plus_one_witness:
  "highest_plus_one (seen_indices ''net'' [info_with (Some ''net0''), info_with (Some ''net2'')]) = 3
   \<and> qemuAssignDeviceNetAlias example_collaborators
        (empty_def\<lparr>nets := [net_with (Some ''net0'') VIR_DOMAIN_NET_TYPE_USER,
                            net_with (Some ''net2'') VIR_DOMAIN_NET_TYPE_USER]\<rparr>)
        (net_with None VIR_DOMAIN_NET_TYPE_USER) (- 1)
       = Inr (net_with (Some ''net3'') VIR_DOMAIN_NET_TYPE_USER)"
proof -
  have h: "\<forall>k\<in>set (seen_indices ''net'' [info_with (Some ''net0''), info_with (Some ''net2'')]). k < INT_MAX"
    by (simp add: seen_indices_def example_defs scan_defs INT_MAX_def)
  show ?thesis
    using scavenged_index_is_highest_plus_one [OF h,
        where X = example_collaborators
          and def = "empty_def\<lparr>nets := [net_with (Some ''net0'') VIR_DOMAIN_NET_TYPE_USER,
                            net_with (Some ''net2'') VIR_DOMAIN_NET_TYPE_USER]\<rparr>"
          and net = "net_with None VIR_DOMAIN_NET_TYPE_USER"]
    by (simp add: seen_indices_def highest_plus_one_def example_defs scan_defs)
qed

text \<open>
  Claim C5. An assigner called with index -1 on an empty device list assigns the suffix 0.
  The shared-memory assigner does; the input assigner never sets \<^verbatim>\<open>idx\<close> to 0 before
  its loop and assigns \<open>input-1\<close>.
\<close>

theorem input_alias_on_empty_list:
  "qemuAssignDeviceInputAlias empty_def (device_with None) (- 1)
     = Inr (device_with (Some ''input-1''))
   \<and> qemuAssignDeviceShmemAlias empty_def (device_with None) (- 1)
     = Inr (device_with (Some ''shmem0''))"
  by (simp add: qemuAssignDeviceInputAlias_def qemuAssignDeviceShmemAlias_def example_defs scan_defs)

text \<open>
  Claim C6, as stated, fails in three places. A virtio-pmem device gets a scavenged index
  also when legacy mode is not requested, whatever its slot number ("virtio-pmem goes onto
  PCI bus and thus DIMM address is not valid"). The slot, an \<^verbatim>\<open>unsigned int\<close>, is returned
  as an \<^verbatim>\<open>int\<close>: slot 4294967295 gives \<open>dimm-1\<close>. In legacy mode the increment of the
  scanning loop wraps around at \<^verbatim>\<open>INT_MAX\<close>: with \<open>dimm2147483647\<close> present the next device
  gets \<open>dimm-2147483648\<close>.
\<close>

theorem virtio_pmem_ignores_slot:
  "qemuAssignDeviceMemoryAlias empty_def
       (memory_with None VIR_DOMAIN_MEMORY_MODEL_VIRTIO_PMEM 5) False
     = Inr (memory_with (Some ''virtiopmem0'') VIR_DOMAIN_MEMORY_MODEL_VIRTIO_PMEM 5)
   \<and> ''virtiopmem0'' \<noteq> ''virtiopmem'' @ fmt_d (sint (5 :: c_uint))
   \<and> qemuAssignDeviceMemoryAlias empty_def
       (memory_with None VIR_DOMAIN_MEMORY_MODEL_DIMM 4294967295) False
     = Inr (memory_with (Some ''dimm-1'') VIR_DOMAIN_MEMORY_MODEL_DIMM 4294967295)
   \<and> qemuAssignDeviceMemoryAlias
       (empty_def\<lparr>mems := [memory_with (Some ''dimm2147483647'') VIR_DOMAIN_MEMORY_MODEL_DIMM 0]\<rparr>)
       (memory_with None VIR_DOMAIN_MEMORY_MODEL_DIMM 1) True
     = Inr (memory_with (Some ''dimm-2147483648'') VIR_DOMAIN_MEMORY_MODEL_DIMM 1)"
  by (simp add: qemuAssignDeviceMemoryAlias_def qemuDeviceMemoryGetAliasID_def example_defs
        scan_defs)

text \<open>
  Claim C6, amended. For a memory device without an alias: when legacy mode is not
  requested, a DIMM or NVDIMM gets the index of its own slot, the \<^verbatim>\<open>unsigned int\<close> slot
  read as an \<^verbatim>\<open>int\<close> (the slot itself up to \<^verbatim>\<open>INT_MAX\<close>); in legacy mode, and for a
  virtio-pmem device in either mode, the index is scavenged over the memory devices of the
  domain (the highest suffix seen for the prefix of the model, plus one), provided every
  suffix seen is below \<^verbatim>\<open>INT_MAX\<close>.
\<close>

theorem memory_alias_index:
  assumes "dev_alias (info mem) = None"
  shows "(uint (dimm_slot (info mem)) \<le> INT_MAX
            \<longrightarrow> sint (dimm_slot (info mem)) = uint (dimm_slot (info mem)))
       \<and> (\<not> oldAlias \<and> mem_model mem = VIR_DOMAIN_MEMORY_MODEL_DIMM
            \<longrightarrow> qemuAssignDeviceMemoryAlias def mem oldAlias
                = Inr (set_alias (''dimm'' @ fmt_d (sint (dimm_slot (info mem)))) mem))
       \<and> (\<not> oldAlias \<and> mem_model mem = VIR_DOMAIN_MEMORY_MODEL_NVDIMM
            \<longrightarrow> qemuAssignDeviceMemoryAlias def mem oldAlias
                = Inr (set_alias (''nvdimm'' @ fmt_d (sint (dimm_slot (info mem)))) mem))
       \<and> ((oldAlias \<or> mem_model mem = VIR_DOMAIN_MEMORY_MODEL_VIRTIO_PMEM)
            \<and> (mem_model mem, prefix) \<in>
                 {(VIR_DOMAIN_MEMORY_MODEL_DIMM, ''dimm''),
                  (VIR_DOMAIN_MEMORY_MODEL_NVDIMM, ''nvdimm''),
                  (VIR_DOMAIN_MEMORY_MODEL_VIRTIO_PMEM, ''virtiopmem'')}
            \<and> (\<forall>k\<in>set (seen_indices prefix (map info (mems def))). k < INT_MAX)
            \<longrightarrow> qemuAssignDeviceMemoryAlias def mem oldAlias
                = Inr (set_alias
                         (prefix @ fmt_d (highest_plus_one
                                            (seen_indices prefix (map info (mems def))))) mem))"
proof -
  have scav: "sint (foldl (max_index_step p) 0 (map info (mems def)))
                = highest_plus_one (seen_indices p (map info (mems def)))"
    if "\<forall>k\<in>set (seen_indices p (map info (mems def))). k < INT_MAX" for p
  proof -
    from that have b: "\<forall>k\<in>set (seen_indices p (map info (mems def))). k < 2 ^ 31 - 1"
      by (simp add: INT_MAX_def)
    have "foldl (max_index_step p) 0 (map info (mems def))
            = foldl (next_index_step p) 0 (map info (mems def))"
      by (rule foldl_max_index_step [OF _ b]) simp
    then show ?thesis by (simp add: foldl_next_index_step_0 [OF b])
  qed
  show ?thesis
    using assms scav [of prefix] sint_slot [of "dimm_slot (info mem)"]
    by (auto simp: qemuAssignDeviceMemoryAlias_def qemuDeviceMemoryGetAliasID_def Let_def)
qed

text \<open>Slot 5 gives \<open>dimm5\<close>; in legacy mode, with \<open>dimm0\<close> and \<open>dimm3\<close> present, \<open>dimm4\<close>.\<close>

theorem memory_alias_index_witness:
  "sint (dimm_slot (info (memory_with None VIR_DOMAIN_MEMORY_MODEL_DIMM 5))) = 5
   \<and> qemuAssignDeviceMemoryAlias empty_def
       (memory_with None VIR_DOMAIN_MEMORY_MODEL_DIMM 5) False
     = Inr (memory_with (Some ''dimm5'') VIR_DOMAIN_MEMORY_MODEL_DIMM 5)
   \<and> qemuAssignDeviceMemoryAlias
       (empty_def\<lparr>mems := [memory_with (Some ''dimm0'') VIR_DOMAIN_MEMORY_MODEL_DIMM 0,
                           memory_with (Some ''dimm3'') VIR_DOMAIN_MEMORY_MODEL_DIMM 3]\<rparr>)
       (memory_with None VIR_DOMAIN_MEMORY_MODEL_DIMM 5) True
     = Inr (memory_with (Some ''dimm4'') VIR_DOMAIN_MEMORY_MODEL_DIMM 5)"
proof -
  have a: "dev_alias (info (memory_with None VIR_DOMAIN_MEMORY_MODEL_DIMM 5)) = None"
    by (simp add: memory_with_def info_with_def)
  show ?thesis
    using memory_alias_index [OF a, where oldAlias = False and def = empty_def and prefix = "''dimm''"]
      memory_alias_index [OF a, where oldAlias = True and prefix = "''dimm''"
        and def = "empty_def\<lparr>mems := [memory_with (Some ''dimm0'') VIR_DOMAIN_MEMORY_MODEL_DIMM 0,
                           memory_with (Some ''dimm3'') VIR_DOMAIN_MEMORY_MODEL_DIMM 3]\<rparr>"]
    by (simp add: seen_indices_def highest_plus_one_def INT_MAX_def example_defs scan_defs)
qed

section \<open>Lemmas: the phases of the domain-wide pass\<close>

subsection \<open>Loops and phases\<close>

lemma for_loop_invariant:
  assumes "for_loop n i body s = Inr s'"
    and "I i s"
    and "\<And>j t t'. i \<le> j \<Longrightarrow> j < i + n \<Longrightarrow> I j t \<Longrightarrow> body j t = Inr t' \<Longrightarrow> I (Suc j) t'"
  shows "I (i + n) s'"
  using assms
proof (induction n arbitrary: i s)
  case 0
  then show ?case by simp
next
  case (Suc n)
  from Suc.prems(1) obtain t where b: "body i s = Inr t" and r: "for_loop n (Suc i) body t = Inr s'"
    by (auto split: sum.splits)
  have "I (Suc i) t" using Suc.prems(3) [of i s t] Suc.prems(2) b by simp
  from Suc.IH [OF r this] Suc.prems(3) show ?case by simp
qed

lemma for_loop_unchanged:
  assumes "\<And>j. i \<le> j \<Longrightarrow> j < i + n \<Longrightarrow> body j s = Inr s"
  shows "for_loop n i body s = Inr s"
  using assms by (induction n arbitrary: i) simp_all

lemma on_success_Inr: "on_success r f = Inr y \<longleftrightarrow> (\<exists>x. r = Inr x \<and> y = f x)"
  by (cases r) (auto simp: on_success_def)

lemma run_phases_Cons_Inr:
  "run_phases (f # fs) s = Inr s' \<longleftrightarrow> (\<exists>t. f s = Inr t \<and> run_phases fs t = Inr s')"
  by (cases "f s") simp_all

lemma for_loop_list_field:
  fixes get :: "'s \<Rightarrow> 'a list" and put :: "'a list \<Rightarrow> 's \<Rightarrow> 's"
  assumes get_put: "\<And>xs s. get (put xs s) = xs"
    and put_put: "\<And>xs ys s. put xs (put ys s) = put xs s"
    and put_get: "\<And>s. put (get s) s = s"
    and body: "\<And>i s. body i s = on_success (f i s (get s ! i)) (\<lambda>x. put ((get s)[i := x]) s)"
    and run: "for_loop (length (get s0)) 0 body s0 = Inr s'"
  shows "\<exists>xs. s' = put xs s0 \<and> length xs = length (get s0)
           \<and> (\<forall>i<length xs. \<exists>s. f i s (get s0 ! i) = Inr (xs ! i))"
proof -
  let ?n = "length (get s0)"
  let ?I = "\<lambda>j t. \<exists>xs. t = put xs s0 \<and> length xs = ?n
              \<and> (\<forall>i<j. \<exists>s. f i s (get s0 ! i) = Inr (xs ! i))
              \<and> (\<forall>i. j \<le> i \<and> i < ?n \<longrightarrow> xs ! i = get s0 ! i)"
  have init: "?I 0 s0"
    by (rule exI [of _ "get s0"]) (simp add: put_get)
  have step: "?I (Suc j) t'" if j: "0 \<le> j" "j < 0 + ?n" and inv: "?I j t" and b: "body j t = Inr t'"
    for j t t'
  proof -
    from inv obtain xs where xs: "t = put xs s0" "length xs = ?n"
      "\<forall>i<j. \<exists>s. f i s (get s0 ! i) = Inr (xs ! i)"
      "\<forall>i. j \<le> i \<and> i < ?n \<longrightarrow> xs ! i = get s0 ! i" by blast
    have g: "get t = xs" by (simp add: xs(1) get_put)
    from b obtain y where y: "f j t (xs ! j) = Inr y" and t': "t' = put (xs[j := y]) t"
      by (auto simp: body g on_success_Inr)
    have xj: "xs ! j = get s0 ! j" using xs(4) j by simp
    show ?thesis
    proof (intro exI [of _ "xs[j := y]"] conjI allI impI)
      show "t' = put (xs[j := y]) s0" by (simp add: t' xs(1) put_put)
      show "length (xs[j := y]) = ?n" by (simp add: xs(2))
    next
      fix i assume "i < Suc j"
      then consider "i < j" | "i = j" by linarith
      then show "\<exists>s. f i s (get s0 ! i) = Inr (xs[j := y] ! i)"
      proof cases
        case 1
        with xs(3) show ?thesis by simp
      next
        case 2
        with y xj j xs(2) show ?thesis by auto
      qed
    next
      fix i assume "Suc j \<le> i \<and> i < ?n"
      with xs(4) show "xs[j := y] ! i = get s0 ! i" by simp
    qed
  qed
  have "?I (0 + ?n) s'"
  proof (rule for_loop_invariant [where I = ?I, OF run init])
    fix j t t'
    assume "0 \<le> j" "j < 0 + ?n" "?I j t" "body j t = Inr t'"
    then show "?I (Suc j) t'" by (rule step)
  qed
  then show ?thesis by auto
qed

subsection \<open>Every assigner sets an alias and keeps one that is set\<close>

lemma set_alias_same: "dev_alias (info x) = Some a \<Longrightarrow> set_alias a x = x"
proof -
  assume a: "dev_alias (info x) = Some a"
  have "(info x)\<lparr>dev_alias := Some a\<rparr> = (info x)\<lparr>dev_alias := dev_alias (info x)\<rparr>"
    by (simp only: a)
  then show ?thesis by (simp add: set_alias_def)
qed

lemma alias_assigned_keep: "dev_alias (info x) = Some a \<Longrightarrow> alias_assigned x x"
  unfolding alias_assigned_def
  by (rule exI [of _ a]) (simp add: set_alias_same alias_kept_def)

lemma alias_assigned_set: "dev_alias (info x) = None \<Longrightarrow> alias_assigned x (set_alias a x)"
  unfolding alias_assigned_def by (rule exI [of _ a]) (simp add: alias_kept_def)

lemma alias_assigned_has_alias: "alias_assigned x y \<Longrightarrow> has_alias y"
  by (auto simp: alias_assigned_def has_alias_def set_alias_def)

lemma alias_assigned_kept:
  "alias_assigned x y \<Longrightarrow> alias_kept (dev_alias (info x)) (dev_alias (info y))"
  by (auto simp: alias_assigned_def set_alias_def)

lemma alias_assigned_more:
  "alias_assigned x y \<Longrightarrow> virDomainDeviceDef.more y = virDomainDeviceDef.more x"
  by (auto simp: alias_assigned_def set_alias_def)

lemma fs_assigned: "qemuAssignDeviceFSAlias x idx = Inr y \<Longrightarrow> alias_assigned x y"
  by (auto simp: qemuAssignDeviceFSAlias_def alias_assigned_keep alias_assigned_set split: if_splits)

lemma redirdev_assigned: "qemuAssignDeviceRedirdevAlias d x idx = Inr y \<Longrightarrow> alias_assigned x y"
  by (auto simp: qemuAssignDeviceRedirdevAlias_def Let_def alias_assigned_keep alias_assigned_set
        split: if_splits)

lemma chr_assigned: "qemuAssignDeviceChrAlias d x idx = Inr y \<Longrightarrow> alias_assigned x y"
  by (auto simp: qemuAssignDeviceChrAlias_def Let_def alias_assigned_keep alias_assigned_set
        split: if_splits option.splits)

lemma controller_assigned:
  "qemuAssignDeviceControllerAlias X d caps x = Inr y \<Longrightarrow> alias_assigned x y"
  by (auto simp: qemuAssignDeviceControllerAlias_def Let_def alias_assigned_keep
        alias_assigned_set split: if_splits)

lemma hostdev_alias_assigned:
  "qemuAssignDeviceHostdevAlias d a idx = Inr b \<Longrightarrow> b \<noteq> None \<and> alias_kept a b"
  by (auto simp: qemuAssignDeviceHostdevAlias_def Let_def alias_kept_def
        split: if_splits option.splits)

lemma net_assigned: "qemuAssignDeviceNetAlias X d x idx = Inr y \<Longrightarrow> alias_assigned x y"
proof -
  assume r: "qemuAssignDeviceNetAlias X d x idx = Inr y"
  show ?thesis
  proof (cases "dev_alias (info x)")
    case (Some a)
    with r show ?thesis by (simp add: qemuAssignDeviceNetAlias_def alias_assigned_keep)
  next
    case None
    show ?thesis
    proof (cases "virDomainNetResolveActualType X x = VIR_DOMAIN_NET_TYPE_HOSTDEV")
      case True
      with r None obtain b where b: "qemuAssignDeviceHostdevAlias d None (- 1) = Inr b"
        and y: "y = x\<lparr>info := (info x)\<lparr>dev_alias := b\<rparr>\<rparr>"
        by (auto simp: qemuAssignDeviceNetAlias_def split: sum.splits)
      from hostdev_alias_assigned [OF b] obtain a where "b = Some a" by auto
      with y have "y = set_alias a x" by (simp add: set_alias_def)
      with None show ?thesis by (simp add: alias_assigned_set)
    next
      case False
      with r None show ?thesis
        by (auto simp: qemuAssignDeviceNetAlias_def Let_def alias_assigned_set)
    qed
  qed
qed

lemma memory_assigned: "qemuAssignDeviceMemoryAlias d x old = Inr y \<Longrightarrow> alias_assigned x y"
  by (auto simp: qemuAssignDeviceMemoryAlias_def Let_def alias_assigned_keep alias_assigned_set
        split: if_splits option.splits)

lemma rng_assigned: "qemuAssignDeviceRNGAlias d x = Inr y \<Longrightarrow> alias_assigned x y"
  by (auto simp: qemuAssignDeviceRNGAlias_def Let_def alias_assigned_keep alias_assigned_set
        split: if_splits)

lemma disk_alias_assigned: "disk_assign_alias X d x = Inr y \<Longrightarrow> alias_assigned x y"
  by (auto simp: disk_assign_alias_def Let_def alias_assigned_keep alias_assigned_set
        split: if_splits)

lemma disk_assign_qomName_info [simp]: "info (disk_assign_qomName X caps x) = info x"
  by (simp add: disk_assign_qomName_def split: option.split virDomainDiskBus.split)

lemma disk_assign_qomName_idem:
  "disk_assign_qomName X caps (disk_assign_qomName X caps x) = disk_assign_qomName X caps x"
  by (simp add: disk_assign_qomName_def split: option.split virDomainDiskBus.split)

lemma sound_assigned: "qemuAssignDeviceSoundAlias x idx = Inr y \<Longrightarrow> alias_assigned x y"
  by (auto simp: qemuAssignDeviceSoundAlias_def alias_assigned_keep alias_assigned_set split: if_splits)

lemma video_assigned: "qemuAssignDeviceVideoAlias x idx = Inr y \<Longrightarrow> alias_assigned x y"
  by (auto simp: qemuAssignDeviceVideoAlias_def alias_assigned_keep alias_assigned_set split: if_splits)

lemma hub_assigned: "qemuAssignDeviceHubAlias x idx = Inr y \<Longrightarrow> alias_assigned x y"
  by (auto simp: qemuAssignDeviceHubAlias_def alias_assigned_keep alias_assigned_set split: if_splits)

lemma smartcard_assigned: "qemuAssignDeviceSmartcardAlias x idx = Inr y \<Longrightarrow> alias_assigned x y"
  by (auto simp: qemuAssignDeviceSmartcardAlias_def alias_assigned_keep alias_assigned_set
        split: if_splits)

lemma tpm_assigned: "qemuAssignDeviceTPMAlias x idx = Inr y \<Longrightarrow> alias_assigned x y"
  by (auto simp: qemuAssignDeviceTPMAlias_def alias_assigned_keep alias_assigned_set split: if_splits)

lemma memballoon_assigned: "qemuAssignDeviceMemballoonAlias x idx = Inr y \<Longrightarrow> alias_assigned x y"
  by (auto simp: qemuAssignDeviceMemballoonAlias_def alias_assigned_keep alias_assigned_set
        split: if_splits)

lemma watchdog_assigned: "qemuAssignDeviceWatchdogAlias x = Inr y \<Longrightarrow> alias_assigned x y"
  by (auto simp: qemuAssignDeviceWatchdogAlias_def alias_assigned_keep alias_assigned_set
        split: if_splits)

lemma vsock_assigned: "qemuAssignDeviceVsockAlias x = Inr y \<Longrightarrow> alias_assigned x y"
  by (auto simp: qemuAssignDeviceVsockAlias_def alias_assigned_keep alias_assigned_set
        split: if_splits)

lemma shmem_assigned: "qemuAssignDeviceShmemAlias d x idx = Inr y \<Longrightarrow> alias_assigned x y"
  by (auto simp: qemuAssignDeviceShmemAlias_def Let_def alias_assigned_keep alias_assigned_set
        split: if_splits)

lemma input_assigned: "qemuAssignDeviceInputAlias d x idx = Inr y \<Longrightarrow> alias_assigned x y"
  by (auto simp: qemuAssignDeviceInputAlias_def Let_def alias_assigned_keep alias_assigned_set
        split: if_splits)

lemma disk_assigned: "qemuAssignDeviceDiskAlias X d x qemuCaps = Inr y \<Longrightarrow> disk_assigned X qemuCaps x y"
  by (auto simp: qemuAssignDeviceDiskAlias_def disk_assigned_def dest: disk_alias_assigned
        split: sum.splits)

lemma list_all2_nthI:
  "length xs = length ys \<Longrightarrow> (\<And>i. i < length ys \<Longrightarrow> P (xs ! i) (ys ! i)) \<Longrightarrow> list_all2 P xs ys"
  by (simp add: list_all2_conv_all_nth)

lemma aliases_disks_summary:
  assumes "aliases_disks X qemuCaps d = Inr d'"
  shows "\<exists>xs. d' = d\<lparr>disks := xs\<rparr> \<and> length xs = length (disks d)
           \<and> (\<forall>i<length xs. \<exists>s. qemuAssignDeviceDiskAlias X s (disks d ! i) qemuCaps = Inr (xs ! i))"
  using for_loop_list_field [where get = disks and put = "\<lambda>xs d. d\<lparr>disks := xs\<rparr>"
      and f = "\<lambda>i s x. qemuAssignDeviceDiskAlias X s x qemuCaps"
      and body = "\<lambda>i d. on_success (qemuAssignDeviceDiskAlias X d (disks d ! i) qemuCaps)
                (\<lambda>x. d\<lparr>disks := (disks d)[i := x]\<rparr>)"
      and ?s0.0 = d and s' = d']
    assms
  by (simp add: aliases_disks_def)

lemma aliases_disks_step:
  assumes "aliases_disks X qemuCaps d = Inr d'"
  shows "\<exists>xs. d' = d\<lparr>disks := xs\<rparr> \<and> list_all2 (disk_assigned X qemuCaps) (disks d) xs"
proof -
  from aliases_disks_summary [OF assms] obtain xs where xs: "d' = d\<lparr>disks := xs\<rparr>"
    "length xs = length (disks d)"
    "\<forall>i<length xs. \<exists>s. qemuAssignDeviceDiskAlias X s (disks d ! i) qemuCaps = Inr (xs ! i)"
    by blast
  have "list_all2 (disk_assigned X qemuCaps) (disks d) xs"
  proof (rule list_all2_nthI)
    show "length (disks d) = length xs" by (simp add: xs(2))
  next
    fix i assume "i < length xs"
    with xs(3) show "(disk_assigned X qemuCaps) (disks d ! i) (xs ! i)" by (auto dest: disk_assigned)
  qed
  with xs(1) show ?thesis by blast
qed

lemma aliases_nets_summary:
  assumes "aliases_nets X d = Inr d'"
  shows "\<exists>xs. d' = d\<lparr>nets := xs\<rparr> \<and> length xs = length (nets d)
           \<and> (\<forall>i<length xs. \<exists>s. qemuAssignDeviceNetAlias X s (nets d ! i) (- 1) = Inr (xs ! i))"
  using for_loop_list_field [where get = nets and put = "\<lambda>xs d. d\<lparr>nets := xs\<rparr>"
      and f = "\<lambda>i s x. qemuAssignDeviceNetAlias X s x (- 1)"
      and body = "\<lambda>i d. on_success (qemuAssignDeviceNetAlias X d (nets d ! i) (- 1))
                (\<lambda>x. d\<lparr>nets := (nets d)[i := x]\<rparr>)"
      and ?s0.0 = d and s' = d']
    assms
  by (simp add: aliases_nets_def)

lemma aliases_nets_step:
  assumes "aliases_nets X d = Inr d'"
  shows "\<exists>xs. d' = d\<lparr>nets := xs\<rparr> \<and> list_all2 (alias_assigned) (nets d) xs"
proof -
  from aliases_nets_summary [OF assms] obtain xs where xs: "d' = d\<lparr>nets := xs\<rparr>"
    "length xs = length (nets d)"
    "\<forall>i<length xs. \<exists>s. qemuAssignDeviceNetAlias X s (nets d ! i) (- 1) = Inr (xs ! i)"
    by blast
  have "list_all2 (alias_assigned) (nets d) xs"
  proof (rule list_all2_nthI)
    show "length (nets d) = length xs" by (simp add: xs(2))
  next
    fix i assume "i < length xs"
    with xs(3) show "(alias_assigned) (nets d ! i) (xs ! i)" by (auto dest: net_assigned)
  qed
  with xs(1) show ?thesis by blast
qed

lemma aliases_fss_summary:
  assumes "aliases_fss d = Inr d'"
  shows "\<exists>xs. d' = d\<lparr>fss := xs\<rparr> \<and> length xs = length (fss d)
           \<and> (\<forall>i<length xs. \<exists>s. qemuAssignDeviceFSAlias (fss d ! i) (of_nat i) = Inr (xs ! i))"
  using for_loop_list_field [where get = fss and put = "\<lambda>xs d. d\<lparr>fss := xs\<rparr>"
      and f = "\<lambda>i s x. qemuAssignDeviceFSAlias x (of_nat i)"
      and body = "\<lambda>i d. on_success (qemuAssignDeviceFSAlias (fss d ! i) (of_nat i))
                (\<lambda>x. d\<lparr>fss := (fss d)[i := x]\<rparr>)"
      and ?s0.0 = d and s' = d']
    assms
  by (simp add: aliases_fss_def)

lemma aliases_fss_step:
  assumes "aliases_fss d = Inr d'"
  shows "\<exists>xs. d' = d\<lparr>fss := xs\<rparr> \<and> list_all2 (alias_assigned) (fss d) xs"
proof -
  from aliases_fss_summary [OF assms] obtain xs where xs: "d' = d\<lparr>fss := xs\<rparr>"
    "length xs = length (fss d)"
    "\<forall>i<length xs. \<exists>s. qemuAssignDeviceFSAlias (fss d ! i) (of_nat i) = Inr (xs ! i)"
    by blast
  have "list_all2 (alias_assigned) (fss d) xs"
  proof (rule list_all2_nthI)
    show "length (fss d) = length xs" by (simp add: xs(2))
  next
    fix i assume "i < length xs"
    with xs(3) show "(alias_assigned) (fss d ! i) (xs ! i)" by (auto dest: fs_assigned)
  qed
  with xs(1) show ?thesis by blast
qed

lemma aliases_sounds_summary:
  assumes "aliases_sounds d = Inr d'"
  shows "\<exists>xs. d' = d\<lparr>sounds := xs\<rparr> \<and> length xs = length (sounds d)
           \<and> (\<forall>i<length xs. \<exists>s. qemuAssignDeviceSoundAlias (sounds d ! i) (of_nat i) = Inr (xs ! i))"
  using for_loop_list_field [where get = sounds and put = "\<lambda>xs d. d\<lparr>sounds := xs\<rparr>"
      and f = "\<lambda>i s x. qemuAssignDeviceSoundAlias x (of_nat i)"
      and body = "\<lambda>i d. on_success (qemuAssignDeviceSoundAlias (sounds d ! i) (of_nat i))
                (\<lambda>x. d\<lparr>sounds := (sounds d)[i := x]\<rparr>)"
      and ?s0.0 = d and s' = d']
    assms
  by (simp add: aliases_sounds_def)

lemma aliases_sounds_step:
  assumes "aliases_sounds d = Inr d'"
  shows "\<exists>xs. d' = d\<lparr>sounds := xs\<rparr> \<and> list_all2 (alias_assigned) (sounds d) xs"
proof -
  from aliases_sounds_summary [OF assms] obtain xs where xs: "d' = d\<lparr>sounds := xs\<rparr>"
    "length xs = length (sounds d)"
    "\<forall>i<length xs. \<exists>s. qemuAssignDeviceSoundAlias (sounds d ! i) (of_nat i) = Inr (xs ! i)"
    by blast
  have "list_all2 (alias_assigned) (sounds d) xs"
  proof (rule list_all2_nthI)
    show "length (sounds d) = length xs" by (simp add: xs(2))
  next
    fix i assume "i < length xs"
    with xs(3) show "(alias_assigned) (sounds d ! i) (xs ! i)" by (auto dest: sound_assigned)
  qed
  with xs(1) show ?thesis by blast
qed

lemma aliases_redirdevs_summary:
  assumes "aliases_redirdevs d = Inr d'"
  shows "\<exists>xs. d' = d\<lparr>redirdevs := xs\<rparr> \<and> length xs = length (redirdevs d)
           \<and> (\<forall>i<length xs. \<exists>s. qemuAssignDeviceRedirdevAlias s (redirdevs d ! i) (of_nat i) = Inr (xs ! i))"
  using for_loop_list_field [where get = redirdevs and put = "\<lambda>xs d. d\<lparr>redirdevs := xs\<rparr>"
      and f = "\<lambda>i s x. qemuAssignDeviceRedirdevAlias s x (of_nat i)"
      and body = "\<lambda>i d. on_success (qemuAssignDeviceRedirdevAlias d (redirdevs d ! i) (of_nat i))
                (\<lambda>x. d\<lparr>redirdevs := (redirdevs d)[i := x]\<rparr>)"
      and ?s0.0 = d and s' = d']
    assms
  by (simp add: aliases_redirdevs_def)

lemma aliases_redirdevs_step:
  assumes "aliases_redirdevs d = Inr d'"
  shows "\<exists>xs. d' = d\<lparr>redirdevs := xs\<rparr> \<and> list_all2 (alias_assigned) (redirdevs d) xs"
proof -
  from aliases_redirdevs_summary [OF assms] obtain xs where xs: "d' = d\<lparr>redirdevs := xs\<rparr>"
    "length xs = length (redirdevs d)"
    "\<forall>i<length xs. \<exists>s. qemuAssignDeviceRedirdevAlias s (redirdevs d ! i) (of_nat i) = Inr (xs ! i)"
    by blast
  have "list_all2 (alias_assigned) (redirdevs d) xs"
  proof (rule list_all2_nthI)
    show "length (redirdevs d) = length xs" by (simp add: xs(2))
  next
    fix i assume "i < length xs"
    with xs(3) show "(alias_assigned) (redirdevs d ! i) (xs ! i)" by (auto dest: redirdev_assigned)
  qed
  with xs(1) show ?thesis by blast
qed

lemma aliases_videos_summary:
  assumes "aliases_videos d = Inr d'"
  shows "\<exists>xs. d' = d\<lparr>videos := xs\<rparr> \<and> length xs = length (videos d)
           \<and> (\<forall>i<length xs. \<exists>s. qemuAssignDeviceVideoAlias (videos d ! i) (of_nat i) = Inr (xs ! i))"
  using for_loop_list_field [where get = videos and put = "\<lambda>xs d. d\<lparr>videos := xs\<rparr>"
      and f = "\<lambda>i s x. qemuAssignDeviceVideoAlias x (of_nat i)"
      and body = "\<lambda>i d. on_success (qemuAssignDeviceVideoAlias (videos d ! i) (of_nat i))
                (\<lambda>x. d\<lparr>videos := (videos d)[i := x]\<rparr>)"
      and ?s0.0 = d and s' = d']
    assms
  by (simp add: aliases_videos_def)

lemma aliases_videos_step:
  assumes "aliases_videos d = Inr d'"
  shows "\<exists>xs. d' = d\<lparr>videos := xs\<rparr> \<and> list_all2 (alias_assigned) (videos d) xs"
proof -
  from aliases_videos_summary [OF assms] obtain xs where xs: "d' = d\<lparr>videos := xs\<rparr>"
    "length xs = length (videos d)"
    "\<forall>i<length xs. \<exists>s. qemuAssignDeviceVideoAlias (videos d ! i) (of_nat i) = Inr (xs ! i)"
    by blast
  have "list_all2 (alias_assigned) (videos d) xs"
  proof (rule list_all2_nthI)
    show "length (videos d) = length xs" by (simp add: xs(2))
  next
    fix i assume "i < length xs"
    with xs(3) show "(alias_assigned) (videos d ! i) (xs ! i)" by (auto dest: video_assigned)
  qed
  with xs(1) show ?thesis by blast
qed

lemma aliases_controllers_summary:
  assumes "aliases_controllers X qemuCaps d = Inr d'"
  shows "\<exists>xs. d' = d\<lparr>controllers := xs\<rparr> \<and> length xs = length (controllers d)
           \<and> (\<forall>i<length xs. \<exists>s. qemuAssignDeviceControllerAlias X s qemuCaps (controllers d ! i) = Inr (xs ! i))"
  using for_loop_list_field [where get = controllers and put = "\<lambda>xs d. d\<lparr>controllers := xs\<rparr>"
      and f = "\<lambda>i s x. qemuAssignDeviceControllerAlias X s qemuCaps x"
      and body = "\<lambda>i d. on_success (qemuAssignDeviceControllerAlias X d qemuCaps (controllers d ! i))
                (\<lambda>x. d\<lparr>controllers := (controllers d)[i := x]\<rparr>)"
      and ?s0.0 = d and s' = d']
    assms
  by (simp add: aliases_controllers_def)

lemma aliases_controllers_step:
  assumes "aliases_controllers X qemuCaps d = Inr d'"
  shows "\<exists>xs. d' = d\<lparr>controllers := xs\<rparr> \<and> list_all2 (alias_assigned) (controllers d) xs"
proof -
  from aliases_controllers_summary [OF assms] obtain xs where xs: "d' = d\<lparr>controllers := xs\<rparr>"
    "length xs = length (controllers d)"
    "\<forall>i<length xs. \<exists>s. qemuAssignDeviceControllerAlias X s qemuCaps (controllers d ! i) = Inr (xs ! i)"
    by blast
  have "list_all2 (alias_assigned) (controllers d) xs"
  proof (rule list_all2_nthI)
    show "length (controllers d) = length xs" by (simp add: xs(2))
  next
    fix i assume "i < length xs"
    with xs(3) show "(alias_assigned) (controllers d ! i) (xs ! i)" by (auto dest: controller_assigned)
  qed
  with xs(1) show ?thesis by blast
qed

lemma aliases_inputs_summary:
  assumes "aliases_inputs d = Inr d'"
  shows "\<exists>xs. d' = d\<lparr>inputs := xs\<rparr> \<and> length xs = length (inputs d)
           \<and> (\<forall>i<length xs. \<exists>s. qemuAssignDeviceInputAlias s (inputs d ! i) (of_nat i) = Inr (xs ! i))"
  using for_loop_list_field [where get = inputs and put = "\<lambda>xs d. d\<lparr>inputs := xs\<rparr>"
      and f = "\<lambda>i s x. qemuAssignDeviceInputAlias s x (of_nat i)"
      and body = "\<lambda>i d. on_success (qemuAssignDeviceInputAlias d (inputs d ! i) (of_nat i))
                (\<lambda>x. d\<lparr>inputs := (inputs d)[i := x]\<rparr>)"
      and ?s0.0 = d and s' = d']
    assms
  by (simp add: aliases_inputs_def)

lemma aliases_inputs_step:
  assumes "aliases_inputs d = Inr d'"
  shows "\<exists>xs. d' = d\<lparr>inputs := xs\<rparr> \<and> list_all2 (alias_assigned) (inputs d) xs"
proof -
  from aliases_inputs_summary [OF assms] obtain xs where xs: "d' = d\<lparr>inputs := xs\<rparr>"
    "length xs = length (inputs d)"
    "\<forall>i<length xs. \<exists>s. qemuAssignDeviceInputAlias s (inputs d ! i) (of_nat i) = Inr (xs ! i)"
    by blast
  have "list_all2 (alias_assigned) (inputs d) xs"
  proof (rule list_all2_nthI)
    show "length (inputs d) = length xs" by (simp add: xs(2))
  next
    fix i assume "i < length xs"
    with xs(3) show "(alias_assigned) (inputs d ! i) (xs ! i)" by (auto dest: input_assigned)
  qed
  with xs(1) show ?thesis by blast
qed

lemma aliases_parallels_summary:
  assumes "aliases_parallels d = Inr d'"
  shows "\<exists>xs. d' = d\<lparr>parallels := xs\<rparr> \<and> length xs = length (parallels d)
           \<and> (\<forall>i<length xs. \<exists>s. qemuAssignDeviceChrAlias s (parallels d ! i) (of_nat i) = Inr (xs ! i))"
  using for_loop_list_field [where get = parallels and put = "\<lambda>xs d. d\<lparr>parallels := xs\<rparr>"
      and f = "\<lambda>i s x. qemuAssignDeviceChrAlias s x (of_nat i)"
      and body = "\<lambda>i d. on_success (qemuAssignDeviceChrAlias d (parallels d ! i) (of_nat i))
                (\<lambda>x. d\<lparr>parallels := (parallels d)[i := x]\<rparr>)"
      and ?s0.0 = d and s' = d']
    assms
  by (simp add: aliases_parallels_def)

lemma aliases_parallels_step:
  assumes "aliases_parallels d = Inr d'"
  shows "\<exists>xs. d' = d\<lparr>parallels := xs\<rparr> \<and> list_all2 (alias_assigned) (parallels d) xs"
proof -
  from aliases_parallels_summary [OF assms] obtain xs where xs: "d' = d\<lparr>parallels := xs\<rparr>"
    "length xs = length (parallels d)"
    "\<forall>i<length xs. \<exists>s. qemuAssignDeviceChrAlias s (parallels d ! i) (of_nat i) = Inr (xs ! i)"
    by blast
  have "list_all2 (alias_assigned) (parallels d) xs"
  proof (rule list_all2_nthI)
    show "length (parallels d) = length xs" by (simp add: xs(2))
  next
    fix i assume "i < length xs"
    with xs(3) show "(alias_assigned) (parallels d ! i) (xs ! i)" by (auto dest: chr_assigned)
  qed
  with xs(1) show ?thesis by blast
qed

lemma aliases_serials_summary:
  assumes "aliases_serials d = Inr d'"
  shows "\<exists>xs. d' = d\<lparr>serials := xs\<rparr> \<and> length xs = length (serials d)
           \<and> (\<forall>i<length xs. \<exists>s. qemuAssignDeviceChrAlias s (serials d ! i) (of_nat i) = Inr (xs ! i))"
  using for_loop_list_field [where get = serials and put = "\<lambda>xs d. d\<lparr>serials := xs\<rparr>"
      and f = "\<lambda>i s x. qemuAssignDeviceChrAlias s x (of_nat i)"
      and body = "\<lambda>i d. on_success (qemuAssignDeviceChrAlias d (serials d ! i) (of_nat i))
                (\<lambda>x. d\<lparr>serials := (serials d)[i := x]\<rparr>)"
      and ?s0.0 = d and s' = d']
    assms
  by (simp add: aliases_serials_def)

lemma aliases_serials_step:
  assumes "aliases_serials d = Inr d'"
  shows "\<exists>xs. d' = d\<lparr>serials := xs\<rparr> \<and> list_all2 (alias_assigned) (serials d) xs"
proof -
  from aliases_serials_summary [OF assms] obtain xs where xs: "d' = d\<lparr>serials := xs\<rparr>"
    "length xs = length (serials d)"
    "\<forall>i<length xs. \<exists>s. qemuAssignDeviceChrAlias s (serials d ! i) (of_nat i) = Inr (xs ! i)"
    by blast
  have "list_all2 (alias_assigned) (serials d) xs"
  proof (rule list_all2_nthI)
    show "length (serials d) = length xs" by (simp add: xs(2))
  next
    fix i assume "i < length xs"
    with xs(3) show "(alias_assigned) (serials d ! i) (xs ! i)" by (auto dest: chr_assigned)
  qed
  with xs(1) show ?thesis by blast
qed

lemma aliases_channels_summary:
  assumes "aliases_channels d = Inr d'"
  shows "\<exists>xs. d' = d\<lparr>channels := xs\<rparr> \<and> length xs = length (channels d)
           \<and> (\<forall>i<length xs. \<exists>s. qemuAssignDeviceChrAlias s (channels d ! i) (of_nat i) = Inr (xs ! i))"
  using for_loop_list_field [where get = channels and put = "\<lambda>xs d. d\<lparr>channels := xs\<rparr>"
      and f = "\<lambda>i s x. qemuAssignDeviceChrAlias s x (of_nat i)"
      and body = "\<lambda>i d. on_success (qemuAssignDeviceChrAlias d (channels d ! i) (of_nat i))
                (\<lambda>x. d\<lparr>channels := (channels d)[i := x]\<rparr>)"
      and ?s0.0 = d and s' = d']
    assms
  by (simp add: aliases_channels_def)

lemma aliases_channels_step:
  assumes "aliases_channels d = Inr d'"
  shows "\<exists>xs. d' = d\<lparr>channels := xs\<rparr> \<and> list_all2 (alias_assigned) (channels d) xs"
proof -
  from aliases_channels_summary [OF assms] obtain xs where xs: "d' = d\<lparr>channels := xs\<rparr>"
    "length xs = length (channels d)"
    "\<forall>i<length xs. \<exists>s. qemuAssignDeviceChrAlias s (channels d ! i) (of_nat i) = Inr (xs ! i)"
    by blast
  have "list_all2 (alias_assigned) (channels d) xs"
  proof (rule list_all2_nthI)
    show "length (channels d) = length xs" by (simp add: xs(2))
  next
    fix i assume "i < length xs"
    with xs(3) show "(alias_assigned) (channels d ! i) (xs ! i)" by (auto dest: chr_assigned)
  qed
  with xs(1) show ?thesis by blast
qed

lemma aliases_consoles_summary:
  assumes "aliases_consoles d = Inr d'"
  shows "\<exists>xs. d' = d\<lparr>consoles := xs\<rparr> \<and> length xs = length (consoles d)
           \<and> (\<forall>i<length xs. \<exists>s. qemuAssignDeviceChrAlias s (consoles d ! i) (of_nat i) = Inr (xs ! i))"
  using for_loop_list_field [where get = consoles and put = "\<lambda>xs d. d\<lparr>consoles := xs\<rparr>"
      and f = "\<lambda>i s x. qemuAssignDeviceChrAlias s x (of_nat i)"
      and body = "\<lambda>i d. on_success (qemuAssignDeviceChrAlias d (consoles d ! i) (of_nat i))
                (\<lambda>x. d\<lparr>consoles := (consoles d)[i := x]\<rparr>)"
      and ?s0.0 = d and s' = d']
    assms
  by (simp add: aliases_consoles_def)

lemma aliases_consoles_step:
  assumes "aliases_consoles d = Inr d'"
  shows "\<exists>xs. d' = d\<lparr>consoles := xs\<rparr> \<and> list_all2 (alias_assigned) (consoles d) xs"
proof -
  from aliases_consoles_summary [OF assms] obtain xs where xs: "d' = d\<lparr>consoles := xs\<rparr>"
    "length xs = length (consoles d)"
    "\<forall>i<length xs. \<exists>s. qemuAssignDeviceChrAlias s (consoles d ! i) (of_nat i) = Inr (xs ! i)"
    by blast
  have "list_all2 (alias_assigned) (consoles d) xs"
  proof (rule list_all2_nthI)
    show "length (consoles d) = length xs" by (simp add: xs(2))
  next
    fix i assume "i < length xs"
    with xs(3) show "(alias_assigned) (consoles d ! i) (xs ! i)" by (auto dest: chr_assigned)
  qed
  with xs(1) show ?thesis by blast
qed

lemma aliases_hubs_summary:
  assumes "aliases_hubs d = Inr d'"
  shows "\<exists>xs. d' = d\<lparr>hubs := xs\<rparr> \<and> length xs = length (hubs d)
           \<and> (\<forall>i<length xs. \<exists>s. qemuAssignDeviceHubAlias (hubs d ! i) (of_nat i) = Inr (xs ! i))"
  using for_loop_list_field [where get = hubs and put = "\<lambda>xs d. d\<lparr>hubs := xs\<rparr>"
      and f = "\<lambda>i s x. qemuAssignDeviceHubAlias x (of_nat i)"
      and body = "\<lambda>i d. on_success (qemuAssignDeviceHubAlias (hubs d ! i) (of_nat i))
                (\<lambda>x. d\<lparr>hubs := (hubs d)[i := x]\<rparr>)"
      and ?s0.0 = d and s' = d']
    assms
  by (simp add: aliases_hubs_def)

lemma aliases_hubs_step:
  assumes "aliases_hubs d = Inr d'"
  shows "\<exists>xs. d' = d\<lparr>hubs := xs\<rparr> \<and> list_all2 (alias_assigned) (hubs d) xs"
proof -
  from aliases_hubs_summary [OF assms] obtain xs where xs: "d' = d\<lparr>hubs := xs\<rparr>"
    "length xs = length (hubs d)"
    "\<forall>i<length xs. \<exists>s. qemuAssignDeviceHubAlias (hubs d ! i) (of_nat i) = Inr (xs ! i)"
    by blast
  have "list_all2 (alias_assigned) (hubs d) xs"
  proof (rule list_all2_nthI)
    show "length (hubs d) = length xs" by (simp add: xs(2))
  next
    fix i assume "i < length xs"
    with xs(3) show "(alias_assigned) (hubs d ! i) (xs ! i)" by (auto dest: hub_assigned)
  qed
  with xs(1) show ?thesis by blast
qed

lemma aliases_shmems_summary:
  assumes "aliases_shmems d = Inr d'"
  shows "\<exists>xs. d' = d\<lparr>shmems := xs\<rparr> \<and> length xs = length (shmems d)
           \<and> (\<forall>i<length xs. \<exists>s. qemuAssignDeviceShmemAlias s (shmems d ! i) (of_nat i) = Inr (xs ! i))"
  using for_loop_list_field [where get = shmems and put = "\<lambda>xs d. d\<lparr>shmems := xs\<rparr>"
      and f = "\<lambda>i s x. qemuAssignDeviceShmemAlias s x (of_nat i)"
      and body = "\<lambda>i d. on_success (qemuAssignDeviceShmemAlias d (shmems d ! i) (of_nat i))
                (\<lambda>x. d\<lparr>shmems := (shmems d)[i := x]\<rparr>)"
      and ?s0.0 = d and s' = d']
    assms
  by (simp add: aliases_shmems_def)

lemma aliases_shmems_step:
  assumes "aliases_shmems d = Inr d'"
  shows "\<exists>xs. d' = d\<lparr>shmems := xs\<rparr> \<and> list_all2 (alias_assigned) (shmems d) xs"
proof -
  from aliases_shmems_summary [OF assms] obtain xs where xs: "d' = d\<lparr>shmems := xs\<rparr>"
    "length xs = length (shmems d)"
    "\<forall>i<length xs. \<exists>s. qemuAssignDeviceShmemAlias s (shmems d ! i) (of_nat i) = Inr (xs ! i)"
    by blast
  have "list_all2 (alias_assigned) (shmems d) xs"
  proof (rule list_all2_nthI)
    show "length (shmems d) = length xs" by (simp add: xs(2))
  next
    fix i assume "i < length xs"
    with xs(3) show "(alias_assigned) (shmems d ! i) (xs ! i)" by (auto dest: shmem_assigned)
  qed
  with xs(1) show ?thesis by blast
qed

lemma aliases_smartcards_summary:
  assumes "aliases_smartcards d = Inr d'"
  shows "\<exists>xs. d' = d\<lparr>smartcards := xs\<rparr> \<and> length xs = length (smartcards d)
           \<and> (\<forall>i<length xs. \<exists>s. qemuAssignDeviceSmartcardAlias (smartcards d ! i) (of_nat i) = Inr (xs ! i))"
  using for_loop_list_field [where get = smartcards and put = "\<lambda>xs d. d\<lparr>smartcards := xs\<rparr>"
      and f = "\<lambda>i s x. qemuAssignDeviceSmartcardAlias x (of_nat i)"
      and body = "\<lambda>i d. on_success (qemuAssignDeviceSmartcardAlias (smartcards d ! i) (of_nat i))
                (\<lambda>x. d\<lparr>smartcards := (smartcards d)[i := x]\<rparr>)"
      and ?s0.0 = d and s' = d']
    assms
  by (simp add: aliases_smartcards_def)

lemma aliases_smartcards_step:
  assumes "aliases_smartcards d = Inr d'"
  shows "\<exists>xs. d' = d\<lparr>smartcards := xs\<rparr> \<and> list_all2 (alias_assigned) (smartcards d) xs"
proof -
  from aliases_smartcards_summary [OF assms] obtain xs where xs: "d' = d\<lparr>smartcards := xs\<rparr>"
    "length xs = length (smartcards d)"
    "\<forall>i<length xs. \<exists>s. qemuAssignDeviceSmartcardAlias (smartcards d ! i) (of_nat i) = Inr (xs ! i)"
    by blast
  have "list_all2 (alias_assigned) (smartcards d) xs"
  proof (rule list_all2_nthI)
    show "length (smartcards d) = length xs" by (simp add: xs(2))
  next
    fix i assume "i < length xs"
    with xs(3) show "(alias_assigned) (smartcards d ! i) (xs ! i)" by (auto dest: smartcard_assigned)
  qed
  with xs(1) show ?thesis by blast
qed

lemma aliases_rngs_summary:
  assumes "aliases_rngs d = Inr d'"
  shows "\<exists>xs. d' = d\<lparr>rngs := xs\<rparr> \<and> length xs = length (rngs d)
           \<and> (\<forall>i<length xs. \<exists>s. qemuAssignDeviceRNGAlias s (rngs d ! i) = Inr (xs ! i))"
  using for_loop_list_field [where get = rngs and put = "\<lambda>xs d. d\<lparr>rngs := xs\<rparr>"
      and f = "\<lambda>i s x. qemuAssignDeviceRNGAlias s x"
      and body = "\<lambda>i d. on_success (qemuAssignDeviceRNGAlias d (rngs d ! i))
                (\<lambda>x. d\<lparr>rngs := (rngs d)[i := x]\<rparr>)"
      and ?s0.0 = d and s' = d']
    assms
  by (simp add: aliases_rngs_def)

lemma aliases_rngs_step:
  assumes "aliases_rngs d = Inr d'"
  shows "\<exists>xs. d' = d\<lparr>rngs := xs\<rparr> \<and> list_all2 (alias_assigned) (rngs d) xs"
proof -
  from aliases_rngs_summary [OF assms] obtain xs where xs: "d' = d\<lparr>rngs := xs\<rparr>"
    "length xs = length (rngs d)"
    "\<forall>i<length xs. \<exists>s. qemuAssignDeviceRNGAlias s (rngs d ! i) = Inr (xs ! i)"
    by blast
  have "list_all2 (alias_assigned) (rngs d) xs"
  proof (rule list_all2_nthI)
    show "length (rngs d) = length xs" by (simp add: xs(2))
  next
    fix i assume "i < length xs"
    with xs(3) show "(alias_assigned) (rngs d ! i) (xs ! i)" by (auto dest: rng_assigned)
  qed
  with xs(1) show ?thesis by blast
qed

lemma aliases_tpms_summary:
  assumes "aliases_tpms d = Inr d'"
  shows "\<exists>xs. d' = d\<lparr>tpms := xs\<rparr> \<and> length xs = length (tpms d)
           \<and> (\<forall>i<length xs. \<exists>s. qemuAssignDeviceTPMAlias (tpms d ! i) (of_nat i) = Inr (xs ! i))"
  using for_loop_list_field [where get = tpms and put = "\<lambda>xs d. d\<lparr>tpms := xs\<rparr>"
      and f = "\<lambda>i s x. qemuAssignDeviceTPMAlias x (of_nat i)"
      and body = "\<lambda>i d. on_success (qemuAssignDeviceTPMAlias (tpms d ! i) (of_nat i))
                (\<lambda>x. d\<lparr>tpms := (tpms d)[i := x]\<rparr>)"
      and ?s0.0 = d and s' = d']
    assms
  by (simp add: aliases_tpms_def)

lemma aliases_tpms_step:
  assumes "aliases_tpms d = Inr d'"
  shows "\<exists>xs. d' = d\<lparr>tpms := xs\<rparr> \<and> list_all2 (alias_assigned) (tpms d) xs"
proof -
  from aliases_tpms_summary [OF assms] obtain xs where xs: "d' = d\<lparr>tpms := xs\<rparr>"
    "length xs = length (tpms d)"
    "\<forall>i<length xs. \<exists>s. qemuAssignDeviceTPMAlias (tpms d ! i) (of_nat i) = Inr (xs ! i)"
    by blast
  have "list_all2 (alias_assigned) (tpms d) xs"
  proof (rule list_all2_nthI)
    show "length (tpms d) = length xs" by (simp add: xs(2))
  next
    fix i assume "i < length xs"
    with xs(3) show "(alias_assigned) (tpms d ! i) (xs ! i)" by (auto dest: tpm_assigned)
  qed
  with xs(1) show ?thesis by blast
qed

lemma aliases_mems_summary:
  assumes "aliases_mems d = Inr d'"
  shows "\<exists>xs. d' = d\<lparr>mems := xs\<rparr> \<and> length xs = length (mems d)
           \<and> (\<forall>i<length xs. \<exists>s. qemuAssignDeviceMemoryAlias s (mems d ! i) False = Inr (xs ! i))"
  using for_loop_list_field [where get = mems and put = "\<lambda>xs d. d\<lparr>mems := xs\<rparr>"
      and f = "\<lambda>i s x. qemuAssignDeviceMemoryAlias s x False"
      and body = "\<lambda>i d. on_success (qemuAssignDeviceMemoryAlias d (mems d ! i) False)
                (\<lambda>x. d\<lparr>mems := (mems d)[i := x]\<rparr>)"
      and ?s0.0 = d and s' = d']
    assms
  by (simp add: aliases_mems_def)

lemma aliases_mems_step:
  assumes "aliases_mems d = Inr d'"
  shows "\<exists>xs. d' = d\<lparr>mems := xs\<rparr> \<and> list_all2 (alias_assigned) (mems d) xs"
proof -
  from aliases_mems_summary [OF assms] obtain xs where xs: "d' = d\<lparr>mems := xs\<rparr>"
    "length xs = length (mems d)"
    "\<forall>i<length xs. \<exists>s. qemuAssignDeviceMemoryAlias s (mems d ! i) False = Inr (xs ! i)"
    by blast
  have "list_all2 (alias_assigned) (mems d) xs"
  proof (rule list_all2_nthI)
    show "length (mems d) = length xs" by (simp add: xs(2))
  next
    fix i assume "i < length xs"
    with xs(3) show "(alias_assigned) (mems d ! i) (xs ! i)" by (auto dest: memory_assigned)
  qed
  with xs(1) show ?thesis by blast
qed

subsection \<open>The host-device loop\<close>

lemma alias_assigned_trans: "alias_assigned x y \<Longrightarrow> alias_assigned y z \<Longrightarrow> alias_assigned x z"
  by (auto simp: alias_assigned_def set_alias_def alias_kept_def split: option.splits)

lemma alias_progress_refl [simp]: "alias_progress x x"
  by (simp add: alias_progress_def)

lemma alias_progress_trans: "alias_progress x y \<Longrightarrow> alias_progress y z \<Longrightarrow> alias_progress x z"
  by (auto simp: alias_progress_def dest: alias_assigned_trans)

lemma alias_assigned_progress: "alias_assigned x y \<Longrightarrow> alias_progress x y"
  by (simp add: alias_progress_def)

lemma alias_progress_kept:
  "alias_progress x y \<Longrightarrow> alias_kept (dev_alias (info x)) (dev_alias (info y))"
  by (auto simp: alias_progress_def alias_kept_def dest: alias_assigned_kept split: option.splits)

lemma alias_progress_has_alias: "alias_progress x y \<Longrightarrow> has_alias x \<Longrightarrow> has_alias y"
  using alias_progress_kept [of x y] by (auto simp: has_alias_def alias_kept_def)

lemma hostdev_progress_refl [simp]: "hostdev_progress h h"
  by (simp add: hostdev_progress_def)

lemma list_all2_refl_update:
  assumes "list_all2 P xs ys" "n < length ys" "P (xs ! n) y"
  shows "list_all2 P xs (ys[n := y])"
proof -
  from assms have "list_all2 P (xs[n := xs ! n]) (ys[n := y])"
    by (intro list_all2_update_cong) simp_all
  then show ?thesis by simp
qed

lemma hostdev_alias_Own [simp]:
  "info_ptr h = OwnInfo i \<Longrightarrow> hostdev_alias d h = dev_alias i"
  by (simp add: hostdev_alias_def hostdev_info_def)

lemma hostdev_alias_Net:
  "info_ptr h = NetInfo n \<Longrightarrow>
   hostdev_alias d h = (if n < length (nets d) then dev_alias (info (nets d ! n)) else None)"
  by (simp add: hostdev_alias_def hostdev_info_def)

lemma hostdev_alias_nets_cong: "nets d = nets d' \<Longrightarrow> hostdev_alias d h = hostdev_alias d' h"
  by (cases "info_ptr h") (simp_all add: hostdev_alias_Net)

lemma hostdev_alias_progress:
  assumes "list_all2 alias_progress (nets d) (nets d')"
  shows "alias_kept (hostdev_alias d h) (hostdev_alias d' h)"
proof (cases "info_ptr h")
  case (OwnInfo i)
  then show ?thesis by (simp add: alias_kept_def split: option.splits)
next
  case (NetInfo n)
  from assms have l: "length (nets d) = length (nets d')" by (rule list_all2_lengthD)
  show ?thesis
  proof (cases "n < length (nets d)")
    case True
    with assms have "alias_progress (nets d ! n) (nets d' ! n)" by (simp add: list_all2_nthD)
    from alias_progress_kept [OF this] True l NetInfo show ?thesis
      by (simp add: hostdev_alias_Net)
  next
    case False
    with l NetInfo show ?thesis by (simp add: hostdev_alias_Net alias_kept_def)
  qed
qed

lemma aliases_hostdevs_body_step:
  assumes b: "aliases_hostdevs_body j t = Inr t'" and j: "j < length (hostdevs t)"
  shows "\<exists>h ns. t' = t\<lparr>hostdevs := (hostdevs t)[j := h], nets := ns\<rparr>
           \<and> hostdev_progress (hostdevs t ! j) h
           \<and> list_all2 alias_progress (nets t) ns
           \<and> hostdev_alias t' h \<noteq> None"
proof (cases "info_ptr (hostdevs t ! j)")
  case (OwnInfo di)
  with b obtain a where a: "qemuAssignDeviceHostdevAlias t (dev_alias di) (- 1) = Inr a"
    and t': "t' = t\<lparr>hostdevs := (hostdevs t)
                 [j := (hostdevs t ! j)\<lparr>info_ptr := OwnInfo (di\<lparr>dev_alias := a\<rparr>)\<rparr>]\<rparr>"
    by (auto simp: aliases_hostdevs_body_def on_success_Inr)
  from hostdev_alias_assigned [OF a] obtain s where s: "a = Some s"
    and k: "alias_kept (dev_alias di) (Some s)" by auto
  let ?h = "(hostdevs t ! j)\<lparr>info_ptr := OwnInfo (di\<lparr>dev_alias := a\<rparr>)\<rparr>"
  have hp: "hostdev_progress (hostdevs t ! j) ?h"
  proof (cases "dev_alias di")
    case None
    with OwnInfo s show ?thesis by (auto simp: hostdev_progress_def)
  next
    case (Some s0)
    with k have "s = s0" by (simp add: alias_kept_def)
    with Some s have "di\<lparr>dev_alias := a\<rparr> = di\<lparr>dev_alias := dev_alias di\<rparr>" by simp
    then have "di\<lparr>dev_alias := a\<rparr> = di" by simp
    then have "?h = (hostdevs t ! j)\<lparr>info_ptr := info_ptr (hostdevs t ! j)\<rparr>"
      by (simp add: OwnInfo)
    then show ?thesis by (simp add: hostdev_progress_def)
  qed
  show ?thesis
  proof (intro exI [of _ ?h] exI [of _ "nets t"] conjI)
    show "t' = t\<lparr>hostdevs := (hostdevs t)[j := ?h], nets := nets t\<rparr>" by (simp add: t')
    show "hostdev_progress (hostdevs t ! j) ?h" by (rule hp)
    show "list_all2 alias_progress (nets t) (nets t)" by (simp add: list_all2_refl)
    show "hostdev_alias t' ?h \<noteq> None" by (simp add: s)
  qed
next
  case (NetInfo n)
  with b have n: "n < length (nets t)"
    by (auto simp: aliases_hostdevs_body_def split: if_splits)
  let ?x = "nets t ! n"
  from b NetInfo n obtain a where a: "qemuAssignDeviceHostdevAlias t (dev_alias (info ?x)) (- 1) = Inr a"
    and t': "t' = t\<lparr>nets := (nets t)[n := ?x\<lparr>info := (info ?x)\<lparr>dev_alias := a\<rparr>\<rparr>]\<rparr>"
    by (auto simp: aliases_hostdevs_body_def on_success_Inr)
  from hostdev_alias_assigned [OF a] obtain s where s: "a = Some s"
    and k: "alias_kept (dev_alias (info ?x)) (Some s)" by auto
  let ?y = "?x\<lparr>info := (info ?x)\<lparr>dev_alias := a\<rparr>\<rparr>"
  have "alias_assigned ?x ?y"
    unfolding alias_assigned_def using k s by (intro exI [of _ s]) (simp add: set_alias_def)
  then have ap: "alias_progress ?x ?y" by (rule alias_assigned_progress)
  show ?thesis
  proof (intro exI [of _ "hostdevs t ! j"] exI [of _ "(nets t)[n := ?y]"] conjI)
    show "t' = t\<lparr>hostdevs := (hostdevs t)[j := hostdevs t ! j], nets := (nets t)[n := ?y]\<rparr>"
      by (simp add: t')
    show "hostdev_progress (hostdevs t ! j) (hostdevs t ! j)" by simp
    show "list_all2 alias_progress (nets t) ((nets t)[n := ?y])"
      by (rule list_all2_refl_update) (simp_all add: list_all2_refl n ap)
    show "hostdev_alias t' (hostdevs t ! j) \<noteq> None"
      using NetInfo n by (simp add: hostdev_alias_Net t' s)
  qed
qed

lemma alias_kept_Some: "alias_kept a b \<Longrightarrow> a \<noteq> None \<Longrightarrow> b \<noteq> None"
  by (auto simp: alias_kept_def)

lemma aliases_hostdevs_step:
  assumes run: "aliases_hostdevs d = Inr d'"
  shows "\<exists>hs ns. d' = d\<lparr>hostdevs := hs, nets := ns\<rparr>
           \<and> list_all2 hostdev_progress (hostdevs d) hs
           \<and> list_all2 alias_progress (nets d) ns
           \<and> list_all (\<lambda>h. hostdev_alias d' h \<noteq> None) hs"
proof -
  let ?n = "length (hostdevs d)"
  let ?I = "\<lambda>j t. \<exists>hs ns. t = d\<lparr>hostdevs := hs, nets := ns\<rparr>
              \<and> list_all2 hostdev_progress (hostdevs d) hs
              \<and> list_all2 alias_progress (nets d) ns
              \<and> (\<forall>i<j. hostdev_alias t (hs ! i) \<noteq> None)
              \<and> (\<forall>i. j \<le> i \<and> i < length hs \<longrightarrow> hs ! i = hostdevs d ! i)"
  have init: "?I 0 d"
    by (intro exI [of _ "hostdevs d"] exI [of _ "nets d"]) (simp add: list_all2_refl)
  have "?I (0 + ?n) d'"
  proof (rule for_loop_invariant [where I = ?I, OF run [unfolded aliases_hostdevs_def] init])
    fix j t t'
    assume j: "0 \<le> j" "j < 0 + ?n" and inv: "?I j t" and b: "aliases_hostdevs_body j t = Inr t'"
    from inv obtain hs ns where t: "t = d\<lparr>hostdevs := hs, nets := ns\<rparr>"
      and hp: "list_all2 hostdev_progress (hostdevs d) hs"
      and np: "list_all2 alias_progress (nets d) ns"
      and dn: "\<forall>i<j. hostdev_alias t (hs ! i) \<noteq> None"
      and rest: "\<forall>i. j \<le> i \<and> i < length hs \<longrightarrow> hs ! i = hostdevs d ! i"
      by blast
    have lh: "length hs = ?n" using hp by (simp add: list_all2_lengthD)
    have ht: "hostdevs t = hs" "nets t = ns" by (simp_all add: t)
    from j lh have jt: "j < length (hostdevs t)" by (simp add: ht)
    from aliases_hostdevs_body_step [OF b jt] obtain h ns'
      where t': "t' = t\<lparr>hostdevs := (hostdevs t)[j := h], nets := ns'\<rparr>"
        and h: "hostdev_progress (hostdevs t ! j) h"
        and ns': "list_all2 alias_progress (nets t) ns'"
        and a: "hostdev_alias t' h \<noteq> None"
      by blast
    have nn: "list_all2 alias_progress (nets t) (nets t')" using ns' by (simp add: t')
    show "?I (Suc j) t'"
    proof (intro exI [of _ "hs[j := h]"] exI [of _ ns'] conjI allI impI)
      show "t' = d\<lparr>hostdevs := hs[j := h], nets := ns'\<rparr>" by (simp add: t' t)
      show "list_all2 hostdev_progress (hostdevs d) (hs[j := h])"
      proof (rule list_all2_refl_update [OF hp])
        show "j < length hs" using j lh by simp
        show "hostdev_progress (hostdevs d ! j) h"
          using h rest j lh by (simp add: ht)
      qed
      show "list_all2 alias_progress (nets d) ns'"
        using np ns' alias_progress_trans
        by (auto simp: ht intro: list_all2_trans [of alias_progress alias_progress alias_progress])
    next
      fix i assume "i < Suc j"
      then consider "i < j" | "i = j" by linarith
      then show "hostdev_alias t' (hs[j := h] ! i) \<noteq> None"
      proof cases
        case 1
        then have "hs[j := h] ! i = hs ! i" by simp
        moreover have "hostdev_alias t' (hs ! i) \<noteq> None"
          using alias_kept_Some [OF hostdev_alias_progress [OF nn, of "hs ! i"]] dn 1 by simp
        ultimately show ?thesis by simp
      next
        case 2
        with a j lh show ?thesis by simp
      qed
    next
      fix i assume "Suc j \<le> i \<and> i < length (hs[j := h])"
      with rest show "hs[j := h] ! i = hostdevs d ! i" by simp
    qed
  qed
  then obtain hs ns where r: "d' = d\<lparr>hostdevs := hs, nets := ns\<rparr>"
      "list_all2 hostdev_progress (hostdevs d) hs"
      "list_all2 alias_progress (nets d) ns"
      "\<forall>i<?n. hostdev_alias d' (hs ! i) \<noteq> None"
    by auto
  from r(2) have "length hs = ?n" by (simp add: list_all2_lengthD)
  with r(4) have "list_all (\<lambda>h. hostdev_alias d' h \<noteq> None) hs"
    by (simp add: list_all_length)
  with r show ?thesis by blast
qed

lemma aliases_watchdog_step:
  assumes "aliases_watchdog d = Inr d'"
  shows "\<exists>w. d' = d\<lparr>watchdog := w\<rparr> \<and> rel_option alias_assigned (watchdog d) w"
proof (cases "watchdog d")
  case None
  with assms have "d' = d\<lparr>watchdog := None\<rparr>" by (simp add: aliases_watchdog_def)
  with None show ?thesis by (intro exI [of _ None]) simp
next
  case (Some w)
  with assms obtain y where "qemuAssignDeviceWatchdogAlias w = Inr y" "d' = d\<lparr>watchdog := Some y\<rparr>"
    by (auto simp: aliases_watchdog_def on_success_Inr)
  with Some show ?thesis by (intro exI [of _ "Some y"]) (simp add: watchdog_assigned)
qed

lemma aliases_vsock_step:
  assumes "aliases_vsock d = Inr d'"
  shows "\<exists>w. d' = d\<lparr>vsock := w\<rparr> \<and> rel_option alias_assigned (vsock d) w"
proof (cases "vsock d")
  case None
  with assms have "d' = d\<lparr>vsock := None\<rparr>" by (simp add: aliases_vsock_def)
  with None show ?thesis by (intro exI [of _ None]) simp
next
  case (Some w)
  with assms obtain y where "qemuAssignDeviceVsockAlias w = Inr y" "d' = d\<lparr>vsock := Some y\<rparr>"
    by (auto simp: aliases_vsock_def on_success_Inr)
  with Some show ?thesis by (intro exI [of _ "Some y"]) (simp add: vsock_assigned)
qed

lemma aliases_memballoon_step:
  assumes "aliases_memballoon d = Inr d'"
  shows "\<exists>w. d' = d\<lparr>memballoon := w\<rparr> \<and> rel_option balloon_assigned (memballoon d) w"
proof (cases "memballoon d")
  case None
  with assms have "d' = d\<lparr>memballoon := None\<rparr>" by (simp add: aliases_memballoon_def)
  with None show ?thesis by (intro exI [of _ None]) simp
next
  case (Some w)
  show ?thesis
  proof (cases "balloon_model w = VIR_DOMAIN_MEMBALLOON_MODEL_NONE")
    case True
    with assms Some have "d' = d\<lparr>memballoon := Some w\<rparr>" by (simp add: aliases_memballoon_def)
    with Some True show ?thesis by (intro exI [of _ "Some w"]) (simp add: balloon_assigned_def)
  next
    case False
    with assms Some obtain y where "qemuAssignDeviceMemballoonAlias w 0 = Inr y"
      "d' = d\<lparr>memballoon := Some y\<rparr>"
      by (auto simp: aliases_memballoon_def on_success_Inr)
    with Some False show ?thesis
      by (intro exI [of _ "Some y"]) (simp add: balloon_assigned_def memballoon_assigned)
  qed
qed

subsection \<open>The pass as a whole\<close>

lemma list_all2_assigned: "list_all2 alias_assigned xs ys \<Longrightarrow> list_all has_alias ys"
  by (auto simp: list_all2_conv_all_nth list_all_length dest: alias_assigned_has_alias)

lemma list_all2_progress_assigned:
  "list_all2 alias_progress xs ys \<Longrightarrow> list_all has_alias xs \<Longrightarrow> list_all has_alias ys"
  by (simp add: list_all2_conv_all_nth list_all_length) (metis alias_progress_has_alias)

lemma list_all2_assigned_kept:
  "list_all2 alias_assigned xs ys \<Longrightarrow> list_all2 alias_kept (aliases_of xs) (aliases_of ys)"
  by (auto simp: list_all2_conv_all_nth aliases_of_def dest: alias_assigned_kept)

lemma list_all2_progress_kept:
  "list_all2 alias_progress xs ys \<Longrightarrow> list_all2 alias_kept (aliases_of xs) (aliases_of ys)"
  by (auto simp: list_all2_conv_all_nth aliases_of_def dest: alias_progress_kept)

lemma disk_assigned_settled: "disk_assigned X qemuCaps x y \<Longrightarrow> disk_settled X qemuCaps y"
  by (auto simp: disk_assigned_def disk_settled_def disk_assign_qomName_idem has_alias_def
        dest: alias_assigned_has_alias)

lemma disk_assigned_kept:
  "disk_assigned X qemuCaps x y \<Longrightarrow> alias_kept (dev_alias (info x)) (dev_alias (info y))"
  by (auto simp: disk_assigned_def dest: alias_assigned_kept)

lemma list_all2_disk_settled:
  "list_all2 (disk_assigned X qemuCaps) xs ys \<Longrightarrow> list_all (disk_settled X qemuCaps) ys"
  by (auto simp: list_all2_conv_all_nth list_all_length dest: disk_assigned_settled)

lemma list_all2_disk_kept:
  "list_all2 (disk_assigned X qemuCaps) xs ys \<Longrightarrow> list_all2 alias_kept (aliases_of xs) (aliases_of ys)"
  by (auto simp: list_all2_conv_all_nth aliases_of_def dest: disk_assigned_kept)

lemma list_all_disk_settled_has_alias:
  "list_all (disk_settled X qemuCaps) ys \<Longrightarrow> list_all has_alias ys"
  by (auto simp: list_all_iff disk_settled_def)

lemma alias_kept_refl [simp]: "alias_kept a a"
  by (simp add: alias_kept_def split: option.split)

lemma alias_kept_trans: "alias_kept a b \<Longrightarrow> alias_kept b c \<Longrightarrow> alias_kept a c"
  by (auto simp: alias_kept_def split: option.splits)

lemma list_all2_alias_kept_refl [simp]: "list_all2 alias_kept xs xs"
  by (simp add: list_all2_refl)

lemma aliases_kept_refl [simp]: "aliases_kept v v"
  by (simp add: aliases_kept_def list_all2_refl)

lemma aliases_kept_trans: "aliases_kept u v \<Longrightarrow> aliases_kept v w \<Longrightarrow> aliases_kept u w"
  unfolding aliases_kept_def
  by (erule list_all2_trans [rotated], assumption)
     (erule list_all2_trans [rotated], assumption, rule alias_kept_trans)

lemma hostdev_aliases_kept:
  "list_all2 alias_progress (nets d) (nets d') \<Longrightarrow>
   list_all2 alias_kept (map (hostdev_alias d) hs) (map (hostdev_alias d') hs)"
  by (simp add: list_all2_conv_all_nth hostdev_alias_progress)

lemma hostdev_progress_kept:
  assumes "hostdev_progress h h'" "list_all2 alias_progress (nets d) (nets d')"
  shows "alias_kept (hostdev_alias d h) (hostdev_alias d' h')"
proof -
  from assms(1) consider "h' = h"
    | i a where "info_ptr h = OwnInfo i" "dev_alias i = None"
        "h' = h\<lparr>info_ptr := OwnInfo (i\<lparr>dev_alias := Some a\<rparr>)\<rparr>"
    by (auto simp: hostdev_progress_def)
  then show ?thesis
  proof cases
    case 1
    then show ?thesis by (simp add: hostdev_alias_progress [OF assms(2)])
  next
    case 2
    then show ?thesis by (simp add: alias_kept_def)
  qed
qed

lemma rel_option_assigned:
  "rel_option alias_assigned w w' \<Longrightarrow> list_all has_alias (option_list w')"
  by (cases w; cases w') (auto simp: option_list_def dest: alias_assigned_has_alias)

lemma rel_option_assigned_kept:
  "rel_option alias_assigned w w' \<Longrightarrow>
   list_all2 alias_kept (aliases_of (option_list w)) (aliases_of (option_list w'))"
  by (cases w; cases w') (auto simp: option_list_def aliases_of_def dest: alias_assigned_kept)

lemma balloon_assigned_model: "balloon_assigned x y \<Longrightarrow> balloon_model y = balloon_model x"
  by (auto simp: balloon_assigned_def alias_assigned_def set_alias_def split: if_splits)

lemma rel_option_balloon_assigned:
  "rel_option balloon_assigned w w' \<Longrightarrow>
   list_all (\<lambda>b. balloon_model b = VIR_DOMAIN_MEMBALLOON_MODEL_NONE \<or> has_alias b) (option_list w')"
  by (cases w; cases w')
     (auto simp: option_list_def balloon_assigned_def dest: alias_assigned_has_alias
        split: if_splits)

lemma rel_option_balloon_kept:
  "rel_option balloon_assigned w w' \<Longrightarrow>
   list_all2 alias_kept (aliases_of (option_list w)) (aliases_of (option_list w'))"
  by (cases w; cases w')
     (auto simp: option_list_def aliases_of_def balloon_assigned_def dest: alias_assigned_kept
        split: if_splits)

lemma hostdev_alias_disks_update [simp]: "hostdev_alias (d\<lparr>disks := v\<rparr>) = hostdev_alias d"
  by (rule ext) (rule hostdev_alias_nets_cong, simp)

lemma hostdev_alias_fss_update [simp]: "hostdev_alias (d\<lparr>fss := v\<rparr>) = hostdev_alias d"
  by (rule ext) (rule hostdev_alias_nets_cong, simp)

lemma hostdev_alias_sounds_update [simp]: "hostdev_alias (d\<lparr>sounds := v\<rparr>) = hostdev_alias d"
  by (rule ext) (rule hostdev_alias_nets_cong, simp)

lemma hostdev_alias_hostdevs_update [simp]: "hostdev_alias (d\<lparr>hostdevs := v\<rparr>) = hostdev_alias d"
  by (rule ext) (rule hostdev_alias_nets_cong, simp)

lemma hostdev_alias_redirdevs_update [simp]: "hostdev_alias (d\<lparr>redirdevs := v\<rparr>) = hostdev_alias d"
  by (rule ext) (rule hostdev_alias_nets_cong, simp)

lemma hostdev_alias_videos_update [simp]: "hostdev_alias (d\<lparr>videos := v\<rparr>) = hostdev_alias d"
  by (rule ext) (rule hostdev_alias_nets_cong, simp)

lemma hostdev_alias_controllers_update [simp]: "hostdev_alias (d\<lparr>controllers := v\<rparr>) = hostdev_alias d"
  by (rule ext) (rule hostdev_alias_nets_cong, simp)

lemma hostdev_alias_inputs_update [simp]: "hostdev_alias (d\<lparr>inputs := v\<rparr>) = hostdev_alias d"
  by (rule ext) (rule hostdev_alias_nets_cong, simp)

lemma hostdev_alias_parallels_update [simp]: "hostdev_alias (d\<lparr>parallels := v\<rparr>) = hostdev_alias d"
  by (rule ext) (rule hostdev_alias_nets_cong, simp)

lemma hostdev_alias_serials_update [simp]: "hostdev_alias (d\<lparr>serials := v\<rparr>) = hostdev_alias d"
  by (rule ext) (rule hostdev_alias_nets_cong, simp)

lemma hostdev_alias_channels_update [simp]: "hostdev_alias (d\<lparr>channels := v\<rparr>) = hostdev_alias d"
  by (rule ext) (rule hostdev_alias_nets_cong, simp)

lemma hostdev_alias_consoles_update [simp]: "hostdev_alias (d\<lparr>consoles := v\<rparr>) = hostdev_alias d"
  by (rule ext) (rule hostdev_alias_nets_cong, simp)

lemma hostdev_alias_hubs_update [simp]: "hostdev_alias (d\<lparr>hubs := v\<rparr>) = hostdev_alias d"
  by (rule ext) (rule hostdev_alias_nets_cong, simp)

lemma hostdev_alias_shmems_update [simp]: "hostdev_alias (d\<lparr>shmems := v\<rparr>) = hostdev_alias d"
  by (rule ext) (rule hostdev_alias_nets_cong, simp)

lemma hostdev_alias_smartcards_update [simp]: "hostdev_alias (d\<lparr>smartcards := v\<rparr>) = hostdev_alias d"
  by (rule ext) (rule hostdev_alias_nets_cong, simp)

lemma hostdev_alias_watchdog_update [simp]: "hostdev_alias (d\<lparr>watchdog := v\<rparr>) = hostdev_alias d"
  by (rule ext) (rule hostdev_alias_nets_cong, simp)

lemma hostdev_alias_memballoon_update [simp]: "hostdev_alias (d\<lparr>memballoon := v\<rparr>) = hostdev_alias d"
  by (rule ext) (rule hostdev_alias_nets_cong, simp)

lemma hostdev_alias_rngs_update [simp]: "hostdev_alias (d\<lparr>rngs := v\<rparr>) = hostdev_alias d"
  by (rule ext) (rule hostdev_alias_nets_cong, simp)

lemma hostdev_alias_tpms_update [simp]: "hostdev_alias (d\<lparr>tpms := v\<rparr>) = hostdev_alias d"
  by (rule ext) (rule hostdev_alias_nets_cong, simp)

lemma hostdev_alias_mems_update [simp]: "hostdev_alias (d\<lparr>mems := v\<rparr>) = hostdev_alias d"
  by (rule ext) (rule hostdev_alias_nets_cong, simp)

lemma hostdev_alias_vsock_update [simp]: "hostdev_alias (d\<lparr>vsock := v\<rparr>) = hostdev_alias d"
  by (rule ext) (rule hostdev_alias_nets_cong, simp)

lemma pass_facts:
  assumes run: "qemuAssignDeviceAliases X def qemuCaps = Inr def'"
  shows "all_assigned def' \<and> list_all (disk_settled X qemuCaps) (disks def')
       \<and> aliases_kept (device_aliases def) (device_aliases def')"
proof -
  from run obtain d1 d2 d3 d4 d5 d6 d7 d8 d9 d10 d11 d12 d13 d14 d15 d16 d17 d18 d19 d20 d21 where
    p1: "aliases_disks X qemuCaps def = Inr d1" and
    p2: "aliases_nets X d1 = Inr d2" and
    p3: "aliases_fss d2 = Inr d3" and
    p4: "aliases_sounds d3 = Inr d4" and
    p5: "aliases_hostdevs d4 = Inr d5" and
    p6: "aliases_redirdevs d5 = Inr d6" and
    p7: "aliases_videos d6 = Inr d7" and
    p8: "aliases_controllers X qemuCaps d7 = Inr d8" and
    p9: "aliases_inputs d8 = Inr d9" and
    p10: "aliases_parallels d9 = Inr d10" and
    p11: "aliases_serials d10 = Inr d11" and
    p12: "aliases_channels d11 = Inr d12" and
    p13: "aliases_consoles d12 = Inr d13" and
    p14: "aliases_hubs d13 = Inr d14" and
    p15: "aliases_shmems d14 = Inr d15" and
    p16: "aliases_smartcards d15 = Inr d16" and
    p17: "aliases_watchdog d16 = Inr d17" and
    p18: "aliases_memballoon d17 = Inr d18" and
    p19: "aliases_rngs d18 = Inr d19" and
    p20: "aliases_tpms d19 = Inr d20" and
    p21: "aliases_mems d20 = Inr d21" and
    p22: "aliases_vsock d21 = Inr def'"
    unfolding qemuAssignDeviceAliases_def run_phases_Cons_Inr by auto
  have k0: "aliases_kept (device_aliases def) (device_aliases def)" by simp
  from aliases_disks_step [OF p1] obtain xs1 where e1: "d1 = def\<lparr>disks := xs1\<rparr>"
    and r1: "list_all2 (disk_assigned X qemuCaps) (disks def) xs1" by blast
  have a1: "list_all has_alias (disks d1)
      \<and> list_all (disk_settled X qemuCaps) (disks d1)"
    using list_all2_disk_settled [OF r1]
    by (simp add: e1 list_all_disk_settled_has_alias)
  have s1: "aliases_kept (device_aliases def) (device_aliases d1)"
    using list_all2_disk_kept [OF r1]
    by (simp add: e1 device_aliases_def aliases_kept_def)
  have k1: "aliases_kept (device_aliases def) (device_aliases d1)"
    by (rule aliases_kept_trans [OF k0 s1])
  from aliases_nets_step [OF p2] obtain xs2 where e2: "d2 = d1\<lparr>nets := xs2\<rparr>"
    and r2: "list_all2 alias_assigned (nets d1) xs2" by blast
  have n2: "list_all2 alias_progress (nets d1) (nets d2)"
    using r2 by (simp add: e2 list_all2_conv_all_nth alias_assigned_progress)
  have a2: "list_all has_alias (disks d2)
      \<and> list_all has_alias (nets d2)
      \<and> list_all (disk_settled X qemuCaps) (disks d2)"
    using a1 list_all2_assigned [OF r2] by (simp add: e2)
  have s2: "aliases_kept (device_aliases d1) (device_aliases d2)"
    using list_all2_assigned_kept [OF r2] hostdev_aliases_kept [OF n2, of "hostdevs d1"]
    by (simp add: e2 device_aliases_def aliases_kept_def)
  have k2: "aliases_kept (device_aliases def) (device_aliases d2)"
    by (rule aliases_kept_trans [OF k1 s2])
  from aliases_fss_step [OF p3] obtain xs3 where e3: "d3 = d2\<lparr>fss := xs3\<rparr>"
    and r3: "list_all2 alias_assigned (fss d2) xs3" by blast
  have a3: "list_all has_alias (disks d3)
      \<and> list_all has_alias (nets d3)
      \<and> list_all has_alias (fss d3)
      \<and> list_all (disk_settled X qemuCaps) (disks d3)"
    using a2 list_all2_assigned [OF r3] by (simp add: e3)
  have s3: "aliases_kept (device_aliases d2) (device_aliases d3)"
    using list_all2_assigned_kept [OF r3]
    by (simp add: e3 device_aliases_def aliases_kept_def)
  have k3: "aliases_kept (device_aliases def) (device_aliases d3)"
    by (rule aliases_kept_trans [OF k2 s3])
  from aliases_sounds_step [OF p4] obtain xs4 where e4: "d4 = d3\<lparr>sounds := xs4\<rparr>"
    and r4: "list_all2 alias_assigned (sounds d3) xs4" by blast
  have a4: "list_all has_alias (disks d4)
      \<and> list_all has_alias (nets d4)
      \<and> list_all has_alias (fss d4)
      \<and> list_all has_alias (sounds d4)
      \<and> list_all (disk_settled X qemuCaps) (disks d4)"
    using a3 list_all2_assigned [OF r4] by (simp add: e4)
  have s4: "aliases_kept (device_aliases d3) (device_aliases d4)"
    using list_all2_assigned_kept [OF r4]
    by (simp add: e4 device_aliases_def aliases_kept_def)
  have k4: "aliases_kept (device_aliases def) (device_aliases d4)"
    by (rule aliases_kept_trans [OF k3 s4])
  from aliases_hostdevs_step [OF p5] obtain hs ns where e5: "d5 = d4\<lparr>hostdevs := hs, nets := ns\<rparr>"
    and r5: "list_all2 hostdev_progress (hostdevs d4) hs" "list_all2 alias_progress (nets d4) ns"
      "list_all (\<lambda>h. hostdev_alias d5 h \<noteq> None) hs"
    by blast
  have n5: "list_all2 alias_progress (nets d4) (nets d5)" using r5(2) by (simp add: e5)
  have a5: "list_all has_alias (disks d5)
      \<and> list_all has_alias (nets d5)
      \<and> list_all has_alias (fss d5)
      \<and> list_all has_alias (sounds d5)
      \<and> list_all (\<lambda>h. hostdev_alias d5 h \<noteq> None) (hostdevs d5)
      \<and> list_all (disk_settled X qemuCaps) (disks d5)"
    using a4 r5(3) list_all2_progress_assigned [OF r5(2)] by (simp add: e5)
  have hk5: "list_all2 alias_kept (map (hostdev_alias d4) (hostdevs d4)) (map (hostdev_alias d5) hs)"
    using r5(1) hostdev_progress_kept [OF _ n5]
    by (simp add: list_all2_conv_all_nth)
  have s5: "aliases_kept (device_aliases d4) (device_aliases d5)"
    using hk5 list_all2_progress_kept [OF r5(2)]
    by (simp add: e5 device_aliases_def aliases_kept_def)
  have k5: "aliases_kept (device_aliases def) (device_aliases d5)"
    by (rule aliases_kept_trans [OF k4 s5])
  from aliases_redirdevs_step [OF p6] obtain xs6 where e6: "d6 = d5\<lparr>redirdevs := xs6\<rparr>"
    and r6: "list_all2 alias_assigned (redirdevs d5) xs6" by blast
  have a6: "list_all has_alias (disks d6)
      \<and> list_all has_alias (nets d6)
      \<and> list_all has_alias (fss d6)
      \<and> list_all has_alias (sounds d6)
      \<and> list_all (\<lambda>h. hostdev_alias d6 h \<noteq> None) (hostdevs d6)
      \<and> list_all has_alias (redirdevs d6)
      \<and> list_all (disk_settled X qemuCaps) (disks d6)"
    using a5 list_all2_assigned [OF r6] by (simp add: e6)
  have s6: "aliases_kept (device_aliases d5) (device_aliases d6)"
    using list_all2_assigned_kept [OF r6]
    by (simp add: e6 device_aliases_def aliases_kept_def)
  have k6: "aliases_kept (device_aliases def) (device_aliases d6)"
    by (rule aliases_kept_trans [OF k5 s6])
  from aliases_videos_step [OF p7] obtain xs7 where e7: "d7 = d6\<lparr>videos := xs7\<rparr>"
    and r7: "list_all2 alias_assigned (videos d6) xs7" by blast
  have a7: "list_all has_alias (disks d7)
      \<and> list_all has_alias (nets d7)
      \<and> list_all has_alias (fss d7)
      \<and> list_all has_alias (sounds d7)
      \<and> list_all (\<lambda>h. hostdev_alias d7 h \<noteq> None) (hostdevs d7)
      \<and> list_all has_alias (redirdevs d7)
      \<and> list_all has_alias (videos d7)
      \<and> list_all (disk_settled X qemuCaps) (disks d7)"
    using a6 list_all2_assigned [OF r7] by (simp add: e7)
  have s7: "aliases_kept (device_aliases d6) (device_aliases d7)"
    using list_all2_assigned_kept [OF r7]
    by (simp add: e7 device_aliases_def aliases_kept_def)
  have k7: "aliases_kept (device_aliases def) (device_aliases d7)"
    by (rule aliases_kept_trans [OF k6 s7])
  from aliases_controllers_step [OF p8] obtain xs8 where e8: "d8 = d7\<lparr>controllers := xs8\<rparr>"
    and r8: "list_all2 alias_assigned (controllers d7) xs8" by blast
  have a8: "list_all has_alias (disks d8)
      \<and> list_all has_alias (nets d8)
      \<and> list_all has_alias (fss d8)
      \<and> list_all has_alias (sounds d8)
      \<and> list_all (\<lambda>h. hostdev_alias d8 h \<noteq> None) (hostdevs d8)
      \<and> list_all has_alias (redirdevs d8)
      \<and> list_all has_alias (videos d8)
      \<and> list_all has_alias (controllers d8)
      \<and> list_all (disk_settled X qemuCaps) (disks d8)"
    using a7 list_all2_assigned [OF r8] by (simp add: e8)
  have s8: "aliases_kept (device_aliases d7) (device_aliases d8)"
    using list_all2_assigned_kept [OF r8]
    by (simp add: e8 device_aliases_def aliases_kept_def)
  have k8: "aliases_kept (device_aliases def) (device_aliases d8)"
    by (rule aliases_kept_trans [OF k7 s8])
  from aliases_inputs_step [OF p9] obtain xs9 where e9: "d9 = d8\<lparr>inputs := xs9\<rparr>"
    and r9: "list_all2 alias_assigned (inputs d8) xs9" by blast
  have a9: "list_all has_alias (disks d9)
      \<and> list_all has_alias (nets d9)
      \<and> list_all has_alias (fss d9)
      \<and> list_all has_alias (sounds d9)
      \<and> list_all (\<lambda>h. hostdev_alias d9 h \<noteq> None) (hostdevs d9)
      \<and> list_all has_alias (redirdevs d9)
      \<and> list_all has_alias (videos d9)
      \<and> list_all has_alias (controllers d9)
      \<and> list_all has_alias (inputs d9)
      \<and> list_all (disk_settled X qemuCaps) (disks d9)"
    using a8 list_all2_assigned [OF r9] by (simp add: e9)
  have s9: "aliases_kept (device_aliases d8) (device_aliases d9)"
    using list_all2_assigned_kept [OF r9]
    by (simp add: e9 device_aliases_def aliases_kept_def)
  have k9: "aliases_kept (device_aliases def) (device_aliases d9)"
    by (rule aliases_kept_trans [OF k8 s9])
  from aliases_parallels_step [OF p10] obtain xs10 where e10: "d10 = d9\<lparr>parallels := xs10\<rparr>"
    and r10: "list_all2 alias_assigned (parallels d9) xs10" by blast
  have a10: "list_all has_alias (disks d10)
      \<and> list_all has_alias (nets d10)
      \<and> list_all has_alias (fss d10)
      \<and> list_all has_alias (sounds d10)
      \<and> list_all (\<lambda>h. hostdev_alias d10 h \<noteq> None) (hostdevs d10)
      \<and> list_all has_alias (redirdevs d10)
      \<and> list_all has_alias (videos d10)
      \<and> list_all has_alias (controllers d10)
      \<and> list_all has_alias (inputs d10)
      \<and> list_all has_alias (parallels d10)
      \<and> list_all (disk_settled X qemuCaps) (disks d10)"
    using a9 list_all2_assigned [OF r10] by (simp add: e10)
  have s10: "aliases_kept (device_aliases d9) (device_aliases d10)"
    using list_all2_assigned_kept [OF r10]
    by (simp add: e10 device_aliases_def aliases_kept_def)
  have k10: "aliases_kept (device_aliases def) (device_aliases d10)"
    by (rule aliases_kept_trans [OF k9 s10])
  from aliases_serials_step [OF p11] obtain xs11 where e11: "d11 = d10\<lparr>serials := xs11\<rparr>"
    and r11: "list_all2 alias_assigned (serials d10) xs11" by blast
  have a11: "list_all has_alias (disks d11)
      \<and> list_all has_alias (nets d11)
      \<and> list_all has_alias (fss d11)
      \<and> list_all has_alias (sounds d11)
      \<and> list_all (\<lambda>h. hostdev_alias d11 h \<noteq> None) (hostdevs d11)
      \<and> list_all has_alias (redirdevs d11)
      \<and> list_all has_alias (videos d11)
      \<and> list_all has_alias (controllers d11)
      \<and> list_all has_alias (inputs d11)
      \<and> list_all has_alias (parallels d11)
      \<and> list_all has_alias (serials d11)
      \<and> list_all (disk_settled X qemuCaps) (disks d11)"
    using a10 list_all2_assigned [OF r11] by (simp add: e11)
  have s11: "aliases_kept (device_aliases d10) (device_aliases d11)"
    using list_all2_assigned_kept [OF r11]
    by (simp add: e11 device_aliases_def aliases_kept_def)
  have k11: "aliases_kept (device_aliases def) (device_aliases d11)"
    by (rule aliases_kept_trans [OF k10 s11])
  from aliases_channels_step [OF p12] obtain xs12 where e12: "d12 = d11\<lparr>channels := xs12\<rparr>"
    and r12: "list_all2 alias_assigned (channels d11) xs12" by blast
  have a12: "list_all has_alias (disks d12)
      \<and> list_all has_alias (nets d12)
      \<and> list_all has_alias (fss d12)
      \<and> list_all has_alias (sounds d12)
      \<and> list_all (\<lambda>h. hostdev_alias d12 h \<noteq> None) (hostdevs d12)
      \<and> list_all has_alias (redirdevs d12)
      \<and> list_all has_alias (videos d12)
      \<and> list_all has_alias (controllers d12)
      \<and> list_all has_alias (inputs d12)
      \<and> list_all has_alias (parallels d12)
      \<and> list_all has_alias (serials d12)
      \<and> list_all has_alias (channels d12)
      \<and> list_all (disk_settled X qemuCaps) (disks d12)"
    using a11 list_all2_assigned [OF r12] by (simp add: e12)
  have s12: "aliases_kept (device_aliases d11) (device_aliases d12)"
    using list_all2_assigned_kept [OF r12]
    by (simp add: e12 device_aliases_def aliases_kept_def)
  have k12: "aliases_kept (device_aliases def) (device_aliases d12)"
    by (rule aliases_kept_trans [OF k11 s12])
  from aliases_consoles_step [OF p13] obtain xs13 where e13: "d13 = d12\<lparr>consoles := xs13\<rparr>"
    and r13: "list_all2 alias_assigned (consoles d12) xs13" by blast
  have a13: "list_all has_alias (disks d13)
      \<and> list_all has_alias (nets d13)
      \<and> list_all has_alias (fss d13)
      \<and> list_all has_alias (sounds d13)
      \<and> list_all (\<lambda>h. hostdev_alias d13 h \<noteq> None) (hostdevs d13)
      \<and> list_all has_alias (redirdevs d13)
      \<and> list_all has_alias (videos d13)
      \<and> list_all has_alias (controllers d13)
      \<and> list_all has_alias (inputs d13)
      \<and> list_all has_alias (parallels d13)
      \<and> list_all has_alias (serials d13)
      \<and> list_all has_alias (channels d13)
      \<and> list_all has_alias (consoles d13)
      \<and> list_all (disk_settled X qemuCaps) (disks d13)"
    using a12 list_all2_assigned [OF r13] by (simp add: e13)
  have s13: "aliases_kept (device_aliases d12) (device_aliases d13)"
    using list_all2_assigned_kept [OF r13]
    by (simp add: e13 device_aliases_def aliases_kept_def)
  have k13: "aliases_kept (device_aliases def) (device_aliases d13)"
    by (rule aliases_kept_trans [OF k12 s13])
  from aliases_hubs_step [OF p14] obtain xs14 where e14: "d14 = d13\<lparr>hubs := xs14\<rparr>"
    and r14: "list_all2 alias_assigned (hubs d13) xs14" by blast
  have a14: "list_all has_alias (disks d14)
      \<and> list_all has_alias (nets d14)
      \<and> list_all has_alias (fss d14)
      \<and> list_all has_alias (sounds d14)
      \<and> list_all (\<lambda>h. hostdev_alias d14 h \<noteq> None) (hostdevs d14)
      \<and> list_all has_alias (redirdevs d14)
      \<and> list_all has_alias (videos d14)
      \<and> list_all has_alias (controllers d14)
      \<and> list_all has_alias (inputs d14)
      \<and> list_all has_alias (parallels d14)
      \<and> list_all has_alias (serials d14)
      \<and> list_all has_alias (channels d14)
      \<and> list_all has_alias (consoles d14)
      \<and> list_all has_alias (hubs d14)
      \<and> list_all (disk_settled X qemuCaps) (disks d14)"
    using a13 list_all2_assigned [OF r14] by (simp add: e14)
  have s14: "aliases_kept (device_aliases d13) (device_aliases d14)"
    using list_all2_assigned_kept [OF r14]
    by (simp add: e14 device_aliases_def aliases_kept_def)
  have k14: "aliases_kept (device_aliases def) (device_aliases d14)"
    by (rule aliases_kept_trans [OF k13 s14])
  from aliases_shmems_step [OF p15] obtain xs15 where e15: "d15 = d14\<lparr>shmems := xs15\<rparr>"
    and r15: "list_all2 alias_assigned (shmems d14) xs15" by blast
  have a15: "list_all has_alias (disks d15)
      \<and> list_all has_alias (nets d15)
      \<and> list_all has_alias (fss d15)
      \<and> list_all has_alias (sounds d15)
      \<and> list_all (\<lambda>h. hostdev_alias d15 h \<noteq> None) (hostdevs d15)
      \<and> list_all has_alias (redirdevs d15)
      \<and> list_all has_alias (videos d15)
      \<and> list_all has_alias (controllers d15)
      \<and> list_all has_alias (inputs d15)
      \<and> list_all has_alias (parallels d15)
      \<and> list_all has_alias (serials d15)
      \<and> list_all has_alias (channels d15)
      \<and> list_all has_alias (consoles d15)
      \<and> list_all has_alias (hubs d15)
      \<and> list_all has_alias (shmems d15)
      \<and> list_all (disk_settled X qemuCaps) (disks d15)"
    using a14 list_all2_assigned [OF r15] by (simp add: e15)
  have s15: "aliases_kept (device_aliases d14) (device_aliases d15)"
    using list_all2_assigned_kept [OF r15]
    by (simp add: e15 device_aliases_def aliases_kept_def)
  have k15: "aliases_kept (device_aliases def) (device_aliases d15)"
    by (rule aliases_kept_trans [OF k14 s15])
  from aliases_smartcards_step [OF p16] obtain xs16 where e16: "d16 = d15\<lparr>smartcards := xs16\<rparr>"
    and r16: "list_all2 alias_assigned (smartcards d15) xs16" by blast
  have a16: "list_all has_alias (disks d16)
      \<and> list_all has_alias (nets d16)
      \<and> list_all has_alias (fss d16)
      \<and> list_all has_alias (sounds d16)
      \<and> list_all (\<lambda>h. hostdev_alias d16 h \<noteq> None) (hostdevs d16)
      \<and> list_all has_alias (redirdevs d16)
      \<and> list_all has_alias (videos d16)
      \<and> list_all has_alias (controllers d16)
      \<and> list_all has_alias (inputs d16)
      \<and> list_all has_alias (parallels d16)
      \<and> list_all has_alias (serials d16)
      \<and> list_all has_alias (channels d16)
      \<and> list_all has_alias (consoles d16)
      \<and> list_all has_alias (hubs d16)
      \<and> list_all has_alias (shmems d16)
      \<and> list_all has_alias (smartcards d16)
      \<and> list_all (disk_settled X qemuCaps) (disks d16)"
    using a15 list_all2_assigned [OF r16] by (simp add: e16)
  have s16: "aliases_kept (device_aliases d15) (device_aliases d16)"
    using list_all2_assigned_kept [OF r16]
    by (simp add: e16 device_aliases_def aliases_kept_def)
  have k16: "aliases_kept (device_aliases def) (device_aliases d16)"
    by (rule aliases_kept_trans [OF k15 s16])
  from aliases_watchdog_step [OF p17] obtain w17 where e17: "d17 = d16\<lparr>watchdog := w17\<rparr>"
    and r17: "rel_option alias_assigned (watchdog d16) w17" by blast
  have a17: "list_all has_alias (disks d17)
      \<and> list_all has_alias (nets d17)
      \<and> list_all has_alias (fss d17)
      \<and> list_all has_alias (sounds d17)
      \<and> list_all (\<lambda>h. hostdev_alias d17 h \<noteq> None) (hostdevs d17)
      \<and> list_all has_alias (redirdevs d17)
      \<and> list_all has_alias (videos d17)
      \<and> list_all has_alias (controllers d17)
      \<and> list_all has_alias (inputs d17)
      \<and> list_all has_alias (parallels d17)
      \<and> list_all has_alias (serials d17)
      \<and> list_all has_alias (channels d17)
      \<and> list_all has_alias (consoles d17)
      \<and> list_all has_alias (hubs d17)
      \<and> list_all has_alias (shmems d17)
      \<and> list_all has_alias (smartcards d17)
      \<and> list_all has_alias (option_list (watchdog d17))
      \<and> list_all (disk_settled X qemuCaps) (disks d17)"
    using a16 rel_option_assigned [OF r17] by (simp add: e17)
  have s17: "aliases_kept (device_aliases d16) (device_aliases d17)"
    using rel_option_assigned_kept [OF r17]
    by (simp add: e17 device_aliases_def aliases_kept_def)
  have k17: "aliases_kept (device_aliases def) (device_aliases d17)"
    by (rule aliases_kept_trans [OF k16 s17])
  from aliases_memballoon_step [OF p18] obtain w18 where e18: "d18 = d17\<lparr>memballoon := w18\<rparr>"
    and r18: "rel_option balloon_assigned (memballoon d17) w18" by blast
  have a18: "list_all has_alias (disks d18)
      \<and> list_all has_alias (nets d18)
      \<and> list_all has_alias (fss d18)
      \<and> list_all has_alias (sounds d18)
      \<and> list_all (\<lambda>h. hostdev_alias d18 h \<noteq> None) (hostdevs d18)
      \<and> list_all has_alias (redirdevs d18)
      \<and> list_all has_alias (videos d18)
      \<and> list_all has_alias (controllers d18)
      \<and> list_all has_alias (inputs d18)
      \<and> list_all has_alias (parallels d18)
      \<and> list_all has_alias (serials d18)
      \<and> list_all has_alias (channels d18)
      \<and> list_all has_alias (consoles d18)
      \<and> list_all has_alias (hubs d18)
      \<and> list_all has_alias (shmems d18)
      \<and> list_all has_alias (smartcards d18)
      \<and> list_all has_alias (option_list (watchdog d18))
      \<and> list_all (\<lambda>b. balloon_model b = VIR_DOMAIN_MEMBALLOON_MODEL_NONE \<or> has_alias b) (option_list (memballoon d18))
      \<and> list_all (disk_settled X qemuCaps) (disks d18)"
    using a17 rel_option_balloon_assigned [OF r18] by (simp add: e18)
  have s18: "aliases_kept (device_aliases d17) (device_aliases d18)"
    using rel_option_balloon_kept [OF r18]
    by (simp add: e18 device_aliases_def aliases_kept_def)
  have k18: "aliases_kept (device_aliases def) (device_aliases d18)"
    by (rule aliases_kept_trans [OF k17 s18])
  from aliases_rngs_step [OF p19] obtain xs19 where e19: "d19 = d18\<lparr>rngs := xs19\<rparr>"
    and r19: "list_all2 alias_assigned (rngs d18) xs19" by blast
  have a19: "list_all has_alias (disks d19)
      \<and> list_all has_alias (nets d19)
      \<and> list_all has_alias (fss d19)
      \<and> list_all has_alias (sounds d19)
      \<and> list_all (\<lambda>h. hostdev_alias d19 h \<noteq> None) (hostdevs d19)
      \<and> list_all has_alias (redirdevs d19)
      \<and> list_all has_alias (videos d19)
      \<and> list_all has_alias (controllers d19)
      \<and> list_all has_alias (inputs d19)
      \<and> list_all has_alias (parallels d19)
      \<and> list_all has_alias (serials d19)
      \<and> list_all has_alias (channels d19)
      \<and> list_all has_alias (consoles d19)
      \<and> list_all has_alias (hubs d19)
      \<and> list_all has_alias (shmems d19)
      \<and> list_all has_alias (smartcards d19)
      \<and> list_all has_alias (option_list (watchdog d19))
      \<and> list_all (\<lambda>b. balloon_model b = VIR_DOMAIN_MEMBALLOON_MODEL_NONE \<or> has_alias b) (option_list (memballoon d19))
      \<and> list_all has_alias (rngs d19)
      \<and> list_all (disk_settled X qemuCaps) (disks d19)"
    using a18 list_all2_assigned [OF r19] by (simp add: e19)
  have s19: "aliases_kept (device_aliases d18) (device_aliases d19)"
    using list_all2_assigned_kept [OF r19]
    by (simp add: e19 device_aliases_def aliases_kept_def)
  have k19: "aliases_kept (device_aliases def) (device_aliases d19)"
    by (rule aliases_kept_trans [OF k18 s19])
  from aliases_tpms_step [OF p20] obtain xs20 where e20: "d20 = d19\<lparr>tpms := xs20\<rparr>"
    and r20: "list_all2 alias_assigned (tpms d19) xs20" by blast
  have a20: "list_all has_alias (disks d20)
      \<and> list_all has_alias (nets d20)
      \<and> list_all has_alias (fss d20)
      \<and> list_all has_alias (sounds d20)
      \<and> list_all (\<lambda>h. hostdev_alias d20 h \<noteq> None) (hostdevs d20)
      \<and> list_all has_alias (redirdevs d20)
      \<and> list_all has_alias (videos d20)
      \<and> list_all has_alias (controllers d20)
      \<and> list_all has_alias (inputs d20)
      \<and> list_all has_alias (parallels d20)
      \<and> list_all has_alias (serials d20)
      \<and> list_all has_alias (channels d20)
      \<and> list_all has_alias (consoles d20)
      \<and> list_all has_alias (hubs d20)
      \<and> list_all has_alias (shmems d20)
      \<and> list_all has_alias (smartcards d20)
      \<and> list_all has_alias (option_list (watchdog d20))
      \<and> list_all (\<lambda>b. balloon_model b = VIR_DOMAIN_MEMBALLOON_MODEL_NONE \<or> has_alias b) (option_list (memballoon d20))
      \<and> list_all has_alias (rngs d20)
      \<and> list_all has_alias (tpms d20)
      \<and> list_all (disk_settled X qemuCaps) (disks d20)"
    using a19 list_all2_assigned [OF r20] by (simp add: e20)
  have s20: "aliases_kept (device_aliases d19) (device_aliases d20)"
    using list_all2_assigned_kept [OF r20]
    by (simp add: e20 device_aliases_def aliases_kept_def)
  have k20: "aliases_kept (device_aliases def) (device_aliases d20)"
    by (rule aliases_kept_trans [OF k19 s20])
  from aliases_mems_step [OF p21] obtain xs21 where e21: "d21 = d20\<lparr>mems := xs21\<rparr>"
    and r21: "list_all2 alias_assigned (mems d20) xs21" by blast
  have a21: "list_all has_alias (disks d21)
      \<and> list_all has_alias (nets d21)
      \<and> list_all has_alias (fss d21)
      \<and> list_all has_alias (sounds d21)
      \<and> list_all (\<lambda>h. hostdev_alias d21 h \<noteq> None) (hostdevs d21)
      \<and> list_all has_alias (redirdevs d21)
      \<and> list_all has_alias (videos d21)
      \<and> list_all has_alias (controllers d21)
      \<and> list_all has_alias (inputs d21)
      \<and> list_all has_alias (parallels d21)
      \<and> list_all has_alias (serials d21)
      \<and> list_all has_alias (channels d21)
      \<and> list_all has_alias (consoles d21)
      \<and> list_all has_alias (hubs d21)
      \<and> list_all has_alias (shmems d21)
      \<and> list_all has_alias (smartcards d21)
      \<and> list_all has_alias (option_list (watchdog d21))
      \<and> list_all (\<lambda>b. balloon_model b = VIR_DOMAIN_MEMBALLOON_MODEL_NONE \<or> has_alias b) (option_list (memballoon d21))
      \<and> list_all has_alias (rngs d21)
      \<and> list_all has_alias (tpms d21)
      \<and> list_all has_alias (mems d21)
      \<and> list_all (disk_settled X qemuCaps) (disks d21)"
    using a20 list_all2_assigned [OF r21] by (simp add: e21)
  have s21: "aliases_kept (device_aliases d20) (device_aliases d21)"
    using list_all2_assigned_kept [OF r21]
    by (simp add: e21 device_aliases_def aliases_kept_def)
  have k21: "aliases_kept (device_aliases def) (device_aliases d21)"
    by (rule aliases_kept_trans [OF k20 s21])
  from aliases_vsock_step [OF p22] obtain w22 where e22: "def' = d21\<lparr>vsock := w22\<rparr>"
    and r22: "rel_option alias_assigned (vsock d21) w22" by blast
  have a22: "list_all has_alias (disks def')
      \<and> list_all has_alias (nets def')
      \<and> list_all has_alias (fss def')
      \<and> list_all has_alias (sounds def')
      \<and> list_all (\<lambda>h. hostdev_alias def' h \<noteq> None) (hostdevs def')
      \<and> list_all has_alias (redirdevs def')
      \<and> list_all has_alias (videos def')
      \<and> list_all has_alias (controllers def')
      \<and> list_all has_alias (inputs def')
      \<and> list_all has_alias (parallels def')
      \<and> list_all has_alias (serials def')
      \<and> list_all has_alias (channels def')
      \<and> list_all has_alias (consoles def')
      \<and> list_all has_alias (hubs def')
      \<and> list_all has_alias (shmems def')
      \<and> list_all has_alias (smartcards def')
      \<and> list_all has_alias (option_list (watchdog def'))
      \<and> list_all (\<lambda>b. balloon_model b = VIR_DOMAIN_MEMBALLOON_MODEL_NONE \<or> has_alias b) (option_list (memballoon def'))
      \<and> list_all has_alias (rngs def')
      \<and> list_all has_alias (tpms def')
      \<and> list_all has_alias (mems def')
      \<and> list_all has_alias (option_list (vsock def'))
      \<and> list_all (disk_settled X qemuCaps) (disks def')"
    using a21 rel_option_assigned [OF r22] by (simp add: e22)
  have s22: "aliases_kept (device_aliases d21) (device_aliases def')"
    using rel_option_assigned_kept [OF r22]
    by (simp add: e22 device_aliases_def aliases_kept_def)
  have k22: "aliases_kept (device_aliases def) (device_aliases def')"
    by (rule aliases_kept_trans [OF k21 s22])
  from a22 k22 show ?thesis by (simp add: all_assigned_def)
qed

subsection \<open>A second pass changes nothing\<close>

lemma hostdev_alias_unchanged:
  "a \<noteq> None \<Longrightarrow> qemuAssignDeviceHostdevAlias d a idx = Inr a"
  by (simp add: qemuAssignDeviceHostdevAlias_def)

lemma qemuAssignDeviceNetAlias_unchanged:
  "has_alias net \<Longrightarrow> qemuAssignDeviceNetAlias X d net idx = Inr net"
  by (simp add: qemuAssignDeviceNetAlias_def has_alias_def)

lemma qemuAssignDeviceFSAlias_unchanged:
  "has_alias dev \<Longrightarrow> qemuAssignDeviceFSAlias dev idx = Inr dev"
  by (simp add: qemuAssignDeviceFSAlias_def has_alias_def)

lemma qemuAssignDeviceSoundAlias_unchanged:
  "has_alias dev \<Longrightarrow> qemuAssignDeviceSoundAlias dev idx = Inr dev"
  by (simp add: qemuAssignDeviceSoundAlias_def has_alias_def)

lemma qemuAssignDeviceVideoAlias_unchanged:
  "has_alias dev \<Longrightarrow> qemuAssignDeviceVideoAlias dev idx = Inr dev"
  by (simp add: qemuAssignDeviceVideoAlias_def has_alias_def)

lemma qemuAssignDeviceHubAlias_unchanged:
  "has_alias dev \<Longrightarrow> qemuAssignDeviceHubAlias dev idx = Inr dev"
  by (simp add: qemuAssignDeviceHubAlias_def has_alias_def)

lemma qemuAssignDeviceSmartcardAlias_unchanged:
  "has_alias dev \<Longrightarrow> qemuAssignDeviceSmartcardAlias dev idx = Inr dev"
  by (simp add: qemuAssignDeviceSmartcardAlias_def has_alias_def)

lemma qemuAssignDeviceMemballoonAlias_unchanged:
  "has_alias balloon \<Longrightarrow> qemuAssignDeviceMemballoonAlias balloon idx = Inr balloon"
  by (simp add: qemuAssignDeviceMemballoonAlias_def has_alias_def)

lemma qemuAssignDeviceTPMAlias_unchanged:
  "has_alias dev \<Longrightarrow> qemuAssignDeviceTPMAlias dev idx = Inr dev"
  by (simp add: qemuAssignDeviceTPMAlias_def has_alias_def)

lemma qemuAssignDeviceRedirdevAlias_unchanged:
  "has_alias dev \<Longrightarrow> qemuAssignDeviceRedirdevAlias d dev idx = Inr dev"
  by (simp add: qemuAssignDeviceRedirdevAlias_def has_alias_def)

lemma qemuAssignDeviceRNGAlias_unchanged:
  "has_alias dev \<Longrightarrow> qemuAssignDeviceRNGAlias d dev = Inr dev"
  by (simp add: qemuAssignDeviceRNGAlias_def has_alias_def)

lemma qemuAssignDeviceMemoryAlias_unchanged:
  "has_alias mem \<Longrightarrow> qemuAssignDeviceMemoryAlias d mem oldAlias = Inr mem"
  by (simp add: qemuAssignDeviceMemoryAlias_def has_alias_def)

lemma qemuAssignDeviceShmemAlias_unchanged:
  "has_alias dev \<Longrightarrow> qemuAssignDeviceShmemAlias d dev idx = Inr dev"
  by (simp add: qemuAssignDeviceShmemAlias_def has_alias_def)

lemma qemuAssignDeviceWatchdogAlias_unchanged:
  "has_alias dev \<Longrightarrow> qemuAssignDeviceWatchdogAlias dev = Inr dev"
  by (simp add: qemuAssignDeviceWatchdogAlias_def has_alias_def)

lemma qemuAssignDeviceInputAlias_unchanged:
  "has_alias dev \<Longrightarrow> qemuAssignDeviceInputAlias d dev idx = Inr dev"
  by (simp add: qemuAssignDeviceInputAlias_def has_alias_def)

lemma qemuAssignDeviceVsockAlias_unchanged:
  "has_alias dev \<Longrightarrow> qemuAssignDeviceVsockAlias dev = Inr dev"
  by (simp add: qemuAssignDeviceVsockAlias_def has_alias_def)

lemma qemuAssignDeviceChrAlias_unchanged:
  "has_alias chr \<Longrightarrow> qemuAssignDeviceChrAlias d chr sidx = Inr chr"
  by (simp add: qemuAssignDeviceChrAlias_def has_alias_def)

lemma qemuAssignDeviceControllerAlias_unchanged:
  "has_alias controller \<Longrightarrow> qemuAssignDeviceControllerAlias X d qemuCaps controller = Inr controller"
  by (simp add: qemuAssignDeviceControllerAlias_def has_alias_def)

lemma qemuAssignDeviceDiskAlias_with_alias:
  "has_alias disk \<Longrightarrow>
   qemuAssignDeviceDiskAlias X d disk qemuCaps = Inr (disk_assign_qomName X qemuCaps disk)"
  by (simp add: qemuAssignDeviceDiskAlias_def disk_assign_alias_def has_alias_def)

lemma qemuAssignDeviceDiskAlias_settled:
  "disk_settled X qemuCaps disk \<Longrightarrow> qemuAssignDeviceDiskAlias X d disk qemuCaps = Inr disk"
  by (simp add: qemuAssignDeviceDiskAlias_with_alias disk_settled_def)

lemma aliases_disks_unchanged:
  assumes "list_all (disk_settled X qemuCaps) (disks d)"
  shows "aliases_disks X qemuCaps d = Inr d"
  unfolding aliases_disks_def
proof (rule for_loop_unchanged)
  fix j assume "0 \<le> j" "j < 0 + length (disks d)"
  with assms show "on_success (qemuAssignDeviceDiskAlias X d (disks d ! j) qemuCaps)
      (\<lambda>x. d\<lparr>disks := (disks d)[j := x]\<rparr>) = Inr d"
    by (simp add: list_all_length qemuAssignDeviceDiskAlias_settled on_success_def)
qed

lemma aliases_nets_unchanged:
  assumes "list_all has_alias (nets d)"
  shows "aliases_nets X d = Inr d"
  unfolding aliases_nets_def
proof (rule for_loop_unchanged)
  fix j assume "0 \<le> j" "j < 0 + length (nets d)"
  with assms show "on_success (qemuAssignDeviceNetAlias X d (nets d ! j) (- 1))
      (\<lambda>x. d\<lparr>nets := (nets d)[j := x]\<rparr>) = Inr d"
    by (simp add: list_all_length qemuAssignDeviceNetAlias_unchanged on_success_def)
qed

lemma aliases_fss_unchanged:
  assumes "list_all has_alias (fss d)"
  shows "aliases_fss d = Inr d"
  unfolding aliases_fss_def
proof (rule for_loop_unchanged)
  fix j assume "0 \<le> j" "j < 0 + length (fss d)"
  with assms show "on_success (qemuAssignDeviceFSAlias (fss d ! j) (of_nat j))
      (\<lambda>x. d\<lparr>fss := (fss d)[j := x]\<rparr>) = Inr d"
    by (simp add: list_all_length qemuAssignDeviceFSAlias_unchanged on_success_def)
qed

lemma aliases_sounds_unchanged:
  assumes "list_all has_alias (sounds d)"
  shows "aliases_sounds d = Inr d"
  unfolding aliases_sounds_def
proof (rule for_loop_unchanged)
  fix j assume "0 \<le> j" "j < 0 + length (sounds d)"
  with assms show "on_success (qemuAssignDeviceSoundAlias (sounds d ! j) (of_nat j))
      (\<lambda>x. d\<lparr>sounds := (sounds d)[j := x]\<rparr>) = Inr d"
    by (simp add: list_all_length qemuAssignDeviceSoundAlias_unchanged on_success_def)
qed

lemma aliases_redirdevs_unchanged:
  assumes "list_all has_alias (redirdevs d)"
  shows "aliases_redirdevs d = Inr d"
  unfolding aliases_redirdevs_def
proof (rule for_loop_unchanged)
  fix j assume "0 \<le> j" "j < 0 + length (redirdevs d)"
  with assms show "on_success (qemuAssignDeviceRedirdevAlias d (redirdevs d ! j) (of_nat j))
      (\<lambda>x. d\<lparr>redirdevs := (redirdevs d)[j := x]\<rparr>) = Inr d"
    by (simp add: list_all_length qemuAssignDeviceRedirdevAlias_unchanged on_success_def)
qed

lemma aliases_videos_unchanged:
  assumes "list_all has_alias (videos d)"
  shows "aliases_videos d = Inr d"
  unfolding aliases_videos_def
proof (rule for_loop_unchanged)
  fix j assume "0 \<le> j" "j < 0 + length (videos d)"
  with assms show "on_success (qemuAssignDeviceVideoAlias (videos d ! j) (of_nat j))
      (\<lambda>x. d\<lparr>videos := (videos d)[j := x]\<rparr>) = Inr d"
    by (simp add: list_all_length qemuAssignDeviceVideoAlias_unchanged on_success_def)
qed

lemma aliases_controllers_unchanged:
  assumes "list_all has_alias (controllers d)"
  shows "aliases_controllers X qemuCaps d = Inr d"
  unfolding aliases_controllers_def
proof (rule for_loop_unchanged)
  fix j assume "0 \<le> j" "j < 0 + length (controllers d)"
  with assms show "on_success (qemuAssignDeviceControllerAlias X d qemuCaps (controllers d ! j))
      (\<lambda>x. d\<lparr>controllers := (controllers d)[j := x]\<rparr>) = Inr d"
    by (simp add: list_all_length qemuAssignDeviceControllerAlias_unchanged on_success_def)
qed

lemma aliases_inputs_unchanged:
  assumes "list_all has_alias (inputs d)"
  shows "aliases_inputs d = Inr d"
  unfolding aliases_inputs_def
proof (rule for_loop_unchanged)
  fix j assume "0 \<le> j" "j < 0 + length (inputs d)"
  with assms show "on_success (qemuAssignDeviceInputAlias d (inputs d ! j) (of_nat j))
      (\<lambda>x. d\<lparr>inputs := (inputs d)[j := x]\<rparr>) = Inr d"
    by (simp add: list_all_length qemuAssignDeviceInputAlias_unchanged on_success_def)
qed

lemma aliases_parallels_unchanged:
  assumes "list_all has_alias (parallels d)"
  shows "aliases_parallels d = Inr d"
  unfolding aliases_parallels_def
proof (rule for_loop_unchanged)
  fix j assume "0 \<le> j" "j < 0 + length (parallels d)"
  with assms show "on_success (qemuAssignDeviceChrAlias d (parallels d ! j) (of_nat j))
      (\<lambda>x. d\<lparr>parallels := (parallels d)[j := x]\<rparr>) = Inr d"
    by (simp add: list_all_length qemuAssignDeviceChrAlias_unchanged on_success_def)
qed

lemma aliases_serials_unchanged:
  assumes "list_all has_alias (serials d)"
  shows "aliases_serials d = Inr d"
  unfolding aliases_serials_def
proof (rule for_loop_unchanged)
  fix j assume "0 \<le> j" "j < 0 + length (serials d)"
  with assms show "on_success (qemuAssignDeviceChrAlias d (serials d ! j) (of_nat j))
      (\<lambda>x. d\<lparr>serials := (serials d)[j := x]\<rparr>) = Inr d"
    by (simp add: list_all_length qemuAssignDeviceChrAlias_unchanged on_success_def)
qed

lemma aliases_channels_unchanged:
  assumes "list_all has_alias (channels d)"
  shows "aliases_channels d = Inr d"
  unfolding aliases_channels_def
proof (rule for_loop_unchanged)
  fix j assume "0 \<le> j" "j < 0 + length (channels d)"
  with assms show "on_success (qemuAssignDeviceChrAlias d (channels d ! j) (of_nat j))
      (\<lambda>x. d\<lparr>channels := (channels d)[j := x]\<rparr>) = Inr d"
    by (simp add: list_all_length qemuAssignDeviceChrAlias_unchanged on_success_def)
qed

lemma aliases_consoles_unchanged:
  assumes "list_all has_alias (consoles d)"
  shows "aliases_consoles d = Inr d"
  unfolding aliases_consoles_def
proof (rule for_loop_unchanged)
  fix j assume "0 \<le> j" "j < 0 + length (consoles d)"
  with assms show "on_success (qemuAssignDeviceChrAlias d (consoles d ! j) (of_nat j))
      (\<lambda>x. d\<lparr>consoles := (consoles d)[j := x]\<rparr>) = Inr d"
    by (simp add: list_all_length qemuAssignDeviceChrAlias_unchanged on_success_def)
qed

lemma aliases_hubs_unchanged:
  assumes "list_all has_alias (hubs d)"
  shows "aliases_hubs d = Inr d"
  unfolding aliases_hubs_def
proof (rule for_loop_unchanged)
  fix j assume "0 \<le> j" "j < 0 + length (hubs d)"
  with assms show "on_success (qemuAssignDeviceHubAlias (hubs d ! j) (of_nat j))
      (\<lambda>x. d\<lparr>hubs := (hubs d)[j := x]\<rparr>) = Inr d"
    by (simp add: list_all_length qemuAssignDeviceHubAlias_unchanged on_success_def)
qed

lemma aliases_shmems_unchanged:
  assumes "list_all has_alias (shmems d)"
  shows "aliases_shmems d = Inr d"
  unfolding aliases_shmems_def
proof (rule for_loop_unchanged)
  fix j assume "0 \<le> j" "j < 0 + length (shmems d)"
  with assms show "on_success (qemuAssignDeviceShmemAlias d (shmems d ! j) (of_nat j))
      (\<lambda>x. d\<lparr>shmems := (shmems d)[j := x]\<rparr>) = Inr d"
    by (simp add: list_all_length qemuAssignDeviceShmemAlias_unchanged on_success_def)
qed

lemma aliases_smartcards_unchanged:
  assumes "list_all has_alias (smartcards d)"
  shows "aliases_smartcards d = Inr d"
  unfolding aliases_smartcards_def
proof (rule for_loop_unchanged)
  fix j assume "0 \<le> j" "j < 0 + length (smartcards d)"
  with assms show "on_success (qemuAssignDeviceSmartcardAlias (smartcards d ! j) (of_nat j))
      (\<lambda>x. d\<lparr>smartcards := (smartcards d)[j := x]\<rparr>) = Inr d"
    by (simp add: list_all_length qemuAssignDeviceSmartcardAlias_unchanged on_success_def)
qed

lemma aliases_rngs_unchanged:
  assumes "list_all has_alias (rngs d)"
  shows "aliases_rngs d = Inr d"
  unfolding aliases_rngs_def
proof (rule for_loop_unchanged)
  fix j assume "0 \<le> j" "j < 0 + length (rngs d)"
  with assms show "on_success (qemuAssignDeviceRNGAlias d (rngs d ! j))
      (\<lambda>x. d\<lparr>rngs := (rngs d)[j := x]\<rparr>) = Inr d"
    by (simp add: list_all_length qemuAssignDeviceRNGAlias_unchanged on_success_def)
qed

lemma aliases_tpms_unchanged:
  assumes "list_all has_alias (tpms d)"
  shows "aliases_tpms d = Inr d"
  unfolding aliases_tpms_def
proof (rule for_loop_unchanged)
  fix j assume "0 \<le> j" "j < 0 + length (tpms d)"
  with assms show "on_success (qemuAssignDeviceTPMAlias (tpms d ! j) (of_nat j))
      (\<lambda>x. d\<lparr>tpms := (tpms d)[j := x]\<rparr>) = Inr d"
    by (simp add: list_all_length qemuAssignDeviceTPMAlias_unchanged on_success_def)
qed

lemma aliases_mems_unchanged:
  assumes "list_all has_alias (mems d)"
  shows "aliases_mems d = Inr d"
  unfolding aliases_mems_def
proof (rule for_loop_unchanged)
  fix j assume "0 \<le> j" "j < 0 + length (mems d)"
  with assms show "on_success (qemuAssignDeviceMemoryAlias d (mems d ! j) False)
      (\<lambda>x. d\<lparr>mems := (mems d)[j := x]\<rparr>) = Inr d"
    by (simp add: list_all_length qemuAssignDeviceMemoryAlias_unchanged on_success_def)
qed

lemma aliases_hostdevs_unchanged:
  assumes "list_all (\<lambda>h. hostdev_alias d h \<noteq> None) (hostdevs d)"
  shows "aliases_hostdevs d = Inr d"
  unfolding aliases_hostdevs_def
proof (rule for_loop_unchanged)
  fix j assume j: "0 \<le> j" "j < 0 + length (hostdevs d)"
  with assms have a: "hostdev_alias d (hostdevs d ! j) \<noteq> None" by (simp add: list_all_length)
  show "aliases_hostdevs_body j d = Inr d"
  proof (cases "info_ptr (hostdevs d ! j)")
    case (OwnInfo di)
    with a have n: "dev_alias di \<noteq> None" by simp
    have "(hostdevs d ! j)\<lparr>info_ptr := info_ptr (hostdevs d ! j)\<rparr> = hostdevs d ! j"
      by simp
    then have same: "(hostdevs d ! j)\<lparr>info_ptr := OwnInfo di\<rparr> = hostdevs d ! j"
      by (simp only: OwnInfo)
    show ?thesis
      using OwnInfo
      by (simp add: aliases_hostdevs_body_def hostdev_alias_unchanged [OF n] on_success_def same)
  next
    case (NetInfo n)
    with a have l: "n < length (nets d)" and s: "dev_alias (info (nets d ! n)) \<noteq> None"
      by (auto simp: hostdev_alias_Net split: if_splits)
    show ?thesis
      using NetInfo l
      by (simp add: aliases_hostdevs_body_def hostdev_alias_unchanged [OF s] on_success_def)
  qed
qed

lemma aliases_watchdog_unchanged:
  "list_all has_alias (option_list (watchdog d)) \<Longrightarrow> aliases_watchdog d = Inr d"
  by (cases "watchdog d")
     (simp_all add: aliases_watchdog_def option_list_def qemuAssignDeviceWatchdogAlias_unchanged
        on_success_def)

lemma aliases_vsock_unchanged:
  "list_all has_alias (option_list (vsock d)) \<Longrightarrow> aliases_vsock d = Inr d"
  by (cases "vsock d")
     (simp_all add: aliases_vsock_def option_list_def qemuAssignDeviceVsockAlias_unchanged
        on_success_def)

lemma aliases_memballoon_unchanged:
  "list_all (\<lambda>b. balloon_model b = VIR_DOMAIN_MEMBALLOON_MODEL_NONE \<or> has_alias b)
     (option_list (memballoon d)) \<Longrightarrow> aliases_memballoon d = Inr d"
  by (cases "memballoon d")
     (auto simp: aliases_memballoon_def option_list_def qemuAssignDeviceMemballoonAlias_unchanged
        on_success_def)

lemma pass_unchanged:
  assumes "all_assigned d" "list_all (disk_settled X qemuCaps) (disks d)"
  shows "qemuAssignDeviceAliases X d qemuCaps = Inr d"
  using assms
  by (simp add: qemuAssignDeviceAliases_def all_assigned_def

        aliases_disks_unchanged aliases_nets_unchanged aliases_fss_unchanged
        aliases_sounds_unchanged aliases_hostdevs_unchanged aliases_redirdevs_unchanged
        aliases_videos_unchanged aliases_controllers_unchanged aliases_inputs_unchanged
        aliases_parallels_unchanged aliases_serials_unchanged aliases_channels_unchanged
        aliases_consoles_unchanged aliases_hubs_unchanged aliases_shmems_unchanged
        aliases_smartcards_unchanged aliases_watchdog_unchanged aliases_memballoon_unchanged
        aliases_rngs_unchanged aliases_tpms_unchanged aliases_mems_unchanged
        aliases_vsock_unchanged)

subsection \<open>Scavenged indices are fresh\<close>



lemma counted_name_inj:
  assumes "letters p" "p @ fmt_d i = p @ fmt_d j"
  shows "i = j"
  using assms fmt_d_inj by simp






lemma AliasIndex_None [simp]: "dev_alias i = None \<Longrightarrow> qemuDomainDeviceAliasIndex i p = - 1"
  by (simp add: qemuDomainDeviceAliasIndex_def)



subsection \<open>Aliases set before the run and aliases that the run sets\<close>

lemma letters_prefixes: "list_all letters alias_prefixes"
  by (simp add: alias_prefixes_def letters_def index_char_def c_isdigit_def)








subsection \<open>The new aliases of a list\<close>

lemma news_by_Nil [simp]: "news_by g [] ys = []" "news_by g xs [] = []"
  by (simp_all add: news_by_def)

lemma news_by_Cons [simp]:
  "news_by g (x # xs) (y # ys)
     = (if g x = None then (case g y of None \<Rightarrow> [] | Some b \<Rightarrow> [b]) else []) @ news_by g xs ys"
  by (simp add: news_by_def)






lemma news_by_same: "news_by g xs xs = []"
  by (induction xs) (auto split: option.splits)

lemma names_of_Nil [simp]: "names_of [] = []"
  by (simp add: names_of_def)


lemma names_of_append [simp]: "names_of (xs @ ys) = names_of xs @ names_of ys"
  by (simp add: names_of_def map_filter_def)


lemma own_names_Nil [simp]: "own_names [] = []"
  by (simp add: own_names_def)


lemma own_names_append [simp]: "own_names (xs @ ys) = own_names xs @ own_names ys"
  by (simp add: own_names_def map_filter_def)





subsection \<open>The loops that number the devices by position\<close>


































subsection \<open>The random number generators\<close>




subsection \<open>The network interfaces\<close>







subsection \<open>The host devices\<close>



lemma own_alias_Own: "info_ptr h = OwnInfo i \<Longrightarrow> own_alias h = dev_alias i"
  by (simp add: own_alias_def)








section \<open>The properties of the domain-wide pass\<close>

lemmas phase_defs = qemuAssignDeviceAliases_def aliases_disks_def aliases_nets_def
  aliases_fss_def aliases_sounds_def aliases_hostdevs_def aliases_redirdevs_def
  aliases_videos_def aliases_controllers_def aliases_inputs_def aliases_parallels_def
  aliases_serials_def aliases_channels_def aliases_consoles_def aliases_hubs_def
  aliases_shmems_def aliases_smartcards_def aliases_watchdog_def aliases_memballoon_def
  aliases_rngs_def aliases_tpms_def aliases_mems_def aliases_vsock_def on_success_def

lemma example_domain_run:
  "qemuAssignDeviceAliases example_collaborators example_domain {} = Inr example_domain_assigned"
  by (simp add: example_domain_def example_domain_assigned_def phase_defs
        qemuAssignDeviceNetAlias_def qemuAssignDeviceFSAlias_def
        qemuAssignDeviceWatchdogAlias_def qemuAssignDeviceMemballoonAlias_def
        qemuAssignDeviceVsockAlias_def example_defs scan_defs)

lemma aliases_kept_lengths:
  "aliases_kept xs ys \<Longrightarrow> map length ys = map length xs"
  unfolding aliases_kept_def
  by (induction xs ys rule: list_all2_induct) (auto dest: list_all2_lengthD)

text \<open>
  Claim C2. A device that has an alias keeps it: every per-class assigner returns such a
  device unchanged (the disk assigner leaves its info unchanged and only derives the QOM
  name), a successful domain-wide pass keeps every alias that was set before it, and a
  second pass over the result changes nothing.
\<close>

theorem alias_never_overwritten:
  "(has_alias disk \<longrightarrow>
      qemuAssignDeviceDiskAlias X d disk qemuCaps = Inr (disk_assign_qomName X qemuCaps disk)
      \<and> info (disk_assign_qomName X qemuCaps disk) = info disk)
   \<and> (has_alias net \<longrightarrow> qemuAssignDeviceNetAlias X d net idx = Inr net)
   \<and> (has_alias fs \<longrightarrow> qemuAssignDeviceFSAlias fs idx = Inr fs)
   \<and> (has_alias sound \<longrightarrow> qemuAssignDeviceSoundAlias sound idx = Inr sound)
   \<and> (a \<noteq> None \<longrightarrow> qemuAssignDeviceHostdevAlias d a idx = Inr a)
   \<and> (has_alias redirdev \<longrightarrow> qemuAssignDeviceRedirdevAlias d redirdev idx = Inr redirdev)
   \<and> (has_alias video \<longrightarrow> qemuAssignDeviceVideoAlias video idx = Inr video)
   \<and> (has_alias controller \<longrightarrow>
        qemuAssignDeviceControllerAlias X d qemuCaps controller = Inr controller)
   \<and> (has_alias input \<longrightarrow> qemuAssignDeviceInputAlias d input idx = Inr input)
   \<and> (has_alias chr \<longrightarrow> qemuAssignDeviceChrAlias d chr sidx = Inr chr)
   \<and> (has_alias hub \<longrightarrow> qemuAssignDeviceHubAlias hub idx = Inr hub)
   \<and> (has_alias shmem \<longrightarrow> qemuAssignDeviceShmemAlias d shmem idx = Inr shmem)
   \<and> (has_alias smartcard \<longrightarrow> qemuAssignDeviceSmartcardAlias smartcard idx = Inr smartcard)
   \<and> (has_alias wd \<longrightarrow> qemuAssignDeviceWatchdogAlias wd = Inr wd)
   \<and> (has_alias balloon \<longrightarrow> qemuAssignDeviceMemballoonAlias balloon idx = Inr balloon)
   \<and> (has_alias rng \<longrightarrow> qemuAssignDeviceRNGAlias d rng = Inr rng)
   \<and> (has_alias tpm \<longrightarrow> qemuAssignDeviceTPMAlias tpm idx = Inr tpm)
   \<and> (has_alias mem \<longrightarrow> qemuAssignDeviceMemoryAlias d mem oldAlias = Inr mem)
   \<and> (has_alias vs \<longrightarrow> qemuAssignDeviceVsockAlias vs = Inr vs)
   \<and> (qemuAssignDeviceAliases X def qemuCaps = Inr def' \<longrightarrow>
        aliases_kept (device_aliases def) (device_aliases def')
        \<and> qemuAssignDeviceAliases X def' qemuCaps = Inr def')"
proof -
  have pass: "aliases_kept (device_aliases def) (device_aliases def')
                \<and> qemuAssignDeviceAliases X def' qemuCaps = Inr def'"
    if run: "qemuAssignDeviceAliases X def qemuCaps = Inr def'"
    using pass_facts [OF run] by (simp add: pass_unchanged)
  have disk: "info (disk_assign_qomName X qemuCaps disk) = info disk"
    by simp
  show ?thesis
    using pass disk
    by (simp add: qemuAssignDeviceDiskAlias_with_alias qemuAssignDeviceNetAlias_unchanged
          qemuAssignDeviceFSAlias_unchanged qemuAssignDeviceSoundAlias_unchanged
          hostdev_alias_unchanged qemuAssignDeviceRedirdevAlias_unchanged
          qemuAssignDeviceVideoAlias_unchanged qemuAssignDeviceControllerAlias_unchanged
          qemuAssignDeviceInputAlias_unchanged qemuAssignDeviceChrAlias_unchanged
          qemuAssignDeviceHubAlias_unchanged qemuAssignDeviceShmemAlias_unchanged
          qemuAssignDeviceSmartcardAlias_unchanged qemuAssignDeviceWatchdogAlias_unchanged
          qemuAssignDeviceMemballoonAlias_unchanged qemuAssignDeviceRNGAlias_unchanged
          qemuAssignDeviceTPMAlias_unchanged qemuAssignDeviceMemoryAlias_unchanged
          qemuAssignDeviceVsockAlias_unchanged)
qed

theorem alias_never_overwritten_witness:
  "qemuAssignDeviceNetAlias example_collaborators example_domain
       (net_with (Some ''net7'') VIR_DOMAIN_NET_TYPE_USER) (- 1)
     = Inr (net_with (Some ''net7'') VIR_DOMAIN_NET_TYPE_USER)
   \<and> qemuAssignDeviceFSAlias (device_with (Some ''shared'')) 0
     = Inr (device_with (Some ''shared''))
   \<and> qemuAssignDeviceHostdevAlias example_domain (Some ''hostdev4'') (- 1)
     = Inr (Some ''hostdev4'')
   \<and> aliases_kept (device_aliases example_domain) (device_aliases example_domain_assigned)
   \<and> qemuAssignDeviceAliases example_collaborators example_domain_assigned {}
     = Inr example_domain_assigned"
proof -
  have n: "has_alias (net_with (Some ''net7'') VIR_DOMAIN_NET_TYPE_USER)"
    by (simp add: has_alias_def net_with_def info_with_def)
  have f: "has_alias (device_with (Some ''shared''))"
    by (simp add: has_alias_def device_with_def info_with_def)
  show ?thesis
    using alias_never_overwritten
            [where X = example_collaborators and d = example_domain and qemuCaps = "{}"
               and net = "net_with (Some ''net7'') VIR_DOMAIN_NET_TYPE_USER" and idx = "- 1"
               and a = "Some ''hostdev4''"
               and def = example_domain and def' = example_domain_assigned]
          alias_never_overwritten [where fs = "device_with (Some ''shared'')" and idx = 0]
    by (simp add: example_domain_run n f)
qed

text \<open>
  Claim C3, as stated, fails for the memory balloon: the pass skips a balloon whose model
  is none, which then has no alias after a successful run.
\<close>

theorem memballoon_model_none_left_unaliased:
  "qemuAssignDeviceAliases example_collaborators
      (empty_def\<lparr>memballoon := Some (balloon_with None VIR_DOMAIN_MEMBALLOON_MODEL_NONE)\<rparr>) {}
     = Inr (empty_def\<lparr>memballoon := Some (balloon_with None VIR_DOMAIN_MEMBALLOON_MODEL_NONE)\<rparr>)
   \<and> \<not> has_alias (balloon_with None VIR_DOMAIN_MEMBALLOON_MODEL_NONE)"
  by (simp add: phase_defs has_alias_def example_defs)

text \<open>
  Claim C3, amended. After a successful run of the domain-wide pass every device of every
  collection of the domain has an alias, the watchdog and the vsock device included,
  and the memory balloon unless its model is none; the collections have the devices
  they had before the run.
\<close>

theorem every_device_gets_an_alias:
  assumes "qemuAssignDeviceAliases X def qemuCaps = Inr def'"
  shows "all_assigned def' \<and> map length (device_aliases def') = map length (device_aliases def)"
  using pass_facts [OF assms] by (simp add: aliases_kept_lengths)

theorem every_device_gets_an_alias_witness:
  "all_assigned example_domain_assigned
   \<and> map length (device_aliases example_domain_assigned)
       = map length (device_aliases example_domain)"
  using every_device_gets_an_alias [OF example_domain_run] by simp

subsection \<open>Host devices after network interfaces\<close>



lemma alias_progress_settled: "alias_progress x y \<Longrightarrow> has_alias x \<Longrightarrow> y = x"
  by (auto simp: alias_progress_def alias_assigned_def has_alias_def alias_kept_def set_alias_same)

lemma list_all2_progress_settled:
  "list_all2 alias_progress xs ys \<Longrightarrow> list_all has_alias xs \<Longrightarrow> ys = xs"
  by (induction xs ys rule: list_all2_induct) (auto dest: alias_progress_settled)

lemma aliases_hostdevs_nets:
  assumes "aliases_hostdevs d = Inr d'" "list_all has_alias (nets d)"
  shows "nets d' = nets d"
proof -
  from aliases_hostdevs_step [OF assms(1)] obtain hs ns
    where d': "d' = d\<lparr>hostdevs := hs, nets := ns\<rparr>" and ns: "list_all2 alias_progress (nets d) ns"
    by blast
  from list_all2_progress_settled [OF ns assms(2)] show ?thesis by (simp add: d')
qed




















































subsection \<open>Uniqueness of the generated aliases\<close>















section \<open>The properties of the backup definition\<close>

lemmas xml_defs = virXMLPropString_def virXPathNode_child_def virXPathString_child_def
  virXPathString_child_attr_def virXPathNodeSet_disks_def xml_child_elements_def
  nonempty_string_def

lemmas enum_defs = virDomainBackupTypeFromString_def virEnumFromString_def
  VIR_DOMAIN_BACKUP_TYPE_PUSH_def VIR_DOMAIN_BACKUP_TYPE_PULL_def
  VIR_DOMAIN_BACKUP_TYPE_DEFAULT_def VIR_TRISTATE_BOOL_ABSENT_def

text \<open>
  Claim C8, as stated, fails: the mode \<open>default\<close> is in the table of the enum, at
  position 0, and the parser rejects every position that is not above 0.
\<close>

theorem backup_mode_default_rejected:
  "virDomainBackupDefParse example_backup_collaborators
     (XmlElement ''domainbackup'' [(''mode'', ''default'')] []) 0 = Inl ErrUnknownBackupMode"
  by (simp add: virDomainBackupDefParse_def xml_defs enum_defs)

lemma virDomainBackupTypeFromString_cases:
  "virDomainBackupTypeFromString m =
     (if m = ''default'' then 0 else if m = ''push'' then 1 else if m = ''pull'' then 2 else - 1)"
  by (simp add: virDomainBackupTypeFromString_def virEnumFromString_def)

text \<open>
  Claim C8, amended. A document whose mode attribute is neither push nor pull (default
  included) is rejected as an unknown backup mode. With push or pull the parse succeeds
  exactly when the server block and the disk elements parse, as it does for a document with
  neither.
\<close>

theorem backup_mode_values:
  assumes "virXMLPropString node ''mode'' = Some m"
  shows "(m \<notin> {''push'', ''pull''}
            \<longrightarrow> virDomainBackupDefParse B node flags = Inl ErrUnknownBackupMode)
       \<and> (m \<in> {''push'', ''pull''}
            \<longrightarrow> ((\<exists>def. virDomainBackupDefParse B node flags = Inr def)
                 \<longleftrightarrow> (\<exists>r. backup_parse_server B node (virDomainBackupTypeFromString m) = Inr r)
                     \<and> (\<exists>ds. backup_parse_disks B (m = ''push'') flags
                                (virXPathNodeSet_disks node) = Inr ds)))
       \<and> (m \<in> {''push'', ''pull''} \<and> xml_child_elements ''server'' node = []
            \<and> virXPathNodeSet_disks node = []
            \<longrightarrow> (\<exists>def. virDomainBackupDefParse B node flags = Inr def
                     \<and> backup_type def = virDomainBackupTypeFromString m
                     \<and> bdisks def = []))"
proof -
  have c1: "m \<notin> {''push'', ''pull''}
            \<longrightarrow> virDomainBackupDefParse B node flags = Inl ErrUnknownBackupMode"
    using assms
    by (auto simp: virDomainBackupDefParse_def virDomainBackupTypeFromString_cases Let_def)
  have push: "(virDomainBackupTypeFromString m = VIR_DOMAIN_BACKUP_TYPE_PUSH) = (m = ''push'')"
    by (simp add: virDomainBackupTypeFromString_cases VIR_DOMAIN_BACKUP_TYPE_PUSH_def)
  have pos: "m \<in> {''push'', ''pull''} \<Longrightarrow> \<not> sint (virDomainBackupTypeFromString m) \<le> 0"
    by (auto simp: virDomainBackupTypeFromString_cases)
  have unfold0: "virDomainBackupDefParse B node flags =
       (case backup_parse_server B node (virDomainBackupTypeFromString m) of
         Inl e \<Rightarrow> Inl e
       | Inr (srv, tlsval) \<Rightarrow>
           (case backup_parse_disks B
                   (virDomainBackupTypeFromString m = VIR_DOMAIN_BACKUP_TYPE_PUSH) flags
                   (virXPathNodeSet_disks node) of
              Inl e \<Rightarrow> Inl e
            | Inr ds \<Rightarrow>
                Inr (virDomainBackupDefParsePrivate B
                       \<lparr>backup_type = virDomainBackupTypeFromString m,
                        def_incremental = virXPathString_child ''incremental'' node, server = srv,
                        tls = tlsval, bdisks = ds, tlsAlias = None, tlsSecretAlias = None\<rparr>
                       node flags)))"
    if "m \<in> {''push'', ''pull''}"
    using assms pos [OF that] by (simp add: virDomainBackupDefParse_def Let_def)
  note unfold = unfold0 [unfolded push]
  have c2: "m \<in> {''push'', ''pull''}
            \<longrightarrow> ((\<exists>def. virDomainBackupDefParse B node flags = Inr def)
                 \<longleftrightarrow> (\<exists>r. backup_parse_server B node (virDomainBackupTypeFromString m) = Inr r)
                     \<and> (\<exists>ds. backup_parse_disks B (m = ''push'') flags
                                (virXPathNodeSet_disks node) = Inr ds))"
  proof
    assume mm: "m \<in> {''push'', ''pull''}"
    show "(\<exists>def. virDomainBackupDefParse B node flags = Inr def)
                 \<longleftrightarrow> (\<exists>r. backup_parse_server B node (virDomainBackupTypeFromString m) = Inr r)
                     \<and> (\<exists>ds. backup_parse_disks B (m = ''push'') flags
                                (virXPathNodeSet_disks node) = Inr ds)"
      unfolding unfold [OF mm]
      by (cases "backup_parse_server B node (virDomainBackupTypeFromString m)";
          cases "backup_parse_disks B (m = ''push'') flags (virXPathNodeSet_disks node)")
         (auto split: prod.splits)
  qed
  have c3: "m \<in> {''push'', ''pull''} \<and> xml_child_elements ''server'' node = []
            \<and> virXPathNodeSet_disks node = []
            \<longrightarrow> (\<exists>def. virDomainBackupDefParse B node flags = Inr def
                     \<and> backup_type def = virDomainBackupTypeFromString m
                     \<and> bdisks def = [])"
  proof
    assume a: "m \<in> {''push'', ''pull''} \<and> xml_child_elements ''server'' node = []
            \<and> virXPathNodeSet_disks node = []"
    then have mm: "m \<in> {''push'', ''pull''}" by simp
    show "\<exists>def. virDomainBackupDefParse B node flags = Inr def
                     \<and> backup_type def = virDomainBackupTypeFromString m
                     \<and> bdisks def = []"
      unfolding unfold [OF mm]
      using a by (simp add: backup_parse_server_def virXPathNode_child_def
            virDomainBackupDefParsePrivate_def)
  qed
  from c1 c2 c3 show ?thesis by blast
qed

text \<open>Mode pull with an empty disk list parses; mode full does not.\<close>

theorem backup_mode_values_witness:
  "(\<exists>def. virDomainBackupDefParse example_backup_collaborators
             (XmlElement ''domainbackup'' [(''mode'', ''pull'')] [XmlElement ''disks'' [] []]) 0
           = Inr def \<and> backup_type def = VIR_DOMAIN_BACKUP_TYPE_PULL \<and> bdisks def = [])
   \<and> virDomainBackupDefParse example_backup_collaborators
        (XmlElement ''domainbackup'' [(''mode'', ''full'')] [XmlElement ''disks'' [] []]) 0
      = Inl ErrUnknownBackupMode"
proof -
  have a: "virXMLPropString (XmlElement ''domainbackup'' [(''mode'', ''pull'')]
             [XmlElement ''disks'' [] []]) ''mode'' = Some ''pull''"
    by (simp add: virXMLPropString_def)
  have b: "virXMLPropString (XmlElement ''domainbackup'' [(''mode'', ''full'')]
             [XmlElement ''disks'' [] []]) ''mode'' = Some ''full''"
    by (simp add: virXMLPropString_def)
  have c: "xml_child_elements ''server'' (XmlElement ''domainbackup'' [(''mode'', ''pull'')]
             [XmlElement ''disks'' [] []]) = []"
     "virXPathNodeSet_disks (XmlElement ''domainbackup'' [(''mode'', ''pull'')]
             [XmlElement ''disks'' [] []]) = []"
    by (simp_all add: xml_child_elements_def virXPathNodeSet_disks_def)
  have d: "virDomainBackupTypeFromString ''pull'' = VIR_DOMAIN_BACKUP_TYPE_PULL"
    by (simp add: enum_defs)
  show ?thesis
    using backup_mode_values [OF a, of example_backup_collaborators 0]
      backup_mode_values [OF b, of example_backup_collaborators 0] c d
    by simp
qed

text \<open>
  Claim C10. Against a domain without disks the alignment fails, whatever the backup
  requests, and the backup definition is as it was.
\<close>

theorem align_diskless_domain_fails:
  assumes "disks domdef = []"
  shows "virDomainBackupAlignDisks B def domdef suffix = Inl (ErrDomainWithoutDisks, def)"
  using assms by (simp add: virDomainBackupAlignDisks_def)

text \<open>An empty backup against the empty domain.\<close>

theorem align_diskless_domain_fails_witness:
  "virDomainBackupAlignDisks example_backup_collaborators empty_backup_def empty_def ''bak''
     = Inl (ErrDomainWithoutDisks, empty_backup_def)"
proof -
  have a: "disks empty_def = []" by (simp add: empty_def_def)
  show ?thesis by (rule align_diskless_domain_fails [OF a])
qed

lemma filled_nth:
  "i < length ds \<Longrightarrow> (map f (take i ds) @ replicate (length ds - i) z) ! i = z"
  by (simp add: nth_append)

lemma filled_update:
  assumes "i < length ds"
  shows "(map f (take i ds) @ replicate (length ds - i) z)[i := f (ds ! i)]
           = map f (take (Suc i) ds) @ replicate (length ds - Suc i) z"
proof -
  from assms have r: "replicate (length ds - i) z = z # replicate (length ds - Suc i) z"
    by (simp add: Suc_diff_Suc flip: replicate_Suc)
  show ?thesis
    using assms by (simp add: r list_update_append take_Suc_conv_app_nth)
qed

lemma zeroed_backup_disk_store [simp]: "bd_store zeroed_backup_disk = None"
  by (simp add: zeroed_backup_disk_def)

lemma backfill_body_good:
  assumes "i < length (disks domdef)" "plain_file_or_skipped B (disks domdef ! i)"
  shows "align_backfill_body B domdef suffix [] True i
           (backfill_state B suffix def (disks domdef) i)
         = Inr (backfill_state B suffix def (disks domdef) (Suc i))"
proof -
  let ?ds = "disks domdef"
  have n: "(map (backfilled_directive B suffix) (take i ?ds)
             @ replicate (length ?ds - i) zeroed_backup_disk) ! i = zeroed_backup_disk"
    by (rule filled_nth [OF assms(1)])
  note u = filled_update [OF assms(1), of "backfilled_directive B suffix" zeroed_backup_disk]
  show ?thesis
  proof (cases "virStorageSourceIsEmpty B (src (?ds ! i)) \<or> src_readonly (src (?ds ! i))")
    case True
    then have b: "backfilled_directive B suffix (?ds ! i)
        = zeroed_backup_disk\<lparr>bd_name := Some (dst (?ds ! i)), bd_backup := VIR_TRISTATE_BOOL_NO\<rparr>"
      by (simp add: backfilled_directive_def)
    show ?thesis
      using True u
      by (auto simp add: align_backfill_body_def backfill_state_def Let_def n b)
  next
    case False
    with assms(2) have f: "virStorageSourceGetActualType B (src (?ds ! i)) = VIR_STORAGE_TYPE_FILE"
      by (simp add: plain_file_or_skipped_def)
    from False have b: "backfilled_directive B suffix (?ds ! i)
        = zeroed_backup_disk
          \<lparr>bd_name := Some (dst (?ds ! i)), bd_backup := VIR_TRISTATE_BOOL_YES,
           bd_store := Some (virStorageSourceNew
             \<lparr>src_type := VIR_STORAGE_TYPE_FILE,
              src_path := Some (fmt_s (src_path (src (?ds ! i))) @ ''.'' @ suffix)\<rparr>)\<rparr>"
      by (simp add: backfilled_directive_def)
    show ?thesis
      using False f u
      by (simp add: align_backfill_body_def backfill_state_def Let_def n b
            virDomainBackupDefAssignStore_def)
  qed
qed

lemma backfill_body_bad:
  assumes "i < length (disks domdef)" "\<not> plain_file_or_skipped B (disks domdef ! i)"
  shows "\<exists>d. align_backfill_body B domdef suffix [] True i
           (backfill_state B suffix def (disks domdef) i)
         = Inl (ErrRefuseToGenerateFileName, d)"
proof -
  have n: "(map (backfilled_directive B suffix) (take i (disks domdef))
             @ replicate (length (disks domdef) - i) zeroed_backup_disk) ! i = zeroed_backup_disk"
    by (rule filled_nth [OF assms(1)])
  show ?thesis
    using assms(2)
    by (simp add: align_backfill_body_def backfill_state_def Let_def n plain_file_or_skipped_def
          virDomainBackupDefAssignStore_def)
qed

lemma backfill_loop_good:
  assumes "\<forall>d\<in>set (disks domdef). plain_file_or_skipped B d"
  shows "i + k \<le> length (disks domdef) \<Longrightarrow>
         for_loop k i (align_backfill_body B domdef suffix [] True)
           (backfill_state B suffix def (disks domdef) i)
         = Inr (backfill_state B suffix def (disks domdef) (i + k))"
proof (induction k arbitrary: i)
  case 0
  then show ?case by simp
next
  case (Suc k)
  then have i: "i < length (disks domdef)" by simp
  with assms have g: "plain_file_or_skipped B (disks domdef ! i)" by simp
  show ?case
    using Suc.IH [of "Suc i"] Suc.prems by (simp add: backfill_body_good [OF i g])
qed

lemma backfill_loop_bad:
  shows "i + k \<le> length (disks domdef) \<Longrightarrow>
         \<exists>j. i \<le> j \<and> j < i + k \<and> \<not> plain_file_or_skipped B (disks domdef ! j) \<Longrightarrow>
         \<exists>d. for_loop k i (align_backfill_body B domdef suffix [] True)
           (backfill_state B suffix def (disks domdef) i)
         = Inl (ErrRefuseToGenerateFileName, d)"
proof (induction k arbitrary: i)
  case 0
  then show ?case by auto
next
  case (Suc k)
  then have i: "i < length (disks domdef)" by simp
  show ?case
  proof (cases "plain_file_or_skipped B (disks domdef ! i)")
    case True
    from Suc.prems(2) obtain j where j: "i \<le> j" "j < i + Suc k"
      "\<not> plain_file_or_skipped B (disks domdef ! j)" by blast
    with True have "j \<noteq> i" by auto
    with j have "\<exists>j. Suc i \<le> j \<and> j < Suc i + k \<and> \<not> plain_file_or_skipped B (disks domdef ! j)"
      by (intro exI [of _ j]) auto
    with Suc.IH [of "Suc i"] Suc.prems(1) show ?thesis
      by (simp add: backfill_body_good [OF i True])
  next
    case False
    from backfill_body_bad [OF i False, of suffix def] show ?thesis by auto
  qed
qed

lemma align_backupmode_keeps:
  "bd_name (align_backupmode inc b) = bd_name b"
  "bd_backup (align_backupmode inc b) = bd_backup b"
  "bd_store (align_backupmode inc b) = bd_store b"
  by (simp_all add: align_backupmode_def Let_def)

lemma align_empty_unfold:
  assumes "bdisks def = []" "disks domdef \<noteq> []"
  shows "virDomainBackupAlignDisks B def domdef suffix =
     (case for_loop (length (disks domdef)) 0 (align_backfill_body B domdef suffix [] True)
             (backfill_state B suffix def (disks domdef) 0) of
        Inl e \<Rightarrow> Inl e
      | Inr (def3, n) \<Rightarrow>
          Inr (def3\<lparr>bdisks := map (align_backupmode (def_incremental def3)) (bdisks def3)\<rparr>))"
  using assms by (simp add: virDomainBackupAlignDisks_def backfill_state_def Let_def)

lemma align_empty_good:
  assumes "bdisks def = []" "disks domdef \<noteq> []"
    and "\<forall>d\<in>set (disks domdef). plain_file_or_skipped B d"
  shows "virDomainBackupAlignDisks B def domdef suffix
           = Inr (def\<lparr>bdisks := map (\<lambda>d. align_backupmode (def_incremental def)
                                           (backfilled_directive B suffix d)) (disks domdef)\<rparr>)"
  using backfill_loop_good [OF assms(3), of 0 "length (disks domdef)" suffix def]
  by (simp add: align_empty_unfold [OF assms(1,2)] backfill_state_def comp_def)

lemma align_empty_bad:
  assumes "bdisks def = []" "disks domdef \<noteq> []"
    and "\<exists>d\<in>set (disks domdef). \<not> plain_file_or_skipped B d"
  shows "\<exists>def'. virDomainBackupAlignDisks B def domdef suffix
           = Inl (ErrRefuseToGenerateFileName, def')"
proof -
  from assms(3) obtain j where "j < length (disks domdef)"
    "\<not> plain_file_or_skipped B (disks domdef ! j)"
    by (auto simp: in_set_conv_nth)
  then have "\<exists>j. 0 \<le> j \<and> j < 0 + length (disks domdef)
      \<and> \<not> plain_file_or_skipped B (disks domdef ! j)" by auto
  from backfill_loop_bad [OF _ this, of suffix def]
  show ?thesis by (auto simp: align_empty_unfold [OF assms(1,2)])
qed

text \<open>
  Claim C9. With an empty disk list and a domain that has disks, the alignment gives one
  directive for each domain disk, in the order of the domain: disabled for a disk that is
  read-only or has no media, enabled otherwise, with a plain-file target whose path is the
  path of the disk, a dot and the suffix. It fails when such a disk is not a plain file.
\<close>

theorem align_empty_disk_list:
  assumes "bdisks def = []" "disks domdef \<noteq> []"
  shows "((\<forall>d\<in>set (disks domdef).
             virStorageSourceIsEmpty B (src d) \<or> src_readonly (src d)
             \<or> virStorageSourceGetActualType B (src d) = VIR_STORAGE_TYPE_FILE)
          \<longrightarrow> (\<exists>def'. virDomainBackupAlignDisks B def domdef suffix = Inr def'
                 \<and> length (bdisks def') = length (disks domdef)
                 \<and> (\<forall>i<length (disks domdef).
                       bd_name (bdisks def' ! i) = Some (dst (disks domdef ! i))
                       \<and> (if virStorageSourceIsEmpty B (src (disks domdef ! i))
                              \<or> src_readonly (src (disks domdef ! i))
                           then bd_backup (bdisks def' ! i) = VIR_TRISTATE_BOOL_NO
                                \<and> bd_store (bdisks def' ! i) = None
                           else bd_backup (bdisks def' ! i) = VIR_TRISTATE_BOOL_YES
                                \<and> bd_store (bdisks def' ! i)
                                    = Some (virStorageSourceNew
                                        \<lparr>src_type := VIR_STORAGE_TYPE_FILE,
                                         src_path := Some (fmt_s (src_path (src (disks domdef ! i)))
                                                            @ ''.'' @ suffix)\<rparr>)))))
       \<and> ((\<exists>d\<in>set (disks domdef).
              \<not> virStorageSourceIsEmpty B (src d) \<and> \<not> src_readonly (src d)
              \<and> virStorageSourceGetActualType B (src d) \<noteq> VIR_STORAGE_TYPE_FILE)
          \<longrightarrow> (\<exists>def'. virDomainBackupAlignDisks B def domdef suffix
                        = Inl (ErrRefuseToGenerateFileName, def')))"
proof (intro conjI impI)
  assume "\<forall>d\<in>set (disks domdef).
             virStorageSourceIsEmpty B (src d) \<or> src_readonly (src d)
             \<or> virStorageSourceGetActualType B (src d) = VIR_STORAGE_TYPE_FILE"
  then have g: "\<forall>d\<in>set (disks domdef). plain_file_or_skipped B d"
    by (simp add: plain_file_or_skipped_def)
  show "\<exists>def'. virDomainBackupAlignDisks B def domdef suffix = Inr def'
                 \<and> length (bdisks def') = length (disks domdef)
                 \<and> (\<forall>i<length (disks domdef).
                       bd_name (bdisks def' ! i) = Some (dst (disks domdef ! i))
                       \<and> (if virStorageSourceIsEmpty B (src (disks domdef ! i))
                              \<or> src_readonly (src (disks domdef ! i))
                           then bd_backup (bdisks def' ! i) = VIR_TRISTATE_BOOL_NO
                                \<and> bd_store (bdisks def' ! i) = None
                           else bd_backup (bdisks def' ! i) = VIR_TRISTATE_BOOL_YES
                                \<and> bd_store (bdisks def' ! i)
                                    = Some (virStorageSourceNew
                                        \<lparr>src_type := VIR_STORAGE_TYPE_FILE,
                                         src_path := Some (fmt_s (src_path (src (disks domdef ! i)))
                                                            @ ''.'' @ suffix)\<rparr>)))"
    unfolding align_empty_good [OF assms g]
    by (simp add: align_backupmode_keeps backfilled_directive_def)
next
  assume "\<exists>d\<in>set (disks domdef).
              \<not> virStorageSourceIsEmpty B (src d) \<and> \<not> src_readonly (src d)
              \<and> virStorageSourceGetActualType B (src d) \<noteq> VIR_STORAGE_TYPE_FILE"
  then have "\<exists>d\<in>set (disks domdef). \<not> plain_file_or_skipped B d"
    by (simp add: plain_file_or_skipped_def)
  from align_empty_bad [OF assms this]
  show "\<exists>def'. virDomainBackupAlignDisks B def domdef suffix
                        = Inl (ErrRefuseToGenerateFileName, def')" .
qed

lemmas backup_example_defs = example_backup_collaborators_def empty_backup_def_def
  storage_with_def disk_with_def info_with_def empty_def_def

text \<open>A writable disk with an image and a read-only one.\<close>

theorem align_empty_disk_list_witness:
  "\<exists>def'. virDomainBackupAlignDisks example_backup_collaborators empty_backup_def
       (empty_def\<lparr>disks :=
          [disk_with None ''vda'' (storage_with VIR_STORAGE_TYPE_FILE (Some ''/img/a.qcow2'') False),
           disk_with None ''vdb'' (storage_with VIR_STORAGE_TYPE_FILE (Some ''/img/b.iso'') True)]\<rparr>)
       ''bak''
     = Inr def'
   \<and> length (bdisks def') = 2
   \<and> bd_name (bdisks def' ! 0) = Some ''vda''
   \<and> bd_backup (bdisks def' ! 0) = VIR_TRISTATE_BOOL_YES
   \<and> bd_store (bdisks def' ! 0)
       = Some (storage_with VIR_STORAGE_TYPE_FILE (Some ''/img/a.qcow2.bak'') False)
   \<and> bd_name (bdisks def' ! 1) = Some ''vdb''
   \<and> bd_backup (bdisks def' ! 1) = VIR_TRISTATE_BOOL_NO
   \<and> bd_store (bdisks def' ! 1) = None"
proof -
  let ?a = "disk_with None ''vda'' (storage_with VIR_STORAGE_TYPE_FILE (Some ''/img/a.qcow2'') False)"
  let ?b = "disk_with None ''vdb'' (storage_with VIR_STORAGE_TYPE_FILE (Some ''/img/b.iso'') True)"
  let ?dom = "empty_def\<lparr>disks := [?a, ?b]\<rparr>"
  have a: "bdisks empty_backup_def = []" by (simp add: empty_backup_def_def)
  have b: "disks ?dom \<noteq> []" by simp
  have ds: "disks ?dom = [?a, ?b]" by simp
  have pa: "\<not> virStorageSourceIsEmpty example_backup_collaborators (src ?a)"
    "\<not> src_readonly (src ?a)"
    "virStorageSourceGetActualType example_backup_collaborators (src ?a) = VIR_STORAGE_TYPE_FILE"
    "dst ?a = ''vda''" "src_path (src ?a) = Some ''/img/a.qcow2''"
    by (simp_all add: example_backup_collaborators_def disk_with_def storage_with_def)
  have pb: "src_readonly (src ?b)" "dst ?b = ''vdb''"
    by (simp_all add: disk_with_def storage_with_def)
  have prem: "\<forall>d\<in>set (disks ?dom).
             virStorageSourceIsEmpty example_backup_collaborators (src d) \<or> src_readonly (src d)
             \<or> virStorageSourceGetActualType example_backup_collaborators (src d)
                 = VIR_STORAGE_TYPE_FILE"
    unfolding ds using pa pb by simp
  note t = align_empty_disk_list [OF a b, of example_backup_collaborators "''bak''",
      THEN conjunct1, THEN mp, OF prem]
  have st: "virStorageSourceNew\<lparr>src_type := VIR_STORAGE_TYPE_FILE,
                src_path := Some (fmt_s (Some ''/img/a.qcow2'') @ ''.bak'')\<rparr>
              = storage_with VIR_STORAGE_TYPE_FILE (Some ''/img/a.qcow2.bak'') False"
    by (simp add: virStorageSourceNew_def storage_with_def fmt_s_def)
  from t show ?thesis
  proof (elim exE conjE)
    fix def'
    assume r: "virDomainBackupAlignDisks example_backup_collaborators empty_backup_def ?dom ''bak''
                 = Inr def'"
      and l: "length (bdisks def') = length (disks ?dom)"
      and p: "\<forall>i<length (disks ?dom).
                bd_name (bdisks def' ! i) = Some (dst (disks ?dom ! i))
                \<and> (if virStorageSourceIsEmpty example_backup_collaborators (src (disks ?dom ! i))
                       \<or> src_readonly (src (disks ?dom ! i))
                    then bd_backup (bdisks def' ! i) = VIR_TRISTATE_BOOL_NO
                         \<and> bd_store (bdisks def' ! i) = None
                    else bd_backup (bdisks def' ! i) = VIR_TRISTATE_BOOL_YES
                         \<and> bd_store (bdisks def' ! i)
                             = Some (virStorageSourceNew
                                 \<lparr>src_type := VIR_STORAGE_TYPE_FILE,
                                  src_path := Some (fmt_s (src_path (src (disks ?dom ! i)))
                                                     @ ''.'' @ ''bak'')\<rparr>))"
    have p0: "bd_name (bdisks def' ! 0) = Some ''vda''
        \<and> bd_backup (bdisks def' ! 0) = VIR_TRISTATE_BOOL_YES
        \<and> bd_store (bdisks def' ! 0)
            = Some (storage_with VIR_STORAGE_TYPE_FILE (Some ''/img/a.qcow2.bak'') False)"
      using p [rule_format, of 0] unfolding ds by (simp add: pa st)
    have p1: "bd_name (bdisks def' ! 1) = Some ''vdb''
        \<and> bd_backup (bdisks def' ! 1) = VIR_TRISTATE_BOOL_NO
        \<and> bd_store (bdisks def' ! 1) = None"
      using p [rule_format, of 1] unfolding ds by (simp add: pb)
    from l have l2: "length (bdisks def') = 2" unfolding ds by simp
    from r l2 p0 p1 show ?thesis by blast
  qed
qed

end
